(* ===== verification/Events.thy ===== *)
theory Events
  imports GoBase "HOL-Library.AList"
begin

text \<open>
  The payload of a firing (\<^verbatim>\<open>internal/event/event.go\<close>): the event record with the details of
  each kind of trigger, the environment variables that describe it, the causes for which a
  context is canceled, the result of a run, and the JSON text in which a payload is stored.

  A Go \<open>map[string]string\<close> is an association list without repeated keys whose order means
  nothing; \<open>None\<close> is the nil map. A pointer to an optional value is an option.
\<close>

section \<open>Maps of strings\<close>

type_synonym strmap = "(string \<times> string) list"

definition entries :: "strmap option \<Rightarrow> strmap" where
  "entries m = (case m of None \<Rightarrow> [] | Some xs \<Rightarrow> xs)"

definition put_all :: "strmap \<Rightarrow> strmap \<Rightarrow> strmap" where
  "put_all kvs m = fold (\<lambda>(k, v) acc. AList.update k v acc) kvs m"

lemma put_all_Nil [simp]: "put_all [] m = m"
  by (simp add: put_all_def)

lemma put_all_Cons [simp]: "put_all ((k, v) # kvs) m = put_all kvs (AList.update k v m)"
  by (simp add: put_all_def)

lemma map_of_put_all:
  "distinct (map fst kvs) \<Longrightarrow> map_of (put_all kvs m) = map_of m ++ map_of kvs"
proof (induction kvs arbitrary: m)
  case (Cons kv kvs)
  obtain k v where kv: "kv = (k, v)" by (cases kv)
  with Cons.prems have k: "map_of kvs k = None" by (auto simp: map_of_eq_None_iff)
  from Cons kv have "map_of (put_all (kv # kvs) m) = (map_of m)(k \<mapsto> v) ++ map_of kvs"
    by (simp add: update_conv')
  also have "\<dots> = map_of m ++ map_of (kv # kvs)"
    using k by (auto simp: kv map_add_def fun_eq_iff split: option.splits)
  finally show ?case .
qed simp

lemma distinct_put_all:
  "distinct (map fst m) \<Longrightarrow> distinct (map fst (put_all kvs m))"
  by (induction kvs arbitrary: m) (auto simp: distinct_update split: prod.splits)

section \<open>The event record\<close>

text \<open>Trigger kinds: what fired the event.\<close>

abbreviation KindManual :: string where "KindManual \<equiv> ''manual''"
abbreviation KindCron :: string where "KindCron \<equiv> ''cron''"
abbreviation KindWebhook :: string where "KindWebhook \<equiv> ''webhook''"
abbreviation KindFile :: string where "KindFile \<equiv> ''file''"
abbreviation KindAfter :: string where "KindAfter \<equiv> ''after''"
abbreviation KindStartup :: string where "KindStartup \<equiv> ''startup''"
abbreviation KindWake :: string where "KindWake \<equiv> ''wake''"
abbreviation KindRestart :: string where "KindRestart \<equiv> ''restart''"

record after_info =
  ai_event :: string
  ai_run_id :: int
  ai_status :: string
  ai_exit_code :: "int option"

record wake_info =
  wi_slept_at :: gotime
  wi_slept_seconds :: int

record file_change =
  fc_path :: string
  fc_op :: string

record cron_info =
  ci_schedule :: string
  ci_scheduled_at :: gotime
  ci_missed :: bool

record webhook_info =
  wh_method :: string
  wh_path :: string
  wh_remote_addr :: string
  wh_headers :: strmap
  wh_query :: strmap
  wh_body :: string

record event =
  ev_request_id :: string
  ev_run_id :: int
  ev_attempt :: int
  ev_name :: string
  ev_trigger :: string
  ev_trigger_id :: string
  ev_time :: gotime
  ev_data :: "strmap option"
  ev_source :: string
  ev_files :: "file_change list"
  ev_cron :: "cron_info option"
  ev_webhook :: "webhook_info option"
  ev_after :: "after_info option"
  ev_wake :: "wake_info option"

text \<open>The zero value of the struct: what \<open>event.Event{}\<close> is before fields are set.\<close>

definition zero_event :: event where
  "zero_event = \<lparr>ev_request_id = [], ev_run_id = 0, ev_attempt = 0, ev_name = [],
     ev_trigger = [], ev_trigger_id = [], ev_time = zero_time, ev_data = None, ev_source = [],
     ev_files = [], ev_cron = None, ev_webhook = None, ev_after = None, ev_wake = None\<rparr>"

text \<open>
  The cancellation causes a run can carry: a deadline, a cancel by the user, a replacement
  by a newer firing, and the end of the runner context (the agent stops).
\<close>

datatype cause = DeadlineExceeded | ErrCanceledByUser | ErrReplaced | RunnerStopped

datatype dispatch_status = Dispatch_Queued | Dispatch_Dropped

text \<open>The outcome of one run.\<close>

record result =
  res_exit_code :: int
  res_duration :: duration
  res_output :: string
  res_truncated :: bool
  res_error :: string
  res_reason :: string
  res_signal :: string

definition zero_result :: result where
  "zero_result = \<lparr>res_exit_code = 0, res_duration = 0, res_output = [], res_truncated = False,
     res_error = [], res_reason = [], res_signal = []\<rparr>"

section \<open>Stored payloads\<close>

text \<open>
  A payload column holds the JSON text of an event or any other text, which another writer of
  the database may have put there. \<open>json.Marshal\<close> of an event fails only for a time
  whose year lies outside 0 to 9999; \<open>json.Unmarshal\<close> reads back what it wrote.
\<close>

datatype payload = EventJson event | OtherText string

definition json_time_ok :: "gotime \<Rightarrow> bool" where
  "json_time_ok t \<longleftrightarrow> - 62167219200000000000 \<le> t \<and> t < 253402300800000000000"

definition marshal_event :: "event \<Rightarrow> payload option" where
  "marshal_event ev =
     (if json_time_ok (ev_time ev)
         \<and> (case ev_cron ev of None \<Rightarrow> True | Some c \<Rightarrow> json_time_ok (ci_scheduled_at c))
         \<and> (case ev_wake ev of None \<Rightarrow> True | Some w \<Rightarrow> json_time_ok (wi_slept_at w))
      then Some (EventJson ev) else None)"

fun unmarshal_event :: "payload \<Rightarrow> event option" where
  "unmarshal_event (EventJson ev) = Some ev"
| "unmarshal_event (OtherText s) = None"

lemma unmarshal_marshal: "marshal_event ev = Some p \<Longrightarrow> unmarshal_event p = Some ev"
  by (auto simp: marshal_event_def split: if_splits)

section \<open>The environment of a firing\<close>

text \<open>\<open>Format(time.RFC3339)\<close> of a time in UTC, for the years 0 to 9999.\<close>

definition civil_from_days :: "int \<Rightarrow> int \<times> int \<times> int" where
  "civil_from_days days =
     (let z = days + 719468; era = z div 146097; doe = z mod 146097;
          yoe = (doe - doe div 1460 + doe div 36524 - doe div 146096) div 365;
          doy = doe - (365 * yoe + yoe div 4 - yoe div 100);
          mp = (5 * doy + 2) div 153;
          d = doy - (153 * mp + 2) div 5 + 1;
          m = (if mp < 10 then mp + 3 else mp - 9)
      in (yoe + era * 400 + (if m \<le> 2 then 1 else 0), m, d))"

definition pad :: "nat \<Rightarrow> int \<Rightarrow> string" where
  "pad n v = (let s = Itoa v in replicate (n - length s) CHR ''0'' @ s)"

definition RFC3339 :: "gotime \<Rightarrow> string" where
  "RFC3339 t =
     (let sec = t div 1000000000; sod = sec mod 86400
      in case civil_from_days (sec div 86400) of (y, m, d) \<Rightarrow>
        pad 4 y @ ''-'' @ pad 2 m @ ''-'' @ pad 2 d @ ''T'' @
        pad 2 (sod div 3600) @ '':'' @ pad 2 (sod div 60 mod 60) @ '':'' @ pad 2 (sod mod 60) @ ''Z'')"

text \<open>JSON of a map of strings: keys sorted, HTML characters escaped, as \<open>json.Marshal\<close> does.\<close>

definition hex_char :: "nat \<Rightarrow> char" where
  "hex_char n = (if n < 10 then char_of (48 + n) else char_of (87 + n))"

definition json_char :: "char \<Rightarrow> string" where
  "json_char c =
     (let n = of_char c :: nat in
      if n = 34 then [CHR 0x5C, CHR 0x22] else if n = 92 then [CHR 0x5C, CHR 0x5C]
      else if n = 8 then [CHR 0x5C, CHR ''b''] else if n = 12 then [CHR 0x5C, CHR ''f'']
      else if n = 10 then [CHR 0x5C, CHR ''n''] else if n = 13 then [CHR 0x5C, CHR ''r'']
      else if n = 9 then [CHR 0x5C, CHR ''t'']
      else if n < 32 \<or> n = 60 \<or> n = 62 \<or> n = 38
        then [CHR 0x5C, CHR ''u'', CHR ''0'', CHR ''0'', hex_char (n div 16), hex_char (n mod 16)]
      else [c])"

definition json_string :: "string \<Rightarrow> string" where
  "json_string s = [CHR 0x22] @ concat (map json_char s) @ [CHR 0x22]"

definition sorted_keys :: "strmap \<Rightarrow> string list" where
  "sorted_keys m = sort (map fst m)"

definition value_of :: "strmap \<Rightarrow> string \<Rightarrow> string" where
  "value_of m k = (case map_of m k of None \<Rightarrow> [] | Some v \<Rightarrow> v)"

definition json_strmap :: "strmap \<Rightarrow> string" where
  "json_strmap m = ''{'' @
     Join (map (\<lambda>k. json_string k @ '':'' @ json_string (value_of m k)) (sorted_keys m)) '','' @ ''}''"

definition kv :: "string \<Rightarrow> string \<Rightarrow> string" where
  "kv k v = k @ ''='' @ v"

text \<open>The variables of \<open>Event.Env\<close>; \<open>list_sep\<close> is \<open>os.PathListSeparator\<close>.\<close>

definition Env_head :: "event \<Rightarrow> string list" where
  "Env_head e =
     (let runID = (if ev_run_id e \<noteq> 0 then Itoa (ev_run_id e) else []);
          attempt = (if ev_attempt e = 0 then 1 else ev_attempt e);
          data = (case ev_data e of None \<Rightarrow> ''{}'' | Some m \<Rightarrow> json_strmap m)
      in [kv ''KICKD_EVENT'' (ev_name e), kv ''KICKD_RUN_ID'' runID,
          kv ''KICKD_REQUEST_ID'' (ev_request_id e), kv ''KICKD_ATTEMPT'' (Itoa attempt),
          kv ''KICKD_TIME'' (RFC3339 (ev_time e)), kv ''KICKD_TRIGGER'' (ev_trigger e),
          kv ''KICKD_TRIGGER_ID'' (ev_trigger_id e), kv ''KICKD_DATA'' data])"

definition Env_data :: "event \<Rightarrow> string list" where
  "Env_data e = map (\<lambda>k. kv (''KICKD_DATA_'' @ ToUpper k) (value_of (entries (ev_data e)) k))
     (sorted_keys (entries (ev_data e)))"

definition Env_tail :: "char \<Rightarrow> event \<Rightarrow> string list" where
  "Env_tail list_sep e =
     (let cronSchedule = (case ev_cron e of None \<Rightarrow> [] | Some c \<Rightarrow> ci_schedule c);
          cronScheduledAt = (case ev_cron e of None \<Rightarrow> [] | Some c \<Rightarrow>
            if IsZero (ci_scheduled_at c) then [] else RFC3339 (ci_scheduled_at c));
          cronMissed = (case ev_cron e of None \<Rightarrow> [] | Some c \<Rightarrow> if ci_missed c then ''1'' else ''0'');
          method = (case ev_webhook e of None \<Rightarrow> [] | Some w \<Rightarrow> wh_method w);
          path = (case ev_webhook e of None \<Rightarrow> [] | Some w \<Rightarrow> wh_path w);
          remoteAddr = (case ev_webhook e of None \<Rightarrow> [] | Some w \<Rightarrow> wh_remote_addr w);
          files = ev_files e;
          filePath = (if files = [] then [] else fc_path (last files));
          fileOp = (if files = [] then [] else fc_op (last files));
          fileCount = (if files = [] then [] else Itoa (int (length files)));
          filePaths = (if files = [] then [] else Join (map fc_path files) [list_sep]);
          afterEvent = (case ev_after e of None \<Rightarrow> [] | Some a \<Rightarrow> ai_event a);
          afterRunID = (case ev_after e of None \<Rightarrow> [] | Some a \<Rightarrow> Itoa (ai_run_id a));
          afterStatus = (case ev_after e of None \<Rightarrow> [] | Some a \<Rightarrow> ai_status a);
          afterExitCode = (case ev_after e of None \<Rightarrow> []
            | Some a \<Rightarrow> (case ai_exit_code a of None \<Rightarrow> [] | Some c \<Rightarrow> Itoa c));
          wakeSleptAt = (case ev_wake e of None \<Rightarrow> [] | Some w \<Rightarrow> RFC3339 (wi_slept_at w));
          wakeSleptSeconds = (case ev_wake e of None \<Rightarrow> [] | Some w \<Rightarrow> Itoa (wi_slept_seconds w))
      in [kv ''KICKD_MANUAL_SOURCE'' (ev_source e), kv ''KICKD_CRON_SCHEDULE'' cronSchedule,
          kv ''KICKD_CRON_SCHEDULED_AT'' cronScheduledAt, kv ''KICKD_CRON_MISSED'' cronMissed,
          kv ''KICKD_WEBHOOK_METHOD'' method, kv ''KICKD_WEBHOOK_PATH'' path,
          kv ''KICKD_WEBHOOK_REMOTE_ADDR'' remoteAddr, kv ''KICKD_FILE_PATH'' filePath,
          kv ''KICKD_FILE_OP'' fileOp, kv ''KICKD_FILE_COUNT'' fileCount,
          kv ''KICKD_FILE_PATHS'' filePaths, kv ''KICKD_AFTER_EVENT'' afterEvent,
          kv ''KICKD_AFTER_RUN_ID'' afterRunID, kv ''KICKD_AFTER_STATUS'' afterStatus,
          kv ''KICKD_AFTER_EXIT_CODE'' afterExitCode, kv ''KICKD_WAKE_SLEPT_AT'' wakeSleptAt,
          kv ''KICKD_WAKE_SLEPT_SECONDS'' wakeSleptSeconds])"

definition Env :: "char \<Rightarrow> event \<Rightarrow> string list" where
  "Env list_sep e = Env_head e @ Env_data e @ Env_tail list_sep e"

section \<open>Facts\<close>

definition env_name :: "string \<Rightarrow> string" where
  "env_name s = fst (Cut s CHR ''='')"

lemma env_name_kv [simp]: "CHR ''='' \<notin> set k \<Longrightarrow> env_name (kv k v) = k"
  by (simp add: env_name_def kv_def Cut_append)

definition fixed_head_names :: "string list" where
  "fixed_head_names = [''KICKD_EVENT'', ''KICKD_RUN_ID'', ''KICKD_REQUEST_ID'', ''KICKD_ATTEMPT'',
     ''KICKD_TIME'', ''KICKD_TRIGGER'', ''KICKD_TRIGGER_ID'', ''KICKD_DATA'']"

definition fixed_tail_names :: "string list" where
  "fixed_tail_names = [''KICKD_MANUAL_SOURCE'', ''KICKD_CRON_SCHEDULE'', ''KICKD_CRON_SCHEDULED_AT'',
     ''KICKD_CRON_MISSED'', ''KICKD_WEBHOOK_METHOD'', ''KICKD_WEBHOOK_PATH'',
     ''KICKD_WEBHOOK_REMOTE_ADDR'', ''KICKD_FILE_PATH'', ''KICKD_FILE_OP'', ''KICKD_FILE_COUNT'',
     ''KICKD_FILE_PATHS'', ''KICKD_AFTER_EVENT'', ''KICKD_AFTER_RUN_ID'', ''KICKD_AFTER_STATUS'',
     ''KICKD_AFTER_EXIT_CODE'', ''KICKD_WAKE_SLEPT_AT'', ''KICKD_WAKE_SLEPT_SECONDS'']"

lemma Env_head_names: "map env_name (Env_head e) = fixed_head_names"
  by (simp add: Env_head_def fixed_head_names_def Let_def)

lemma Env_tail_names: "map env_name (Env_tail sep e) = fixed_tail_names"
  by (simp add: Env_tail_def fixed_tail_names_def Let_def)

lemma to_upper_char_eq: "CHR ''='' = to_upper_char c \<longleftrightarrow> c = CHR ''=''"
proof (cases "97 \<le> (of_char c :: nat) \<and> (of_char c :: nat) \<le> 122")
  case True
  then have "(of_char c :: nat) - 32 < 256" by linarith
  with True have "(of_char (to_upper_char c) :: nat) = of_char c - 32"
    by (simp add: to_upper_char_def Let_def take_bit_eq_mod)
  with True have "(of_char (to_upper_char c) :: nat) \<noteq> of_char (CHR ''='')" and "c \<noteq> CHR ''=''"
    by auto
  then show ?thesis by metis
next
  case False
  then show ?thesis by (auto simp: to_upper_char_def Let_def)
qed

lemma set_sorted_keys [simp]: "set (sorted_keys m) = fst ` set m"
  by (simp add: sorted_keys_def)

lemma Env_data_names:
  assumes "\<And>k. k \<in> fst ` set (entries (ev_data e)) \<Longrightarrow> CHR ''='' \<notin> set k"
  shows "map env_name (Env_data e) =
    map (\<lambda>k. ''KICKD_DATA_'' @ ToUpper k) (sorted_keys (entries (ev_data e)))"
proof -
  have no: "CHR ''='' \<notin> set (''KICKD_DATA_'' @ ToUpper k)"
    if "k \<in> set (sorted_keys (entries (ev_data e)))" for k
  proof -
    have "CHR ''='' \<notin> set k" using that assms by simp
    then have "CHR ''='' \<notin> set (ToUpper k)"
      unfolding ToUpper_def set_map image_iff to_upper_char_eq by blast
    then show ?thesis by simp
  qed
  have "map env_name (Env_data e) = map (\<lambda>k. env_name (kv (''KICKD_DATA_'' @ ToUpper k) (value_of (entries (ev_data e)) k)))
      (sorted_keys (entries (ev_data e)))"
    by (simp add: Env_data_def)
  also have "\<dots> = map (\<lambda>k. ''KICKD_DATA_'' @ ToUpper k) (sorted_keys (entries (ev_data e)))"
    by (rule map_cong [OF refl]) (rule env_name_kv, rule no)
  finally show ?thesis .
qed

end
