(* ===== verification/Output.thy ===== *)
theory Output
  imports GoBase
begin

text \<open>
  What becomes of the output of a command (\<^verbatim>\<open>internal/runner/runner.go\<close>): the capture that
  keeps the first bytes, the tail that keeps the last lines of the error stream, the line writer
  between a stream and its sinks, and the output files that several runs share.
\<close>

section \<open>capBuffer\<close>

definition maxCapturedOutput :: int where "maxCapturedOutput = 64 * 1024"
definition maxLogLine :: int where "maxLogLine = 8 * 1024"
definition tailLines :: int where "tailLines = 20"
definition tailBytes :: int where "tailBytes = 4 * 1024"

record cap_buffer =
  cb_buf :: string
  cb_limit :: int
  cb_truncated :: bool

definition new_capture :: "int \<Rightarrow> cap_buffer" where
  "new_capture limit = \<lparr>cb_buf = [], cb_limit = limit, cb_truncated = False\<rparr>"

definition cap_write :: "string \<Rightarrow> cap_buffer \<Rightarrow> cap_buffer" where
  "cap_write p b =
     (let room = cb_limit b - int (length (cb_buf b)) in
      if room \<le> 0 then b\<lparr>cb_truncated := True\<rparr>
      else if int (length p) > room
        then b\<lparr>cb_buf := cb_buf b @ take (nat room) p, cb_truncated := True\<rparr>
      else b\<lparr>cb_buf := cb_buf b @ p\<rparr>)"

definition cap_writes :: "string list \<Rightarrow> cap_buffer \<Rightarrow> cap_buffer" where
  "cap_writes ps b = fold cap_write ps b"

section \<open>tailBuffer\<close>

record tail_buffer =
  tb_lines :: "string list"
  tb_partial :: string
  tb_maxLines :: int
  tb_maxBytes :: int

definition new_tail :: tail_buffer where
  "new_tail = \<lparr>tb_lines = [], tb_partial = [], tb_maxLines = tailLines, tb_maxBytes = tailBytes\<rparr>"

definition suffix_of :: "int \<Rightarrow> 'a list \<Rightarrow> 'a list" where
  "suffix_of n xs = (if int (length xs) > n then drop (length xs - nat n) xs else xs)"

definition tail_push :: "string \<Rightarrow> tail_buffer \<Rightarrow> tail_buffer" where
  "tail_push line t = t\<lparr>tb_lines := suffix_of (tb_maxLines t) (tb_lines t @ [line])\<rparr>"

text \<open>
  The loop over \<open>bytes.IndexByte\<close> that \<open>tailBuffer.Write\<close> and \<open>lineWriter.Write\<close> share:
  the complete lines of the buffer, and what follows the last newline.
\<close>

function drain :: "string \<Rightarrow> string list \<times> string" where
  "drain s =
     (case Cut s newline of
        (line, rest, found) \<Rightarrow>
          (if found then (case drain rest of (ls, r) \<Rightarrow> (line # ls, r)) else ([], s)))"
  by auto

lemma Cut_length: "Cut s c = (a, b, True) \<Longrightarrow> length b < length s"
  by (drule Cut_found) simp

termination drain
  by (relation "measure length") (auto dest: Cut_length [OF sym])

declare drain.simps [simp del]

definition tail_write :: "string \<Rightarrow> tail_buffer \<Rightarrow> tail_buffer" where
  "tail_write p t =
     (case drain (tb_partial t @ p) of
        (ls, rest) \<Rightarrow>
          (fold (\<lambda>l. tail_push (TrimRight l carriage_return)) ls t)
            \<lparr>tb_partial := suffix_of (tb_maxBytes t) rest\<rparr>)"

definition tail_string :: "tail_buffer \<Rightarrow> string" where
  "tail_string t =
     (let lines = (if tb_partial t \<noteq> [] then tb_lines t @ [tb_partial t] else tb_lines t);
          s = TrimRight (Join lines [newline]) newline
      in suffix_of (tb_maxBytes t) s)"

section \<open>lineWriter\<close>

datatype stream = Stdout | Stderr

text \<open>
  What the two writers of one run share: the pieces handed to the capture, the writes to the
  output file (if the run has one), and the texts of the \<open>Run output\<close> lines, before masking.
\<close>

record sinks =
  sk_capture :: cap_buffer
  sk_pieces :: "(stream \<times> string) list"
  sk_file :: "string list option"
  sk_log :: "(stream \<times> string) list"

record line_writer =
  lw_stream :: stream
  lw_tail :: "tail_buffer option"
  lw_emit :: bool
  lw_buf :: string
  lw_pending :: string

text \<open>\<open>sk_pieces\<close> repeats what went to the capture, before its limit, for the statements below.\<close>

definition to_capture :: "stream \<Rightarrow> string \<Rightarrow> sinks \<Rightarrow> sinks" where
  "to_capture st p k =
     k\<lparr>sk_capture := cap_write p (sk_capture k), sk_pieces := sk_pieces k @ [(st, p)]\<rparr>"

definition toFile :: "string \<Rightarrow> sinks \<Rightarrow> sinks" where
  "toFile p k = k\<lparr>sk_file := map_option (\<lambda>ws. ws @ [p]) (sk_file k)\<rparr>"

definition log_line :: "stream \<Rightarrow> string \<Rightarrow> sinks \<Rightarrow> sinks" where
  "log_line st b k = k\<lparr>sk_log := sk_log k @ [(st, take (nat maxLogLine) (TrimRight b carriage_return))]\<rparr>"

text \<open>The part of a text up to and with its last newline, and the part after it.\<close>

definition whole_lines :: "string \<Rightarrow> string" where
  "whole_lines s = rev (dropWhile (\<lambda>c. c \<noteq> newline) (rev s))"

definition after_lines :: "string \<Rightarrow> string" where
  "after_lines s = rev (takeWhile (\<lambda>c. c \<noteq> newline) (rev s))"

definition lw_write_capture :: "string \<Rightarrow> line_writer \<times> sinks \<Rightarrow> line_writer \<times> sinks" where
  "lw_write_capture p wk =
     (case wk of (w, k) \<Rightarrow>
       (let pending = lw_pending w @ p in
        if newline \<in> set pending
          then (w\<lparr>lw_pending := after_lines pending\<rparr>,
                toFile (whole_lines pending) (to_capture (lw_stream w) (whole_lines pending) k))
        else if int (length pending) > maxLogLine
          then (w\<lparr>lw_pending := []\<rparr>, toFile pending (to_capture (lw_stream w) pending k))
        else (w\<lparr>lw_pending := pending\<rparr>, k)))"

definition lw_write_log :: "string \<Rightarrow> line_writer \<times> sinks \<Rightarrow> line_writer \<times> sinks" where
  "lw_write_log p wk =
     (case wk of (w, k) \<Rightarrow>
       (if \<not> lw_emit w then (w, k)
        else (case drain (lw_buf w @ p) of (ls, rest) \<Rightarrow>
          (let k' = fold (log_line (lw_stream w)) ls k in
           if int (length rest) > maxLogLine
             then (w\<lparr>lw_buf := []\<rparr>, log_line (lw_stream w) rest k')
           else (w\<lparr>lw_buf := rest\<rparr>, k')))))"

definition lw_write :: "string \<Rightarrow> line_writer \<times> sinks \<Rightarrow> line_writer \<times> sinks" where
  "lw_write p wk =
     (case lw_write_capture p wk of (w, k) \<Rightarrow>
       lw_write_log p (w\<lparr>lw_tail := map_option (tail_write p) (lw_tail w)\<rparr>, k))"

definition lw_flush :: "line_writer \<times> sinks \<Rightarrow> line_writer \<times> sinks" where
  "lw_flush wk =
     (case wk of (w, k) \<Rightarrow>
       (let wk1 = (if lw_pending w \<noteq> []
               then (w\<lparr>lw_pending := []\<rparr>,
                     toFile (lw_pending w @ [newline]) (to_capture (lw_stream w) (lw_pending w) k))
               else (w, k))
        in if lw_buf w \<noteq> []
           then ((fst wk1)\<lparr>lw_buf := []\<rparr>, log_line (lw_stream w) (lw_buf w) (snd wk1))
           else wk1))"

text \<open>The two writers of a run, and the chunks as the command writes them.\<close>

record run_output =
  ro_out :: line_writer
  ro_err :: line_writer
  ro_sinks :: sinks

definition new_output :: "bool \<Rightarrow> bool \<Rightarrow> run_output" where
  "new_output emit has_file =
     \<lparr>ro_out = \<lparr>lw_stream = Stdout, lw_tail = None, lw_emit = emit, lw_buf = [], lw_pending = []\<rparr>,
      ro_err = \<lparr>lw_stream = Stderr, lw_tail = Some new_tail, lw_emit = emit, lw_buf = [], lw_pending = []\<rparr>,
      ro_sinks = \<lparr>sk_capture = new_capture maxCapturedOutput, sk_pieces = [],
        sk_file = (if has_file then Some [] else None), sk_log = []\<rparr>\<rparr>"

fun out_write :: "stream \<times> string \<Rightarrow> run_output \<Rightarrow> run_output" where
  "out_write (Stdout, p) s =
     (case lw_write p (ro_out s, ro_sinks s) of (w, k) \<Rightarrow> s\<lparr>ro_out := w, ro_sinks := k\<rparr>)"
| "out_write (Stderr, p) s =
     (case lw_write p (ro_err s, ro_sinks s) of (w, k) \<Rightarrow> s\<lparr>ro_err := w, ro_sinks := k\<rparr>)"

definition out_flush :: "run_output \<Rightarrow> run_output" where
  "out_flush s =
     (case lw_flush (ro_out s, ro_sinks s) of (w, k) \<Rightarrow>
       (case lw_flush (ro_err s, k) of (w', k') \<Rightarrow> s\<lparr>ro_out := w, ro_err := w', ro_sinks := k'\<rparr>))"

definition run_streams :: "bool \<Rightarrow> bool \<Rightarrow> (stream \<times> string) list \<Rightarrow> run_output" where
  "run_streams emit has_file chunks = out_flush (fold out_write chunks (new_output emit has_file))"

section \<open>Facts\<close>

lemma cap_write_limit [simp]: "cb_limit (cap_write p b) = cb_limit b"
  by (simp add: cap_write_def Let_def)

lemma cap_writes_spec:
  assumes "\<forall>p \<in> set ps. p \<noteq> []" and "0 \<le> limit"
  shows "cb_buf (cap_writes ps (new_capture limit)) = take (nat limit) (concat ps)
    \<and> (cb_truncated (cap_writes ps (new_capture limit)) \<longleftrightarrow> int (length (concat ps)) > limit)"
  using assms(1)
proof (induction ps rule: rev_induct)
  case Nil
  with assms(2) show ?case by (simp add: cap_writes_def new_capture_def)
next
  case (snoc p ps)
  let ?b = "cap_writes ps (new_capture limit)"
  from snoc have IH: "cb_buf ?b = take (nat limit) (concat ps)"
    "cb_truncated ?b \<longleftrightarrow> int (length (concat ps)) > limit" and p: "p \<noteq> []" by simp_all
  have lim: "cb_limit ?b = limit"
    unfolding cap_writes_def by (induction ps rule: rev_induct) (simp_all add: new_capture_def)
  have w: "cap_writes (ps @ [p]) (new_capture limit) = cap_write p ?b" by (simp add: cap_writes_def)
  from p obtain n where "length p = Suc n" by (cases p) auto
  then show ?case
    unfolding w using IH lim assms(2)
    by (auto simp: cap_write_def Let_def min_def nat_le_iff nat_diff_distrib split: if_splits)
qed

lemma drain_append: "drain s = (ls, r) \<Longrightarrow> s = concat (map (\<lambda>l. l @ [newline]) ls) @ r"
proof (induction s arbitrary: ls r rule: drain.induct)
  case (1 s)
  obtain a b f where c: "Cut s newline = (a, b, f)" by (cases "Cut s newline")
  show ?case
  proof (cases f)
    case False
    with "1.prems" c show ?thesis by (subst (asm) drain.simps) simp
  next
    case True
    with "1.prems" c obtain ls' where d: "drain b = (ls', r)" and ls: "ls = a # ls'"
      by (subst (asm) drain.simps) (auto split: prod.splits)
    from "1.IH" [OF c [symmetric] refl True d] Cut_found [of s newline a b] c True ls
    show ?thesis by simp
  qed
qed

lemma drain_no_newline: "drain s = (ls, r) \<Longrightarrow> newline \<notin> set r \<and> (\<forall>l \<in> set ls. newline \<notin> set l)"
proof (induction s arbitrary: ls r rule: drain.induct)
  case (1 s)
  obtain a b f where c: "Cut s newline = (a, b, f)" by (cases "Cut s newline")
  show ?case
  proof (cases f)
    case False
    with "1.prems" c Cut_not_found [of s newline a b] show ?thesis by (subst (asm) drain.simps) simp
  next
    case True
    with "1.prems" c obtain ls' where d: "drain b = (ls', r)" and ls: "ls = a # ls'"
      by (subst (asm) drain.simps) (auto split: prod.splits)
    from "1.IH" [OF c [symmetric] refl True d] Cut_found [of s newline a b] c True ls
    show ?thesis by simp
  qed
qed

lemma whole_after: "whole_lines s @ after_lines s = s"
proof -
  have "rev (whole_lines s @ after_lines s) = rev s"
    by (simp add: whole_lines_def after_lines_def)
  then show ?thesis by (metis rev_rev_ident)
qed

lemma after_no_newline: "newline \<notin> set (after_lines s)"
  by (auto simp: after_lines_def dest: set_takeWhileD)

lemma whole_lines_last: "newline \<in> set s \<Longrightarrow> whole_lines s \<noteq> [] \<and> last (whole_lines s) = newline"
proof -
  assume "newline \<in> set s"
  then have "dropWhile (\<lambda>c. c \<noteq> newline) (rev s) \<noteq> []"
    by (auto simp: dropWhile_eq_Nil_conv)
  with hd_dropWhile [OF this] show ?thesis by (simp add: whole_lines_def last_rev)
qed

lemma length_suffix_of: "0 \<le> n \<Longrightarrow> int (length (suffix_of n xs)) \<le> n"
  by (simp add: suffix_of_def)


section \<open>The output of a run\<close>

definition content :: "stream \<Rightarrow> (stream \<times> string) list \<Rightarrow> string" where
  "content x cs = concat (map snd (filter (\<lambda>c. fst c = x) cs))"

lemma content_simps [simp]:
  "content x [] = []" "content x ((y, p) # cs) = (if y = x then p @ content x cs else content x cs)"
  "content x (cs @ ds) = content x cs @ content x ds"
  by (simp_all add: content_def)

definition whole_piece :: "string \<Rightarrow> bool" where
  "whole_piece p \<longleftrightarrow> p \<noteq> [] \<and> (last p = newline \<or> int (length p) > maxLogLine)"

text \<open>What a writer and its sinks have done with the text \<open>t\<close> of the stream so far.\<close>

definition sinks_ok :: "sinks \<Rightarrow> bool" where
  "sinks_ok k \<longleftrightarrow> sk_capture k = cap_writes (map snd (sk_pieces k)) (new_capture maxCapturedOutput)
     \<and> (\<forall>q \<in> set (sk_pieces k). snd q \<noteq> [])"

lemma to_capture_ok: "sinks_ok k \<Longrightarrow> p \<noteq> [] \<Longrightarrow> sinks_ok (to_capture st p k)"
  by (auto simp: sinks_ok_def to_capture_def cap_writes_def)

lemma fold_log_line [simp]:
  "sk_pieces (fold (log_line st) ls k) = sk_pieces k"
  "sk_capture (fold (log_line st) ls k) = sk_capture k"
  "sk_file (fold (log_line st) ls k) = sk_file k"
  by (induction ls arbitrary: k) (simp_all add: log_line_def)

lemma log_line_simps [simp]:
  "sk_pieces (log_line st b k) = sk_pieces k" "sk_capture (log_line st b k) = sk_capture k"
  "sk_file (log_line st b k) = sk_file k"
  by (simp_all add: log_line_def)

lemma toFile_simps [simp]:
  "sk_pieces (toFile b k) = sk_pieces k" "sk_capture (toFile b k) = sk_capture k"
  "sk_file (toFile b k) = map_option (\<lambda>ws. ws @ [b]) (sk_file k)"
  by (simp_all add: toFile_def)

lemma lw_write_log_keeps:
  assumes "lw_write_log p (w, k) = (w', k')"
  shows "sk_pieces k' = sk_pieces k" "sk_capture k' = sk_capture k" "sk_file k' = sk_file k"
    "lw_pending w' = lw_pending w" "lw_stream w' = lw_stream w"
  using assms by (auto simp: lw_write_log_def Let_def split: if_splits prod.splits)

text \<open>One write hands at most one piece on, and it never splits a line of at most 8 KB.\<close>

lemma lw_write_elim:
  assumes "lw_write p (w, k) = (w', k')"
  obtains "sk_pieces k' = sk_pieces k" "sk_capture k' = sk_capture k" "sk_file k' = sk_file k"
      "lw_pending w' = lw_pending w @ p" "lw_stream w' = lw_stream w"
  | q where "whole_piece q" "sk_pieces k' = sk_pieces k @ [(lw_stream w, q)]"
      "sk_capture k' = cap_write q (sk_capture k)" "sk_file k' = map_option (\<lambda>ws. ws @ [q]) (sk_file k)"
      "q @ lw_pending w' = lw_pending w @ p" "lw_stream w' = lw_stream w"
proof -
  obtain w1 k1 where c: "lw_write_capture p (w, k) = (w1, k1)" by (cases "lw_write_capture p (w, k)")
  from assms c have l: "lw_write_log p (w1\<lparr>lw_tail := map_option (tail_write p) (lw_tail w1)\<rparr>, k1) = (w', k')"
    by (simp add: lw_write_def)
  note keep = lw_write_log_keeps [OF l]
  show ?thesis
  proof (cases "newline \<in> set (lw_pending w @ p)")
    case True
    with c have 1: "w1 = w\<lparr>lw_pending := after_lines (lw_pending w @ p)\<rparr>"
      "k1 = toFile (whole_lines (lw_pending w @ p)) (to_capture (lw_stream w) (whole_lines (lw_pending w @ p)) k)"
      unfolding lw_write_capture_def Let_def by auto
    show ?thesis
      by (rule that(2) [of "whole_lines (lw_pending w @ p)"])
        (use 1 keep whole_lines_last [OF True] whole_after [of "lw_pending w @ p"] in
          \<open>simp_all add: to_capture_def whole_piece_def\<close>)
  next
    case False
    show ?thesis
    proof (cases "int (length (lw_pending w @ p)) > maxLogLine")
      case True
      with c False have 1: "w1 = w\<lparr>lw_pending := []\<rparr>"
        "k1 = toFile (lw_pending w @ p) (to_capture (lw_stream w) (lw_pending w @ p) k)"
        unfolding lw_write_capture_def Let_def by auto
      from True have "lw_pending w @ p \<noteq> []" by (auto simp: maxLogLine_def)
      with True 1 keep show ?thesis
        by (intro that(2) [of "lw_pending w @ p"]) (simp_all add: to_capture_def whole_piece_def)
    next
      case long: False
      with c False have "w1 = w\<lparr>lw_pending := lw_pending w @ p\<rparr>" "k1 = k"
        unfolding lw_write_capture_def Let_def by auto
      with keep show ?thesis by (intro that(1)) simp_all
    qed
  qed
qed

definition writer_of :: "run_output \<Rightarrow> stream \<Rightarrow> line_writer" where
  "writer_of s x = (case x of Stdout \<Rightarrow> ro_out s | Stderr \<Rightarrow> ro_err s)"

definition output_inv :: "(stream \<times> string) list \<Rightarrow> run_output \<Rightarrow> bool" where
  "output_inv cs s \<longleftrightarrow>
     (\<forall>x. lw_stream (writer_of s x) = x
        \<and> content x (sk_pieces (ro_sinks s)) @ lw_pending (writer_of s x) = content x cs)
     \<and> (\<forall>q \<in> set (sk_pieces (ro_sinks s)). whole_piece (snd q))
     \<and> sk_capture (ro_sinks s) = cap_writes (map snd (sk_pieces (ro_sinks s))) (new_capture maxCapturedOutput)
     \<and> (case sk_file (ro_sinks s) of None \<Rightarrow> True | Some ws \<Rightarrow> ws = map snd (sk_pieces (ro_sinks s)))"

lemma out_write_eq: "out_write (x, p) s =
  (case lw_write p (writer_of s x, ro_sinks s) of (w, k) \<Rightarrow>
     (case x of Stdout \<Rightarrow> s\<lparr>ro_out := w, ro_sinks := k\<rparr> | Stderr \<Rightarrow> s\<lparr>ro_err := w, ro_sinks := k\<rparr>))"
  by (cases x) (simp_all add: writer_of_def)

lemma output_inv_write:
  assumes "output_inv cs s"
  shows "output_inv (cs @ [(x, p)]) (out_write (x, p) s)"
proof -
  obtain w k where e: "lw_write p (writer_of s x, ro_sinks s) = (w, k)"
    by (cases "lw_write p (writer_of s x, ro_sinks s)")
  have w: "writer_of (out_write (x, p) s) y = (if y = x then w else writer_of s y)"
    "ro_sinks (out_write (x, p) s) = k" for y
    using e by (cases x; cases y; simp add: out_write_eq writer_of_def)+
  from assms have s: "lw_stream (writer_of s x) = x" by (simp add: output_inv_def)
  from e show ?thesis
  proof (cases rule: lw_write_elim)
    case 1
    with assms s show ?thesis by (auto simp: output_inv_def w split: option.splits)
  next
    case (2 q)
    with assms s show ?thesis
      by (auto simp: output_inv_def w cap_writes_def split: option.splits)
  qed
qed

lemma output_inv_new: "output_inv [] (new_output emit f)"
  by (auto simp: output_inv_def new_output_def writer_of_def cap_writes_def split: stream.split)

lemma output_inv_fold: "output_inv cs s \<Longrightarrow> output_inv (cs @ ds) (fold out_write ds s)"
proof (induction ds arbitrary: cs s)
  case (Cons d ds)
  obtain x p where "d = (x, p)" by (cases d)
  with Cons.IH [OF output_inv_write [OF Cons.prems, of x p]] show ?case by simp
qed simp

lemma lw_flush_pieces:
  assumes "lw_flush (w, k) = (w', k')"
  shows "sk_pieces k' = sk_pieces k @ (if lw_pending w = [] then [] else [(lw_stream w, lw_pending w)])"
    "sk_capture k' = cap_writes (if lw_pending w = [] then [] else [lw_pending w]) (sk_capture k)"
    "sk_file k' = map_option (\<lambda>ws. ws @ (if lw_pending w = [] then [] else [lw_pending w @ [newline]])) (sk_file k)"
  using assms by (auto simp: lw_flush_def Let_def to_capture_def cap_writes_def option.map_ident split: if_splits)

lemma run_streams_sinks:
  fixes chunks emit f
  defines "b \<equiv> fold out_write chunks (new_output emit f)"
  defines "p \<equiv> (if lw_pending (ro_out b) = [] then [] else [(Stdout, lw_pending (ro_out b))])"
  defines "q \<equiv> (if lw_pending (ro_err b) = [] then [] else [(Stderr, lw_pending (ro_err b))])"
  shows "output_inv chunks b"
    and "sk_pieces (ro_sinks (run_streams emit f chunks)) = sk_pieces (ro_sinks b) @ p @ q"
    and "sk_capture (ro_sinks (run_streams emit f chunks)) =
      cap_writes (map snd (sk_pieces (ro_sinks (run_streams emit f chunks)))) (new_capture maxCapturedOutput)"
proof -
  show inv: "output_inv chunks b"
    using output_inv_fold [OF output_inv_new, of chunks emit f] by (simp add: b_def)
  then have st: "lw_stream (ro_out b) = Stdout" "lw_stream (ro_err b) = Stderr"
    and cap: "sk_capture (ro_sinks b) = cap_writes (map snd (sk_pieces (ro_sinks b))) (new_capture maxCapturedOutput)"
    unfolding output_inv_def by (metis stream.simps writer_of_def)+
  obtain w k where 1: "lw_flush (ro_out b, ro_sinks b) = (w, k)" by (cases "lw_flush (ro_out b, ro_sinks b)")
  obtain w' k' where 2: "lw_flush (ro_err b, k) = (w', k')" by (cases "lw_flush (ro_err b, k)")
  have r: "ro_sinks (run_streams emit f chunks) = k'"
    using 1 2 by (simp add: run_streams_def out_flush_def b_def)
  show "sk_pieces (ro_sinks (run_streams emit f chunks)) = sk_pieces (ro_sinks b) @ p @ q"
    using lw_flush_pieces(1) [OF 1] lw_flush_pieces(1) [OF 2] st by (simp add: r p_def q_def)
  show "sk_capture (ro_sinks (run_streams emit f chunks)) =
      cap_writes (map snd (sk_pieces (ro_sinks (run_streams emit f chunks)))) (new_capture maxCapturedOutput)"
    using lw_flush_pieces(1,2) [OF 1] lw_flush_pieces(1,2) [OF 2] cap by (simp add: r cap_writes_def)
qed

text \<open>
  C33: The output of a run, however the command's two streams are cut into writes: nothing of a
  stream is lost, repeated or reordered on its way to the capture; while the command runs, only
  whole lines (or pieces longer than 8 KB) are handed on, so that a line of one stream never splits
  a line of the other; and the stored output is the first 64 KB, marked as truncated exactly when
  there was more.
\<close>

theorem captured_output:
  "(\<forall>x. content x (sk_pieces (ro_sinks (run_streams emit f chunks))) = content x chunks)
   \<and> list_all whole_piece (map snd (sk_pieces (ro_sinks (fold out_write chunks (new_output emit f)))))
   \<and> cb_buf (sk_capture (ro_sinks (run_streams emit f chunks))) =
       take 65536 (concat (map snd (sk_pieces (ro_sinks (run_streams emit f chunks)))))
   \<and> (cb_truncated (sk_capture (ro_sinks (run_streams emit f chunks))) \<longleftrightarrow>
       length (content Stdout chunks) + length (content Stderr chunks) > 65536)"
proof -
  let ?k = "ro_sinks (run_streams emit f chunks)"
  note r = run_streams_sinks [where emit = emit and f = f and chunks = chunks]
  have c: "content x (sk_pieces ?k) = content x chunks" for x
    using r(1) unfolding r(2) output_inv_def
    by (cases x) (auto simp: writer_of_def dest!: spec [of _ x] split: if_splits)
  have "(\<forall>q \<in> set (sk_pieces (ro_sinks (fold out_write chunks (new_output emit f)))). whole_piece (snd q))"
    using r(1) by (simp add: output_inv_def)
  then have whole: "list_all whole_piece (map snd (sk_pieces (ro_sinks (fold out_write chunks (new_output emit f)))))"
    by (simp add: list_all_iff)
  have ne: "\<forall>p \<in> set (map snd (sk_pieces ?k)). p \<noteq> []"
    using r(1) unfolding r(2) output_inv_def whole_piece_def by (auto split: if_splits)
  have len: "length (concat (map snd ps)) = length (content Stdout ps) + length (content Stderr ps)" for ps
  proof (induction ps)
    case (Cons a ps)
    then show ?case by (cases a; cases "fst a") auto
  qed simp
  have "cb_buf (sk_capture ?k) = take 65536 (concat (map snd (sk_pieces ?k)))"
    and "cb_truncated (sk_capture ?k) \<longleftrightarrow> length (concat (map snd (sk_pieces ?k))) > 65536"
    using cap_writes_spec [OF ne, of maxCapturedOutput] unfolding r(3) [symmetric]
    by (simp_all add: maxCapturedOutput_def)
  with c whole show ?thesis by (simp add: len)
qed

end
