(* ===== verification/Mask.thy ===== *)
theory Mask
  imports GoBase
begin

text \<open>
  The masking of secrets in logged text (\<^verbatim>\<open>internal/logging/mask.go\<close>): the five patterns, and as much of
  the package \<open>regexp\<close> as they use. A regular expression returns the positions after its matches in the
  order of preference that Go gives them; the text is replaced from left to right where the first match is.
  Under \<open>(?i)\<close> the letters s and k also match the long s and the Kelvin sign.
\<close>

section \<open>Regular expressions\<close>

text \<open>A position: the byte before it and the text after it. An item says how many bytes it takes, 0 for none.\<close>

type_synonym rx_place = "char option \<times> string"
type_synonym rx_item = "string \<Rightarrow> nat"

datatype regex = Rx_empty | Rx_boundary | Rx_item rx_item | Rx_many rx_item | Rx_cat regex regex | Rx_or regex regex

definition rx_advance :: "nat \<Rightarrow> rx_place \<Rightarrow> rx_place" where
  "rx_advance n x = (if n = 0 then x else (Some (snd x ! (n - 1)), drop n (snd x)))"

function rx_many :: "rx_item \<Rightarrow> rx_place \<Rightarrow> rx_place list" where
  "rx_many p x = (if p (snd x) = 0 \<or> snd x = [] then [x] else rx_many p (rx_advance (p (snd x)) x) @ [x])"
  by auto
termination
  by (relation "measure (\<lambda>(p, x). length (snd x))") (auto simp: rx_advance_def)

declare rx_many.simps [simp del]

definition rx_range :: "nat \<Rightarrow> nat \<Rightarrow> char \<Rightarrow> bool" where
  "rx_range a b c \<longleftrightarrow> a \<le> (of_char c :: nat) \<and> (of_char c :: nat) \<le> b"

definition rx_alnum :: "char \<Rightarrow> bool" where
  "rx_alnum c \<longleftrightarrow> rx_range 48 57 c \<or> rx_range 65 90 c \<or> rx_range 97 122 c"

definition rx_word_char :: "char \<Rightarrow> bool" where
  "rx_word_char c \<longleftrightarrow> rx_alnum c \<or> c = CHR ''_''"

definition rx_at_boundary :: "rx_place \<Rightarrow> bool" where
  "rx_at_boundary x \<longleftrightarrow>
     (case fst x of None \<Rightarrow> False | Some c \<Rightarrow> rx_word_char c) \<noteq> (case snd x of [] \<Rightarrow> False | c # t \<Rightarrow> rx_word_char c)"

fun rx_matches :: "regex \<Rightarrow> rx_place \<Rightarrow> rx_place list" where
  "rx_matches Rx_empty x = [x]"
| "rx_matches Rx_boundary x = (if rx_at_boundary x then [x] else [])"
| "rx_matches (Rx_item p) x = (if p (snd x) = 0 then [] else [rx_advance (p (snd x)) x])"
| "rx_matches (Rx_many p) x = rx_many p x"
| "rx_matches (Rx_cat a b) x = concat (map (rx_matches b) (rx_matches a x))"
| "rx_matches (Rx_or a b) x = rx_matches a x @ rx_matches b x"

definition rx_byte :: "(char \<Rightarrow> bool) \<Rightarrow> rx_item" where
  "rx_byte P s = (case s of [] \<Rightarrow> 0 | c # t \<Rightarrow> if P c then 1 else 0)"

definition rx_letter :: "char \<Rightarrow> rx_item" where
  "rx_letter l s =
     (if HasPrefix s [l] \<or> HasPrefix s [to_upper_char l] then 1
      else if l = CHR ''s'' \<and> HasPrefix s [CHR 0xC5, CHR 0xBF] then 2
      else if l = CHR ''k'' \<and> HasPrefix s [CHR 0xE2, CHR 0x84, CHR 0xAA] then 3
      else 0)"

definition rx_seq :: "regex list \<Rightarrow> regex" where
  "rx_seq rs = foldr Rx_cat rs Rx_empty"

fun rx_one_of :: "regex list \<Rightarrow> regex" where
  "rx_one_of [] = Rx_item (\<lambda>s. 0)"
| "rx_one_of [r] = r"
| "rx_one_of (r # rs) = Rx_or r (rx_one_of rs)"

definition rx_word :: "string \<Rightarrow> regex" where
  "rx_word w = rx_seq (map (\<lambda>c. Rx_item (rx_letter c)) w)"

definition rx_opt :: "regex \<Rightarrow> regex" where
  "rx_opt r = Rx_or r Rx_empty"

definition rx_some :: "rx_item \<Rightarrow> regex" where
  "rx_some p = Rx_cat (Rx_item p) (Rx_many p)"

section \<open>The patterns\<close>

definition rx_space :: "char \<Rightarrow> bool" where
  "rx_space c \<longleftrightarrow> c \<in> {CHR '' '', CHR 0x09, CHR 0x0A, CHR 0x0C, CHR 0x0D}"

definition rx_spaces :: regex where "rx_spaces = Rx_many (rx_byte rx_space)"
definition rx_quote :: regex where
  "rx_quote = Rx_item (rx_byte (\<lambda>c. c = CHR 0x22 \<or> c = CHR 0x27))"
definition rx_assigns :: regex where "rx_assigns = Rx_item (rx_byte (\<lambda>c. c = CHR '':'' \<or> c = CHR ''=''))"

text \<open>A pattern: what it keeps (its group 1), what it replaces, and the text after the mask.\<close>

record secret_pattern =
  pt_kept :: "regex list"
  pt_secret :: regex
  pt_after :: string

definition Masked :: string where "Masked = ''***masked***''"

definition authorization_pattern :: secret_pattern where
  "authorization_pattern =
     \<lparr>pt_kept = [rx_word ''authorization'', rx_opt rx_quote, rx_spaces, rx_assigns, rx_spaces,
        rx_opt (rx_one_of (map (\<lambda>w. Rx_cat (rx_word w) (rx_some (rx_byte rx_space))) [''bearer'', ''basic'', ''token'']))],
      pt_secret = rx_some (rx_byte (\<lambda>c. \<not> rx_space c \<and> c \<notin> {CHR 0x22, CHR 0x27, CHR '','', CHR '';''})),
      pt_after = []\<rparr>"

definition rx_token :: rx_item where
  "rx_token s =
     (if rx_byte (\<lambda>c. rx_alnum c \<or> c \<in> set ''._~+/=-'') s = 0 then rx_letter CHR ''s'' s + rx_letter CHR ''k'' s else 1)"

definition bearer_pattern :: secret_pattern where
  "bearer_pattern =
     \<lparr>pt_kept = [Rx_boundary, rx_word ''bearer'', rx_some (rx_byte rx_space)], pt_secret = rx_some rx_token, pt_after = []\<rparr>"

definition rx_joined :: "string \<Rightarrow> string \<Rightarrow> string \<Rightarrow> regex" where
  "rx_joined a seps b = rx_seq [rx_word a, rx_opt (Rx_item (rx_byte (\<lambda>c. c \<in> set seps))), rx_word b]"

definition assignment_pattern :: secret_pattern where
  "assignment_pattern =
     \<lparr>pt_kept = [rx_one_of [rx_word ''password'', rx_word ''passwd'', rx_word ''pwd'', rx_word ''token'', rx_word ''secret'',
          rx_joined ''api'' ''_-'' ''key'', rx_joined ''access'' ''_-'' ''key'', rx_joined ''client'' ''_-'' ''secret''],
        rx_opt rx_quote, rx_spaces, rx_assigns, rx_spaces, rx_opt rx_quote],
      pt_secret = rx_some (rx_byte (\<lambda>c. \<not> rx_space c \<and> c \<notin> {CHR 0x22, CHR 0x27, CHR ''&'', CHR '','', CHR '';''})),
      pt_after = []\<rparr>"

definition rx_dash :: regex where "rx_dash = Rx_item (rx_byte (\<lambda>c. c = CHR ''-''))"

definition option_pattern :: secret_pattern where
  "option_pattern =
     \<lparr>pt_kept = [rx_dash, rx_opt rx_dash,
        rx_one_of [rx_word ''password'', rx_word ''passwd'', rx_word ''token'', rx_word ''secret'', rx_joined ''api'' ''-'' ''key''],
        rx_some (rx_byte rx_space)],
      pt_secret = Rx_cat (Rx_item (rx_byte (\<lambda>c. \<not> rx_space c \<and> c \<noteq> CHR ''-''))) (Rx_many (rx_byte (\<lambda>c. \<not> rx_space c))),
      pt_after = []\<rparr>"

definition url_pattern :: secret_pattern where
  "url_pattern =
     \<lparr>pt_kept = [Rx_item (rx_byte (\<lambda>c. c = CHR '':'')), Rx_item (rx_byte (\<lambda>c. c = CHR ''/'')), Rx_item (rx_byte (\<lambda>c. c = CHR ''/'')),
        rx_some (rx_byte (\<lambda>c. \<not> rx_space c \<and> c \<notin> {CHR ''/'', CHR '':'', CHR ''@''})), Rx_item (rx_byte (\<lambda>c. c = CHR '':''))],
      pt_secret = Rx_cat (rx_some (rx_byte (\<lambda>c. \<not> rx_space c \<and> c \<notin> {CHR ''/'', CHR ''@''}))) (Rx_item (rx_byte (\<lambda>c. c = CHR ''@''))),
      pt_after = ''@''\<rparr>"

definition secretPatterns :: "secret_pattern list" where
  "secretPatterns = [authorization_pattern, bearer_pattern, assignment_pattern, option_pattern, url_pattern]"

text \<open>The match at a position: the end of what is kept, and the end of the match.\<close>

definition rx_match_at :: "secret_pattern \<Rightarrow> rx_place \<Rightarrow> (rx_place \<times> rx_place) option" where
  "rx_match_at p x =
     (case concat (map (\<lambda>k. map (Pair k) (rx_matches (pt_secret p) k)) (rx_matches (rx_seq (pt_kept p)) x)) of
        [] \<Rightarrow> None | y # ys \<Rightarrow> Some y)"

text \<open>\<open>ReplaceAllString\<close>. No match of the patterns is empty, so the last condition always holds.\<close>

function rx_replace :: "secret_pattern \<Rightarrow> rx_place \<Rightarrow> string" where
  "rx_replace p x =
     (case snd x of
        [] \<Rightarrow> []
      | c # t \<Rightarrow>
          (case rx_match_at p x of
             None \<Rightarrow> c # rx_replace p (Some c, t)
           | Some (k, e) \<Rightarrow>
               if length (snd e) < length (snd x)
               then take (length (snd x) - length (snd k)) (snd x) @ Masked @ pt_after p @ rx_replace p e
               else c # rx_replace p (Some c, t)))"
  by auto
termination
  by (relation "measure (\<lambda>(p, x). length (snd x))") auto

declare rx_replace.simps [simp del]

definition Mask :: "string \<Rightarrow> string" where
  "Mask s = fold (\<lambda>p s. rx_replace p (None, s)) secretPatterns s"

section \<open>Matches\<close>

lemma rx_byte_simps [simp]:
  "rx_byte P [] = 0" "rx_byte P (c # s) = (if P c then 1 else 0)"
  by (simp_all add: rx_byte_def)

lemma rx_seq_simps [simp]: "rx_seq [] = Rx_empty" "rx_seq (r # rs) = Rx_cat r (rx_seq rs)"
  by (simp_all add: rx_seq_def)

lemma rx_advance_simps [simp]: "rx_advance 0 x = x" "snd (rx_advance n x) = drop n (snd x)"
  by (simp_all add: rx_advance_def)

lemma rx_many_suffix: "y \<in> set (rx_many p x) \<Longrightarrow> \<exists>n. snd y = drop n (snd x)"
proof (induction p x rule: rx_many.induct)
  case (1 p x)
  show ?case
  proof (cases "y = x")
    case True
    then show ?thesis by (auto intro: exI [of _ 0])
  next
    case False
    with "1.prems" have "\<not> (p (snd x) = 0 \<or> snd x = [])" "y \<in> set (rx_many p (rx_advance (p (snd x)) x))"
      by (auto simp: rx_many.simps [of p x] split: if_splits)
    from "1.IH" [OF this] show ?thesis by auto
  qed
qed

lemma rx_matches_suffix: "y \<in> set (rx_matches r x) \<Longrightarrow> \<exists>n. snd y = drop n (snd x)"
proof (induction r arbitrary: x y)
  case (Rx_cat a b)
  then obtain z where z: "z \<in> set (rx_matches a x)" "y \<in> set (rx_matches b z)" by auto
  from Rx_cat.IH(1) [OF z(1)] Rx_cat.IH(2) [OF z(2)] show ?case by (auto simp: add.commute)
next
  case (Rx_or a b)
  from Rx_or.prems Rx_or.IH [of y x] show ?case by auto
next
  case (Rx_many p)
  then show ?case using rx_many_suffix by simp
qed (auto split: if_splits intro: exI [of _ 0])

text \<open>A pattern that needs an item finds nothing in a text where the item is nowhere.\<close>

definition rx_absent :: "rx_item \<Rightarrow> string \<Rightarrow> bool" where
  "rx_absent p s \<longleftrightarrow> (\<forall>n. p (drop n s) = 0)"

lemma rx_absent_byte: "rx_absent (rx_byte P) s \<longleftrightarrow> list_all (\<lambda>c. \<not> P c) s"
proof
  assume "rx_absent (rx_byte P) s"
  then have "\<not> P (s ! n)" if "n < length s" for n
    using that by (auto simp: rx_absent_def Cons_nth_drop_Suc [symmetric] split: if_splits dest!: spec [of _ n])
  then show "list_all (\<lambda>c. \<not> P c) s" by (simp add: list_all_length)
next
  assume *: "list_all (\<lambda>c. \<not> P c) s"
  have "rx_byte P (drop n s) = 0" for n
  proof (cases "n < length s")
    case True
    with * show ?thesis by (simp add: Cons_nth_drop_Suc [symmetric] list_all_length)
  qed simp
  then show "rx_absent (rx_byte P) s" by (simp add: rx_absent_def)
qed

lemma rx_absent_drop: "rx_absent p s \<Longrightarrow> rx_absent p (drop n s)"
  by (simp add: rx_absent_def)

definition rx_needs :: "rx_item \<Rightarrow> regex \<Rightarrow> bool" where
  "rx_needs p r \<longleftrightarrow> r = Rx_item p \<or> r = rx_some p"

lemma needed_missing: "rx_needs p r \<Longrightarrow> rx_absent p (snd x) \<Longrightarrow> rx_matches r x = []"
  using spec [of "\<lambda>n. p (drop n (snd x)) = 0" 0] by (auto simp: rx_needs_def rx_some_def rx_absent_def)

lemma rx_seq_missing:
  assumes "list_ex (rx_needs p) rs" and "rx_absent p (snd x)"
  shows "rx_matches (rx_seq rs) x = []"
  using assms
proof (induction rs arbitrary: x)
  case (Cons r rs)
  show ?case
  proof (cases "rx_needs p r")
    case True
    with Cons.prems show ?thesis by (simp add: needed_missing)
  next
    case False
    have "rx_matches (rx_seq rs) y = []" if y: "y \<in> set (rx_matches r x)" for y
    proof -
      from rx_matches_suffix [OF y] Cons.prems(2) rx_absent_drop have "rx_absent p (snd y)" by auto
      with Cons False show ?thesis by auto
    qed
    then show ?thesis by simp
  qed
qed simp

lemma rx_replace_missing:
  assumes "list_ex (rx_needs q) (pt_kept p)" and "rx_absent q s"
  shows "rx_replace p (b, s) = s"
  using assms(2)
proof (induction s arbitrary: b)
  case (Cons c s)
  have "rx_match_at p (b, c # s) = None"
    using rx_seq_missing [OF assms(1), of "(b, c # s)"] Cons.prems by (simp add: rx_match_at_def)
  moreover have "rx_absent q s" using rx_absent_drop [OF Cons.prems, of 1] by simp
  ultimately show ?case by (subst rx_replace.simps) (simp add: Cons.IH)
qed (simp add: rx_replace.simps)

lemma rx_replace_Nil [simp]: "rx_replace p (b, []) = []"
  by (simp add: rx_replace.simps)

lemma rx_replace_skip: "rx_match_at p (b, c # s) = None \<Longrightarrow> rx_replace p (b, c # s) = c # rx_replace p (Some c, s)"
  by (simp add: rx_replace.simps [of p "(b, c # s)"])

end
