(* ===== verification/Runner.thy ===== *)
theory Runner
  imports Events Output Mask
begin

text \<open>
  One run of a command (\<^verbatim>\<open>internal/runner/runner.go\<close>, \<^verbatim>\<open>lookpath*.go\<close>,
  \<^verbatim>\<open>proc_*.go\<close>): the environment and the command line that it gets, the lookup of its
  program, how it is asked to stop, the classification of its outcome with the counters and the
  completion line, and the output files that runs share.

  The operating system is a parameter: \<open>platform\<close> holds the calls that only read it, and
  \<open>child\<close> is what the started process did until \<open>Wait\<close> returned.
\<close>

unbundle bit_operations_syntax

section \<open>Specifications and counters\<close>

abbreviation PolicySkip :: string where "PolicySkip \<equiv> ''skip''"
abbreviation PolicyQueue :: string where "PolicyQueue \<equiv> ''queue''"
abbreviation PolicyParallel :: string where "PolicyParallel \<equiv> ''parallel''"
abbreviation PolicyReplace :: string where "PolicyReplace \<equiv> ''replace''"
abbreviation StdinNone :: string where "StdinNone \<equiv> ''none''"
abbreviation StdinPayload :: string where "StdinPayload \<equiv> ''payload''"
abbreviation RestartNever :: string where "RestartNever \<equiv> ''never''"
abbreviation RestartOnFailure :: string where "RestartOnFailure \<equiv> ''on-failure''"
abbreviation RestartAlways :: string where "RestartAlways \<equiv> ''always''"
abbreviation InterruptAbandon :: string where "InterruptAbandon \<equiv> ''abandon''"
abbreviation InterruptRerun :: string where "InterruptRerun \<equiv> ''rerun''"

definition killGrace :: duration where "killGrace = 10 * second"

record output_spec =
  os_path :: string
  os_max_bytes :: int
  os_max_backups :: int

record after_trigger =
  at_event :: string
  at_statuses :: "string list"

record spec =
  sp_name :: string
  sp_command :: "string list"
  sp_shell :: string
  sp_workdir :: string
  sp_env :: strmap
  sp_base_env :: strmap
  sp_timeout :: duration
  sp_stop_command :: "string list"
  sp_stop_shell :: string
  sp_stop_timeout :: duration
  sp_concurrency :: string
  sp_restart :: string
  sp_restart_delay :: duration
  sp_restart_max_delay :: duration
  sp_on_interrupt :: string
  sp_max_attempts :: int
  sp_stdin :: string
  sp_log_output :: bool
  sp_output :: "output_spec option"
  sp_defaults :: strmap
  sp_after :: "after_trigger list"

text \<open>The zero value of the struct, and so of a lookup of an event that is not configured.\<close>

definition zero_spec :: spec where
  "zero_spec = \<lparr>sp_name = [], sp_command = [], sp_shell = [], sp_workdir = [], sp_env = [],
     sp_base_env = [], sp_timeout = 0, sp_stop_command = [], sp_stop_shell = [],
     sp_stop_timeout = 0, sp_concurrency = [], sp_restart = [], sp_restart_delay = 0,
     sp_restart_max_delay = 0, sp_on_interrupt = [], sp_max_attempts = 0, sp_stdin = [],
     sp_log_output = False, sp_output = None, sp_defaults = [], sp_after = []\<rparr>"

record stats =
  st_processed :: int
  st_succeeded :: int
  st_failed :: int
  st_canceled :: int
  st_interrupted :: int
  st_skipped :: int
  st_dropped :: int

definition zero_stats :: stats where
  "zero_stats = \<lparr>st_processed = 0, st_succeeded = 0, st_failed = 0, st_canceled = 0,
     st_interrupted = 0, st_skipped = 0, st_dropped = 0\<rparr>"

datatype counter = Count_succeeded | Count_failed | Count_canceled | Count_interrupted

fun count_run :: "counter \<Rightarrow> stats \<Rightarrow> stats" where
  "count_run Count_succeeded s = s\<lparr>st_succeeded := st_succeeded s + 1, st_processed := st_processed s + 1\<rparr>"
| "count_run Count_failed s = s\<lparr>st_failed := st_failed s + 1, st_processed := st_processed s + 1\<rparr>"
| "count_run Count_canceled s = s\<lparr>st_canceled := st_canceled s + 1, st_processed := st_processed s + 1\<rparr>"
| "count_run Count_interrupted s = s\<lparr>st_interrupted := st_interrupted s + 1, st_processed := st_processed s + 1\<rparr>"

section \<open>The environment of a command\<close>

record platform =
  pf_windows :: bool
  pf_environ :: "string list"
  pf_getenv :: "string \<Rightarrow> string"
  pf_list_sep :: char
  pf_split_list :: "string \<Rightarrow> string list"
  pf_is_abs :: "string \<Rightarrow> bool"
  pf_join :: "string \<Rightarrow> string \<Rightarrow> string"
  pf_is_path_sep :: "char \<Rightarrow> bool"
  pf_stat :: "string \<Rightarrow> (bool \<times> int) option"

text \<open>\<open>os.Expand\<close>: the name after a dollar sign, and how many bytes it takes.\<close>

definition is_digit :: "char \<Rightarrow> bool" where
  "is_digit c \<longleftrightarrow> (let n = of_char c :: nat in 48 \<le> n \<and> n \<le> 57)"

definition is_letter :: "char \<Rightarrow> bool" where
  "is_letter c \<longleftrightarrow> (let n = of_char c :: nat in (65 \<le> n \<and> n \<le> 90) \<or> (97 \<le> n \<and> n \<le> 122))"

definition is_shell_special :: "char \<Rightarrow> bool" where
  "is_shell_special c \<longleftrightarrow> c \<in> set ''*#$@!?-'' \<or> is_digit c"

definition is_alphanum :: "char \<Rightarrow> bool" where
  "is_alphanum c \<longleftrightarrow> c = CHR ''_'' \<or> is_digit c \<or> is_letter c"

fun getShellName :: "string \<Rightarrow> string \<times> nat" where
  "getShellName [] = ([], 0)"
| "getShellName (c # s) =
     (if c = CHR 0x7B then
        (case s of
           a # b # s' \<Rightarrow>
             (if is_shell_special a \<and> b = CHR 0x7D then ([a], 3)
              else (case Cut s (CHR 0x7D) of (name, r, found) \<Rightarrow>
                     if \<not> found then ([], 1) else if name = [] then ([], 2) else (name, length name + 2)))
         | _ \<Rightarrow>
             (case Cut s (CHR 0x7D) of (name, r, found) \<Rightarrow>
               if \<not> found then ([], 1) else if name = [] then ([], 2) else (name, length name + 2)))
      else if is_shell_special c then ([c], 1)
      else (let name = takeWhile is_alphanum (c # s) in (name, length name)))"

function Expand :: "(string \<Rightarrow> string) \<Rightarrow> string \<Rightarrow> string" where
  "Expand m [] = []"
| "Expand m [c] = [c]"
| "Expand m (c # d # s) =
     (if c = CHR ''$'' then
        (case getShellName (d # s) of (name, w) \<Rightarrow>
          (if name = [] \<and> w > 0 then [] else if name = [] then [c] else m name)
            @ Expand m (drop w (d # s)))
      else c # Expand m (d # s))"
  by pat_completeness auto
termination
  by (relation "measure (\<lambda>(m, s). length s)") auto

definition envKey :: "platform \<Rightarrow> string \<Rightarrow> string" where
  "envKey pf k = (if pf_windows pf then ToUpper k else k)"

text \<open>One layer: all its values are expanded with what the layers below set, then they are set.\<close>

definition env_lookup :: "platform \<Rightarrow> strmap \<Rightarrow> string \<Rightarrow> string" where
  "env_lookup pf layers k =
     (case map_of layers (envKey pf k) of Some v \<Rightarrow> v | None \<Rightarrow> pf_getenv pf k)"

definition add_layer :: "platform \<Rightarrow> strmap \<Rightarrow> string list \<times> strmap \<Rightarrow> string list \<times> strmap" where
  "add_layer pf layer es =
     (case es of (env, layers) \<Rightarrow>
       (let keys = sorted_keys layer;
            values = map (\<lambda>k. Expand (env_lookup pf layers) (value_of layer k)) keys
        in (env @ map2 kv keys values,
            fold (\<lambda>(k, v) acc. AList.update (envKey pf k) v acc) (zip keys values) layers)))"

definition buildEnv :: "platform \<Rightarrow> spec \<Rightarrow> event \<Rightarrow> string \<Rightarrow> string list" where
  "buildEnv pf sp ev eventFile =
     fst (add_layer pf (sp_env sp) (add_layer pf (sp_base_env sp) (pf_environ pf, [])))
     @ Env (pf_list_sep pf) ev @ [kv ''KICKD_PAYLOAD_FILE'' eventFile]"

section \<open>Looking a program up\<close>

definition EqualFold :: "string \<Rightarrow> string \<Rightarrow> bool" where
  "EqualFold a b \<longleftrightarrow> ToLower a = ToLower b"

definition envValue :: "platform \<Rightarrow> string list \<Rightarrow> string \<Rightarrow> string" where
  "envValue pf env key =
     foldl (\<lambda>value e. case Cut e (CHR ''='') of (k, v, ok) \<Rightarrow>
        if ok \<and> (k = key \<or> pf_windows pf \<and> EqualFold k key) then v else value) [] env"

definition findExecutable_unix :: "platform \<Rightarrow> string \<Rightarrow> string option" where
  "findExecutable_unix pf path =
     (case pf_stat pf path of
        None \<Rightarrow> None
      | Some (is_dir, mode) \<Rightarrow> if is_dir \<or> mode AND 73 = 0 then None else Some path)"

definition isFile :: "platform \<Rightarrow> string \<Rightarrow> bool" where
  "isFile pf path = (case pf_stat pf path of None \<Rightarrow> False | Some (is_dir, mode) \<Rightarrow> \<not> is_dir)"

text \<open>\<open>filepath.Ext\<close>: the part of the last element from its last dot on.\<close>

definition Ext :: "platform \<Rightarrow> string \<Rightarrow> string" where
  "Ext pf path =
     (case Cut (takeWhile (\<lambda>c. \<not> pf_is_path_sep pf c) (rev path)) (CHR ''.'') of
        (a, b, found) \<Rightarrow> if found then CHR ''.'' # rev a else [])"

definition findExecutable_windows :: "platform \<Rightarrow> string \<Rightarrow> string list \<Rightarrow> string option" where
  "findExecutable_windows pf path env =
     (let v = envValue pf env ''PATHEXT'';
          exts = (if v \<noteq> [] then filter (\<lambda>e. e \<noteq> []) (Split (ToLower v) (CHR '';''))
                  else [''.com'', ''.exe'', ''.bat'', ''.cmd''])
      in if Ext pf path \<noteq> [] \<and> isFile pf path then Some path
         else map_option (\<lambda>e. path @ e) (find (\<lambda>e. isFile pf (path @ e)) exts))"

definition findExecutable :: "platform \<Rightarrow> string \<Rightarrow> string list \<Rightarrow> string option" where
  "findExecutable pf path env =
     (if pf_windows pf then findExecutable_windows pf path env else findExecutable_unix pf path)"

fun lookPath_in :: "platform \<Rightarrow> string list \<Rightarrow> string \<Rightarrow> string list \<Rightarrow> string option" where
  "lookPath_in pf [] name env = None"
| "lookPath_in pf (dir # dirs) name env =
     (if \<not> pf_is_abs pf dir then lookPath_in pf dirs name env
      else (case findExecutable pf (pf_join pf dir name) env of
              Some p \<Rightarrow> Some p | None \<Rightarrow> lookPath_in pf dirs name env))"

definition lookPath :: "platform \<Rightarrow> string \<Rightarrow> string list \<Rightarrow> string option" where
  "lookPath pf name env = lookPath_in pf (pf_split_list pf (envValue pf env ''PATH'')) name env"

section \<open>Building the command\<close>

text \<open>
  \<open>ShellCommand\<close> is run by the shell of the platform; \<open>ProgramAt path argv\<close> is an executable
  with its arguments. A program that is not found makes \<open>Start\<close> fail; indexing an empty
  command list panics.
\<close>

datatype program = ShellCommand string | ProgramAt string "string list"

datatype built = Built program | ProgramNotFound string | IndexPanic

definition shellCommand_argv :: "platform \<Rightarrow> string \<Rightarrow> string list" where
  "shellCommand_argv pf script =
     (if pf_windows pf then [''cmd /S /C '' @ [CHR 0x22] @ script @ [CHR 0x22]]
      else [''/bin/sh'', ''-c'', script])"

definition buildCommand :: "platform \<Rightarrow> spec \<Rightarrow> string list \<Rightarrow> built" where
  "buildCommand pf sp env =
     (if sp_shell sp \<noteq> [] then Built (ShellCommand (sp_shell sp))
      else (case sp_command sp of
              [] \<Rightarrow> IndexPanic
            | name # args \<Rightarrow>
                (if CHR ''/'' \<in> set name \<or> CHR 0x5C \<in> set name then Built (ProgramAt name (name # args))
                 else (case lookPath pf name env of
                         None \<Rightarrow> ProgramNotFound name | Some p \<Rightarrow> Built (ProgramAt p (name # args))))))"

definition displayCommand :: "spec \<Rightarrow> string" where
  "displayCommand sp =
     (let s = (if sp_shell sp = [] then Join (sp_command sp) '' '' else sp_shell sp)
      in if length s > 500 then take 500 s @ ''...'' else s)"

section \<open>Stopping a command\<close>

fun stopReason :: "cause option \<Rightarrow> string" where
  "stopReason (Some DeadlineExceeded) = ''timeout''"
| "stopReason (Some ErrCanceledByUser) = ''canceled''"
| "stopReason (Some ErrReplaced) = ''replaced''"
| "stopReason _ = ''shutdown''"

record launched =
  la_program :: built
  la_dir :: string
  la_env :: "string list"
  la_stdin :: "payload option"
  la_wait_delay :: duration

datatype stop_step = RunStopCommand launched duration | Terminate

definition stop_command_spec :: "spec \<Rightarrow> spec" where
  "stop_command_spec sp = zero_spec\<lparr>sp_command := sp_stop_command sp, sp_shell := sp_stop_shell sp\<rparr>"

text \<open>The steps of \<open>cmd.Cancel\<close>; the stop command gets at most \<open>grace\<close>.\<close>

definition stop :: "platform \<Rightarrow> spec \<Rightarrow> string list \<Rightarrow> duration \<Rightarrow> cause option \<Rightarrow> stop_step list" where
  "stop pf sp env grace ctx =
     (let env' = env @ [kv ''KICKD_STOP_REASON'' (stopReason ctx)] in
      (if sp_stop_shell sp \<noteq> [] \<or> sp_stop_command sp \<noteq> []
       then [RunStopCommand \<lparr>la_program = buildCommand pf (stop_command_spec sp) env',
               la_dir = sp_workdir sp, la_env = env', la_stdin = None, la_wait_delay = second\<rparr> grace]
       else []) @ [Terminate])"

section \<open>Executing a run\<close>

datatype attr = Attr_str string | Attr_int int

datatype level = Level_debug | Level_info | Level_warn | Level_error

record log_entry =
  le_level :: level
  le_msg :: string
  le_attrs :: "(string \<times> attr) list"

text \<open>
  Of the keys of an error, a log entry here has its message only. \<open>eventAttrs\<close> describes the firing
  on the line that is written before the command starts.
\<close>

definition eventAttrs :: "event \<Rightarrow> (string \<times> attr) list" where
  "eventAttrs ev =
     (if ev_attempt ev > 1 then [(''attempt'', Attr_int (ev_attempt ev))] else [])
     @ (if ev_files ev \<noteq> [] then [(''count'', Attr_int (int (length (ev_files ev)))),
           (''file'', Attr_str (fc_path (last (ev_files ev))))]
        else (case ev_webhook ev of
            Some w \<Rightarrow> [(''method'', Attr_str (wh_method w))]
          | None \<Rightarrow> if ev_source ev \<noteq> [] then [(''source'', Attr_str (ev_source ev))] else []))"

definition run_started :: "event \<Rightarrow> log_entry" where
  "run_started ev = \<lparr>le_level = Level_info, le_msg = ''Run started'',
     le_attrs = (''triggerId'', Attr_str (ev_trigger_id ev)) # eventAttrs ev\<rparr>"

text \<open>
  What became of the process: \<open>ch_ctx\<close> is the context of the run when \<open>Wait\<close> has returned (or
  when the start has failed), and \<open>ch_file_open\<close> tells whether the output file could be opened.
\<close>

record child =
  ch_file_open :: bool
  ch_start_error :: "string option"
  ch_writes :: "(stream \<times> string) list"
  ch_wait_error :: "string option"
  ch_ctx :: "cause option"
  ch_exit_code :: int
  ch_signal :: string

text \<open>The outcome of a process that ran: error, reason, message, level and counter.\<close>

definition classify :: "cause option \<Rightarrow> bool \<Rightarrow> int \<Rightarrow> string \<times> string \<times> string \<times> level \<times> counter" where
  "classify ctx waitErr exitCode =
     (case ctx of
        Some DeadlineExceeded \<Rightarrow> (''timeout'', ''timeout'', ''Run failed'', Level_error, Count_failed)
      | Some ErrCanceledByUser \<Rightarrow> (''canceled'', ''canceled_by_user'', ''Run canceled'', Level_warn, Count_canceled)
      | Some ErrReplaced \<Rightarrow> (''canceled'', ''replaced'', ''Run replaced'', Level_info, Count_canceled)
      | Some RunnerStopped \<Rightarrow> (''canceled'', ''shutdown'', ''Run interrupted'', Level_warn, Count_interrupted)
      | None \<Rightarrow>
          (if waitErr \<and> exitCode = 0 then (''wait_failed'', ''wait_failed'', ''Run failed'', Level_error, Count_failed)
           else if exitCode \<noteq> 0 then ([], ''exit_code'', ''Run failed'', Level_error, Count_failed)
           else ([], [], ''Run completed'', Level_info, Count_succeeded)))"

definition startFailure :: "duration \<Rightarrow> string \<Rightarrow> string \<Rightarrow> stats \<Rightarrow> result \<times> log_entry \<times> stats" where
  "startFailure d stage err s =
     (zero_result\<lparr>res_exit_code := - 1, res_duration := d, res_error := ''start_failed'',
        res_reason := ''start_failed'', res_output := err\<rparr>,
      \<lparr>le_level = Level_error, le_msg = ''Run failed'', le_attrs = [(''reason'', Attr_str ''start_failed''),
         (''detail'', Attr_str stage), (''durationMs'', Attr_int (Milliseconds d)), (''errorMessage'', Attr_str err)]\<rparr>,
      count_run Count_failed s)"

definition canceledBeforeStart :: "duration \<Rightarrow> cause option \<Rightarrow> stats \<Rightarrow> result \<times> log_entry \<times> stats" where
  "canceledBeforeStart d ctx s =
     (let (reason, msg, c) = (case ctx of
            Some ErrCanceledByUser \<Rightarrow> (''canceled_by_user'', ''Run canceled'', Count_canceled)
          | Some ErrReplaced \<Rightarrow> (''replaced'', ''Run replaced'', Count_canceled)
          | _ \<Rightarrow> (''shutdown'', ''Run interrupted'', Count_interrupted))
      in (zero_result\<lparr>res_exit_code := - 1, res_duration := d, res_error := ''canceled'', res_reason := reason\<rparr>,
          \<lparr>le_level = Level_warn, le_msg = msg, le_attrs = [(''reason'', Attr_str reason),
             (''exitCode'', Attr_int (- 1)), (''durationMs'', Attr_int (Milliseconds d))]\<rparr>,
          count_run c s))"

definition run_panicked :: "duration \<Rightarrow> stats \<Rightarrow> result \<times> log_entry \<times> stats" where
  "run_panicked d s =
     (zero_result\<lparr>res_exit_code := - 1, res_duration := d, res_error := ''panic'', res_reason := ''panic''\<rparr>,
      \<lparr>le_level = Level_error, le_msg = ''Run failed'', le_attrs = [(''reason'', Attr_str ''panic''),
         (''durationMs'', Attr_int (Milliseconds d))]\<rparr>,
      count_run Count_failed s)"

definition stderr_tail :: "run_output \<Rightarrow> string" where
  "stderr_tail out = (case lw_tail (ro_err out) of None \<Rightarrow> [] | Some t \<Rightarrow> tail_string t)"

definition completed :: "bool \<Rightarrow> spec \<Rightarrow> duration \<Rightarrow> (string \<times> attr) list \<Rightarrow> child \<Rightarrow> stats \<Rightarrow> result \<times> log_entry \<times> stats" where
  "completed debug sp d summary ch s =
     (let out = run_streams (sp_log_output sp \<and> debug) (sp_output sp \<noteq> None \<and> ch_file_open ch) (ch_writes ch);
          capture = sk_capture (ro_sinks out);
          exitCode = ch_exit_code ch;
          (error, reason, msg, level, c) = classify (ch_ctx ch) (ch_wait_error ch \<noteq> None) exitCode;
          tail = stderr_tail out
      in (\<lparr>res_exit_code = exitCode, res_duration = d, res_output = cb_buf capture,
           res_truncated = cb_truncated capture, res_error = error, res_reason = reason,
           res_signal = ch_signal ch\<rparr>,
          \<lparr>le_level = level, le_msg = msg, le_attrs =
             (if reason \<noteq> [] then [(''reason'', Attr_str reason)] else [])
             @ [(''exitCode'', Attr_int exitCode)]
             @ (if ch_signal ch \<noteq> [] then [(''signal'', Attr_str (ch_signal ch))] else [])
             @ [(''durationMs'', Attr_int (Milliseconds d))]
             @ (if reason = ''timeout'' then [(''thresholdMs'', Attr_int (Milliseconds (sp_timeout sp)))] else [])
             @ summary
             @ (if sp_log_output sp \<and> exitCode \<noteq> 0 \<and> tail \<noteq> [] then [(''stderrTail'', Attr_str (Mask tail))] else [])
             @ (case ch_wait_error ch of Some e \<Rightarrow>
                  if reason = ''wait_failed'' then [(''errorMessage'', Attr_str e)] else [] | None \<Rightarrow> [])\<rparr>,
          count_run c s))"

text \<open>
  \<open>execute\<close>: \<open>newID\<close> is what \<open>event.NewID\<close> returns, \<open>d\<close> the time that passed, \<open>encode_err\<close> the
  text of an error of \<open>json.Marshal\<close>, \<open>eventFile\<close> the outcome of \<open>writeEventFile\<close>, and \<open>os\<close> the
  process that a launch starts. The summary keys come from the dispatcher.
\<close>

definition run_event_record :: "string \<Rightarrow> event \<Rightarrow> event" where
  "run_event_record newID ev =
     (let ev1 = (if ev_request_id ev = [] then ev\<lparr>ev_request_id := newID\<rparr> else ev)
      in if ev_data ev1 = None then ev1\<lparr>ev_data := Some []\<rparr> else ev1)"

definition launch_of :: "platform \<Rightarrow> spec \<Rightarrow> event \<Rightarrow> payload \<Rightarrow> string \<Rightarrow> launched" where
  "launch_of pf sp ev pl file =
     (let env = buildEnv pf sp ev file
      in \<lparr>la_program = buildCommand pf sp env, la_dir = sp_workdir sp, la_env = env,
          la_stdin = (if sp_stdin sp = StdinPayload then Some pl else None),
          la_wait_delay = (if sp_stop_timeout sp \<le> 0 then killGrace else sp_stop_timeout sp)\<rparr>)"

definition exec_not_found :: "string \<Rightarrow> string" where
  "exec_not_found name = ''exec: '' @ [CHR 0x22] @ name @ [CHR 0x22] @ '': executable file not found in $PATH''"

definition start_error :: "launched \<Rightarrow> child \<Rightarrow> string option" where
  "start_error la ch =
     (case la_program la of ProgramNotFound name \<Rightarrow> Some (exec_not_found name) | _ \<Rightarrow> ch_start_error ch)"

definition run_child :: "bool \<Rightarrow> spec \<Rightarrow> duration \<Rightarrow> (string \<times> attr) list \<Rightarrow> launched \<Rightarrow> child \<Rightarrow> stats \<Rightarrow> result \<times> log_entry \<times> stats" where
  "run_child debug sp d summary la ch s =
     (case start_error la ch of
        Some err \<Rightarrow>
          (if ch_ctx ch \<noteq> None \<and> ch_ctx ch \<noteq> Some DeadlineExceeded
           then canceledBeforeStart d (ch_ctx ch) s
           else startFailure d ''exec'' err s)
      | None \<Rightarrow> completed debug sp d summary ch s)"

definition one_line :: "result \<times> log_entry \<times> stats \<Rightarrow> result \<times> log_entry list \<times> stats" where
  "one_line x = (case x of (res, e, s) \<Rightarrow> (res, [e], s))"

definition execute :: "platform \<Rightarrow> bool \<Rightarrow> string \<Rightarrow> duration \<Rightarrow> string \<Rightarrow> string + string
    \<Rightarrow> (launched \<Rightarrow> child) \<Rightarrow> spec \<Rightarrow> event \<Rightarrow> (string \<times> attr) list \<Rightarrow> stats \<Rightarrow> result \<times> log_entry list \<times> stats" where
  "execute pf debug newID d encode_err eventFile os sp ev summary s =
     (let ev' = run_event_record newID ev in
      case marshal_event ev' of
        None \<Rightarrow> one_line (startFailure d ''event_encode'' encode_err s)
      | Some pl \<Rightarrow>
          (case eventFile of
             Inl err \<Rightarrow> one_line (startFailure d ''event_file'' err s)
           | Inr file \<Rightarrow>
               (let la = launch_of pf sp ev' pl file in
                if la_program la = IndexPanic then one_line (run_panicked d s)
                else (case run_child debug sp d summary la (os la) s of
                        (res, e, s') \<Rightarrow> (res, [run_started ev', e], s')))))"

section \<open>Commands in flight and shared output files\<close>

definition inflight_add :: "int \<Rightarrow> int \<Rightarrow> int" where
  "inflight_add delta n = n + delta"

definition inflight_may_return :: "int \<Rightarrow> bool" where
  "inflight_may_return n \<longleftrightarrow> \<not> n > 0"

text \<open>
  Output files: \<open>of_open\<close> maps a path to the handle that is shared, \<open>of_refs\<close> counts the runs
  that write to a handle, and \<open>of_next\<close> is the handle of the next file opened. The closure
  \<open>release\<close> that a run gets is the pair of its path and its handle.
\<close>

record out_files =
  of_open :: "string \<rightharpoonup> int"
  of_refs :: "int \<Rightarrow> int"
  of_next :: int
  of_closed :: "int list"

definition openOutput :: "(string + unit) \<Rightarrow> string \<Rightarrow> out_files \<Rightarrow> (string + string \<times> int) \<times> out_files" where
  "openOutput opened path s =
     (case of_open s path of
        Some h \<Rightarrow> (Inr (path, h), s\<lparr>of_refs := (of_refs s)(h := of_refs s h + 1)\<rparr>)
      | None \<Rightarrow>
          (case opened of
             Inl err \<Rightarrow> (Inl err, s)
           | Inr u \<Rightarrow>
               (let h = of_next s in
                (Inr (path, h), s\<lparr>of_open := (of_open s)(path \<mapsto> h), of_refs := (of_refs s)(h := 1),
                   of_next := h + 1\<rparr>))))"

definition releaseOutput :: "string \<times> int \<Rightarrow> out_files \<Rightarrow> out_files" where
  "releaseOutput r s =
     (case r of (path, h) \<Rightarrow>
       (let n = of_refs s h - 1; s' = s\<lparr>of_refs := (of_refs s)(h := n)\<rparr> in
        if n = 0 then s'\<lparr>of_open := (of_open s')(path := None), of_closed := of_closed s' @ [h]\<rparr> else s'))"

end
