(* ===== verification/Store.thy ===== *)
theory Store
  imports Events
begin

text \<open>
  The database of runs (\<^verbatim>\<open>internal/queue/store.go\<close>): the tables as a record, and one
  definition per method of \<open>Store\<close>.

  SQLite itself is modelled by what its statements do to the tables. Any statement can fail
  (a full disk, a busy database, a canceled context): the field \<open>faults\<close> holds the outcome of
  the statements to come, \<open>None\<close> for a statement that succeeds, so every error branch of the
  code is reached for some list, and a theorem for all lists covers them all. A failed
  statement leaves the tables alone; a failed transaction is rolled back as a whole.
  Where a method reads the clock, the reading is its argument \<open>now\<close>.
\<close>

section \<open>Statuses\<close>

datatype status =
    StatusQueued | StatusRunning | StatusSucceeded | StatusFailed | StatusCanceled
  | StatusSkipped | StatusDropped | StatusInterrupted | StatusRetried | StatusAbandoned

fun status_name :: "status \<Rightarrow> string" where
  "status_name StatusQueued = ''queued''"
| "status_name StatusRunning = ''running''"
| "status_name StatusSucceeded = ''succeeded''"
| "status_name StatusFailed = ''failed''"
| "status_name StatusCanceled = ''canceled''"
| "status_name StatusSkipped = ''skipped''"
| "status_name StatusDropped = ''dropped''"
| "status_name StatusInterrupted = ''interrupted''"
| "status_name StatusRetried = ''retried''"
| "status_name StatusAbandoned = ''abandoned''"

fun Final :: "status \<Rightarrow> bool" where
  "Final StatusQueued = False"
| "Final StatusRunning = False"
| "Final StatusInterrupted = False"
| "Final st = True"

lemma Final_iff: "Final st \<longleftrightarrow> st \<notin> {StatusQueued, StatusRunning, StatusInterrupted}"
  by (cases st) auto

lemma status_name_inj: "status_name a = status_name b \<longleftrightarrow> a = b"
  by (cases a; cases b) auto

section \<open>Tables\<close>

text \<open>A row of the table \<open>runs\<close>; times are milliseconds, \<open>None\<close> is NULL.\<close>

record row =
  c_id :: int
  c_request_id :: string
  c_event :: string
  c_trigger :: string
  c_trigger_id :: string
  c_source :: string
  c_payload :: payload
  c_status :: status
  c_reason :: string
  c_detail :: string
  c_attempt :: int
  c_retry_of :: "int option"
  c_exit_code :: "int option"
  c_signal :: string
  c_output :: string
  c_output_truncated :: bool
  c_skipped :: int
  c_cancel_requested :: bool
  c_created_at :: int
  c_started_at :: "int option"
  c_finished_at :: "int option"
  c_duration_ms :: "int option"
  c_followed :: bool
  c_not_before :: "int option"

record agent_row =
  ag_pid :: int
  ag_version :: string
  ag_host :: string
  ag_started_at :: int
  ag_heartbeat_at :: int
  ag_stopped_at :: "int option"

datatype db_error = SqlError | ContextCanceled | ErrNotFound | SchemaTooNew int

record db =
  tbl_runs :: "row list"
  tbl_seq :: int
  tbl_agent :: "agent_row option"
  tbl_cron :: "string \<rightharpoonup> int"
  user_version :: int
  data_version :: int
  faults :: "db_error option list"

text \<open>
  \<open>tbl_seq\<close> is the largest id that the table has ever given (\<open>AUTOINCREMENT\<close>).
\<close>

section \<open>Statements and transactions\<close>

type_synonym 'a dbm = "db \<Rightarrow> (db_error + 'a) \<times> db"

definition sql :: "(db \<Rightarrow> 'a \<times> db) \<Rightarrow> 'a dbm" where
  "sql f d =
     (case faults d of
        [] \<Rightarrow> (case f d of (a, d') \<Rightarrow> (Inr a, d'))
      | Some e # fs \<Rightarrow> (Inl e, d\<lparr>faults := fs\<rparr>)
      | None # fs \<Rightarrow> (case f (d\<lparr>faults := fs\<rparr>) of (a, d') \<Rightarrow> (Inr a, d')))"

definition db_ret :: "'a \<Rightarrow> 'a dbm" where
  "db_ret a d = (Inr a, d)"

definition db_then :: "'a dbm \<Rightarrow> ('a \<Rightarrow> 'b dbm) \<Rightarrow> 'b dbm" where
  "db_then m k d = (case m d of (Inl e, d') \<Rightarrow> (Inl e, d') | (Inr a, d') \<Rightarrow> k a d')"

definition nothing :: "db \<Rightarrow> unit \<times> db" where
  "nothing d = ((), d)"

text \<open>
  \<open>end_tx d (r, d')\<close> ends a transaction that began in \<open>d\<close>: after an error the deferred
  \<open>Rollback\<close> restores the tables; otherwise \<open>Commit\<close> runs, which may fail as well.
\<close>

definition end_tx :: "db \<Rightarrow> (db_error + 'a) \<times> db \<Rightarrow> (db_error + 'a) \<times> db" where
  "end_tx d rd =
     (case rd of
        (Inl e, d') \<Rightarrow> (Inl e, d\<lparr>faults := faults d'\<rparr>)
      | (Inr a, d') \<Rightarrow>
          (case sql nothing d' of
             (Inl e, d'') \<Rightarrow> (Inl e, d\<lparr>faults := faults d''\<rparr>)
           | (Inr u, d'') \<Rightarrow> (Inr a, d'')))"

definition in_tx :: "'a dbm \<Rightarrow> 'a dbm" where
  "in_tx m = db_then (sql nothing) (\<lambda>u d. end_tx d (m d))"

text \<open>\<open>change\<close> runs an update and reports whether it changed exactly one row.\<close>

definition update_rows :: "(row \<Rightarrow> bool) \<Rightarrow> (row \<Rightarrow> row) \<Rightarrow> db \<Rightarrow> int \<times> db" where
  "update_rows P f d =
     (int (length (filter P (tbl_runs d))), d\<lparr>tbl_runs := update_where P f (tbl_runs d)\<rparr>)"

definition change :: "(row \<Rightarrow> bool) \<Rightarrow> (row \<Rightarrow> row) \<Rightarrow> bool dbm" where
  "change P f = db_then (sql (update_rows P f)) (\<lambda>n. db_ret (n = 1))"

definition exec_update :: "(row \<Rightarrow> bool) \<Rightarrow> (row \<Rightarrow> row) \<Rightarrow> unit dbm" where
  "exec_update P f = db_then (sql (update_rows P f)) (\<lambda>n. db_ret ())"

definition query :: "(db \<Rightarrow> 'a) \<Rightarrow> 'a dbm" where
  "query q = sql (\<lambda>d. (q d, d))"

text \<open>\<open>LIMIT n\<close>: a negative limit is no limit.\<close>

definition sql_limit :: "int \<Rightarrow> 'a list \<Rightarrow> 'a list" where
  "sql_limit n xs = (if n < 0 then xs else take (nat n) xs)"

definition rows_by_id :: "(row \<Rightarrow> bool) \<Rightarrow> db \<Rightarrow> row list" where
  "rows_by_id P d = sort_key c_id (filter P (tbl_runs d))"

section \<open>Schema upgrades\<close>

datatype ddl =
    DropTable string | CreateRuns | CreateAgent | CreateCronState | CreateIndex string
  | AddFollowed | MarkEndedFollowed | AddNotBefore

fun exec_ddl :: "ddl \<Rightarrow> db \<Rightarrow> unit \<times> db" where
  "exec_ddl (DropTable t) d = ((), if t = ''runs'' then d\<lparr>tbl_runs := [], tbl_seq := 0\<rparr> else d)"
| "exec_ddl CreateRuns d = ((), d)"
| "exec_ddl CreateAgent d = ((), d)"
| "exec_ddl CreateCronState d = ((), d)"
| "exec_ddl (CreateIndex i) d = ((), d)"
| "exec_ddl AddFollowed d =
     ((), d\<lparr>tbl_runs := map (\<lambda>r. r\<lparr>c_followed := False\<rparr>) (tbl_runs d)\<rparr>)"
| "exec_ddl MarkEndedFollowed d =
     ((), d\<lparr>tbl_runs := update_where
        (\<lambda>r. c_status r \<notin> {StatusQueued, StatusRunning, StatusInterrupted})
        (\<lambda>r. r\<lparr>c_followed := True\<rparr>) (tbl_runs d)\<rparr>)"
| "exec_ddl AddNotBefore d =
     ((), d\<lparr>tbl_runs := map (\<lambda>r. r\<lparr>c_not_before := None\<rparr>) (tbl_runs d)\<rparr>)"

definition schemaVersion :: int where "schemaVersion = 5"

definition schemaV2 :: "ddl list" where
  "schemaV2 = [DropTable ''events'', DropTable ''runs'', CreateRuns, CreateIndex ''runs_status'',
     CreateIndex ''runs_event'', CreateIndex ''runs_request'', CreateIndex ''runs_retry'',
     CreateIndex ''runs_finished'', CreateAgent]"

definition schemaV3 :: "ddl list" where
  "schemaV3 = [CreateCronState]"

definition schemaV4 :: "ddl list" where
  "schemaV4 = [AddFollowed, MarkEndedFollowed, CreateIndex ''runs_unfollowed'']"

definition schemaV5 :: "ddl list" where
  "schemaV5 = [AddNotBefore]"

fun exec_all :: "ddl list \<Rightarrow> unit dbm" where
  "exec_all [] = db_ret ()"
| "exec_all (s # ss) = db_then (sql (exec_ddl s)) (\<lambda>u. exec_all ss)"

fun migrate_steps :: "int \<Rightarrow> (int \<times> ddl list) list \<Rightarrow> unit dbm" where
  "migrate_steps v [] = db_ret ()"
| "migrate_steps v ((version, stmts) # steps) =
     (if v \<ge> version then migrate_steps v steps
      else db_then (exec_all stmts) (\<lambda>u. migrate_steps v steps))"

definition migrate :: "unit dbm" where
  "migrate =
     db_then (sql nothing) (\<lambda>u. db_then (query user_version) (\<lambda>v.
       if v = schemaVersion then db_ret ()
       else if v > schemaVersion then (\<lambda>d. (Inl (SchemaTooNew v), d))
       else (\<lambda>d. end_tx d (db_then
              (migrate_steps v [(2, schemaV2), (3, schemaV3), (4, schemaV4), (5, schemaV5)])
              (\<lambda>u. sql (\<lambda>d. ((), d\<lparr>user_version := schemaVersion\<rparr>))) d))))"

definition DataVersion :: "int dbm" where
  "DataVersion = query data_version"

section \<open>Runs\<close>

text \<open>The struct \<open>Run\<close>: a row as the code sees it, with times; the zero time is NULL.\<close>

record run =
  run_id :: int
  run_request_id :: string
  run_event :: string
  run_trigger :: string
  run_trigger_id :: string
  run_source :: string
  run_payload :: payload
  run_status :: status
  run_reason :: string
  run_detail :: string
  run_attempt :: int
  run_retry_of :: int
  run_exit_code :: "int option"
  run_signal :: string
  run_output :: string
  run_output_truncated :: bool
  run_skipped :: int
  run_cancel_requested :: bool
  run_created_at :: gotime
  run_started_at :: gotime
  run_finished_at :: gotime
  run_duration :: duration
  run_not_before :: gotime

definition fromMs :: "int option \<Rightarrow> gotime" where
  "fromMs v = (case v of None \<Rightarrow> zero_time | Some m \<Rightarrow> from_UnixMilli m)"

definition scanRun :: "row \<Rightarrow> run" where
  "scanRun c = \<lparr>run_id = c_id c, run_request_id = c_request_id c, run_event = c_event c,
     run_trigger = c_trigger c, run_trigger_id = c_trigger_id c, run_source = c_source c,
     run_payload = c_payload c, run_status = c_status c, run_reason = c_reason c,
     run_detail = c_detail c, run_attempt = c_attempt c,
     run_retry_of = (case c_retry_of c of None \<Rightarrow> 0 | Some i \<Rightarrow> i),
     run_exit_code = c_exit_code c, run_signal = c_signal c, run_output = c_output c,
     run_output_truncated = c_output_truncated c, run_skipped = c_skipped c,
     run_cancel_requested = c_cancel_requested c,
     run_created_at = from_UnixMilli (c_created_at c),
     run_started_at = fromMs (c_started_at c), run_finished_at = fromMs (c_finished_at c),
     run_duration = (case c_duration_ms c of None \<Rightarrow> 0 | Some m \<Rightarrow> m * millisecond),
     run_not_before = fromMs (c_not_before c)\<rparr>"

text \<open>A firing to be queued: the fields of \<open>Run\<close> that the callers of \<open>Enqueue\<close> set.\<close>

definition new_run :: "string \<Rightarrow> string \<Rightarrow> string \<Rightarrow> string \<Rightarrow> string \<Rightarrow> payload \<Rightarrow> gotime \<Rightarrow> gotime \<Rightarrow> run" where
  "new_run request event trigger trigger_id source pl created not_before =
     \<lparr>run_id = 0, run_request_id = request, run_event = event, run_trigger = trigger,
      run_trigger_id = trigger_id, run_source = source, run_payload = pl,
      run_status = StatusQueued, run_reason = [], run_detail = [], run_attempt = 1,
      run_retry_of = 0, run_exit_code = None, run_signal = [], run_output = [],
      run_output_truncated = False, run_skipped = 0, run_cancel_requested = False,
      run_created_at = created, run_started_at = zero_time, run_finished_at = zero_time,
      run_duration = 0, run_not_before = not_before\<rparr>"

definition Open :: "run \<Rightarrow> bool" where
  "Open r \<longleftrightarrow> run_status r = StatusQueued \<or> run_status r = StatusRunning"

definition nullID :: "int \<Rightarrow> int option" where
  "nullID i = (if i = 0 then None else Some i)"

definition queued_of :: "string \<Rightarrow> row \<Rightarrow> bool" where
  "queued_of event r \<longleftrightarrow> c_event r = event \<and> c_status r = StatusQueued"

definition count_queued :: "string \<Rightarrow> db \<Rightarrow> int" where
  "count_queued event d = int (length (filter (queued_of event) (tbl_runs d)))"

text \<open>An \<open>INSERT\<close> gives the row the next id; \<open>LastInsertId\<close> returns it.\<close>

definition insert_row :: "row \<Rightarrow> db \<Rightarrow> int \<times> db" where
  "insert_row r d =
     (let i = tbl_seq d + 1 in (i, d\<lparr>tbl_runs := tbl_runs d @ [r\<lparr>c_id := i\<rparr>], tbl_seq := i\<rparr>))"

definition fresh_row :: "run \<Rightarrow> payload \<Rightarrow> status \<Rightarrow> string \<Rightarrow> int \<Rightarrow> int option \<Rightarrow> int \<Rightarrow> int option \<Rightarrow> int option \<Rightarrow> row" where
  "fresh_row r pl st reason attempt retry_of created finished not_before =
     \<lparr>c_id = 0, c_request_id = run_request_id r, c_event = run_event r, c_trigger = run_trigger r,
      c_trigger_id = run_trigger_id r, c_source = run_source r, c_payload = pl, c_status = st,
      c_reason = reason, c_detail = [], c_attempt = attempt, c_retry_of = retry_of,
      c_exit_code = None, c_signal = [], c_output = [], c_output_truncated = False, c_skipped = 0,
      c_cancel_requested = False, c_created_at = created, c_started_at = None,
      c_finished_at = finished, c_duration_ms = None, c_followed = False,
      c_not_before = not_before\<rparr>"

definition insertRun :: "gotime \<Rightarrow> run \<Rightarrow> int \<Rightarrow> (int \<times> bool) dbm" where
  "insertRun now r maxQueued =
     (let created = (if IsZero (run_created_at r) then now else run_created_at r);
          attempt = (if run_attempt r = 0 then 1 else run_attempt r);
          not_before = (if IsZero (run_not_before r) then None else Some (UnixMilli (run_not_before r)))
      in db_then (if maxQueued > 0 then query (count_queued (run_event r)) else db_ret 0) (\<lambda>n.
           let full = (maxQueued > 0 \<and> n \<ge> maxQueued);
               row = (if full
                 then fresh_row r (run_payload r) StatusDropped ''queue_full'' attempt
                        (nullID (run_retry_of r)) (UnixMilli created) (Some (UnixMilli now)) not_before
                 else fresh_row r (run_payload r) StatusQueued [] attempt
                        (nullID (run_retry_of r)) (UnixMilli created) None not_before)
           in db_then (sql (insert_row row)) (\<lambda>i. db_ret (i, full))))"

definition Enqueue :: "gotime \<Rightarrow> run \<Rightarrow> int \<Rightarrow> (int \<times> bool) dbm" where
  "Enqueue now r maxQueued = in_tx (insertRun now r maxQueued)"

text \<open>Ended runs, as after triggers see them.\<close>

record ended =
  en_id :: int
  en_event :: string
  en_status :: status
  en_exit_code :: "int option"

definition unfollowed :: "row \<Rightarrow> bool" where
  "unfollowed r \<longleftrightarrow> \<not> c_followed r \<and> c_status r \<notin> {StatusQueued, StatusRunning, StatusInterrupted}"

definition to_ended :: "row \<Rightarrow> ended" where
  "to_ended r = \<lparr>en_id = c_id r, en_event = c_event r, en_status = c_status r,
     en_exit_code = c_exit_code r\<rparr>"

definition UnfollowedRuns :: "int \<Rightarrow> ended list dbm" where
  "UnfollowedRuns limit = query (\<lambda>d. map to_ended (sql_limit limit (rows_by_id unfollowed d)))"

text \<open>\<open>maxQueued\<close> has an entry per run; the code indexes it with the position of the run.\<close>

fun insert_runs :: "gotime \<Rightarrow> (run \<times> int) list \<Rightarrow> (int \<times> bool) list dbm" where
  "insert_runs now [] = db_ret []"
| "insert_runs now ((r, m) # rs) =
     db_then (insertRun now r m) (\<lambda>x. db_then (insert_runs now rs) (\<lambda>xs. db_ret (x # xs)))"

definition Follow :: "gotime \<Rightarrow> int \<Rightarrow> (run \<times> int) list \<Rightarrow> (int \<times> bool) list dbm" where
  "Follow now i runs = in_tx (db_then (insert_runs now runs) (\<lambda>ids.
     db_then (exec_update (\<lambda>r. c_id r = i) (\<lambda>r. r\<lparr>c_followed := True\<rparr>)) (\<lambda>u. db_ret ids)))"

definition due :: "gotime \<Rightarrow> row \<Rightarrow> bool" where
  "due now r \<longleftrightarrow> (case c_not_before r of None \<Rightarrow> True | Some t \<Rightarrow> t \<le> UnixMilli now)"

definition QueuedRuns :: "gotime \<Rightarrow> int \<Rightarrow> string list \<Rightarrow> run list dbm" where
  "QueuedRuns now limit except = query (\<lambda>d. map scanRun (sql_limit limit
     (rows_by_id (\<lambda>r. c_status r = StatusQueued \<and> due now r \<and> c_event r \<notin> set except) d)))"

definition NextNotBefore :: "gotime \<Rightarrow> gotime option dbm" where
  "NextNotBefore now = query (\<lambda>d.
     (let ts = List.map_filter (\<lambda>r. if c_status r = StatusQueued then
                  (case c_not_before r of None \<Rightarrow> None
                   | Some t \<Rightarrow> if t > UnixMilli now then Some t else None) else None) (tbl_runs d)
      in if ts = [] then None else Some (from_UnixMilli (Min (set ts)))))"

definition CountQueued :: "string \<Rightarrow> int dbm" where
  "CountQueued event = query (count_queued event)"

definition StartRun :: "int \<Rightarrow> gotime \<Rightarrow> bool dbm" where
  "StartRun i at = change (\<lambda>r. c_id r = i \<and> c_status r = StatusQueued)
     (\<lambda>r. r\<lparr>c_status := StatusRunning, c_started_at := Some (UnixMilli at)\<rparr>)"

record finish =
  fin_status :: status
  fin_reason :: string
  fin_detail :: string
  fin_exit_code :: "int option"
  fin_signal :: string
  fin_output :: string
  fin_truncated :: bool
  fin_at :: gotime
  fin_duration :: duration

definition FinishRun :: "gotime \<Rightarrow> int \<Rightarrow> finish \<Rightarrow> unit dbm" where
  "FinishRun now i f = exec_update (\<lambda>r. c_id r = i)
     (\<lambda>r. r\<lparr>c_status := fin_status f, c_reason := fin_reason f, c_detail := fin_detail f,
        c_exit_code := fin_exit_code f, c_signal := fin_signal f, c_output := fin_output f,
        c_output_truncated := fin_truncated f,
        c_finished_at := Some (UnixMilli (if IsZero (fin_at f) then now else fin_at f)),
        c_duration_ms := Some (Milliseconds (fin_duration f)), c_cancel_requested := False\<rparr>)"

definition Settle :: "gotime \<Rightarrow> int \<Rightarrow> status \<Rightarrow> string \<Rightarrow> string \<Rightarrow> bool dbm" where
  "Settle now i st reason detail = change (\<lambda>r. c_id r = i \<and> c_status r = StatusQueued)
     (\<lambda>r. r\<lparr>c_status := st, c_reason := reason, c_detail := detail,
        c_finished_at := Some (UnixMilli now)\<rparr>)"

definition AddSkipped :: "int \<Rightarrow> unit dbm" where
  "AddSkipped i = exec_update (\<lambda>r. c_id r = i) (\<lambda>r. r\<lparr>c_skipped := c_skipped r + 1\<rparr>)"

text \<open>What a cancel request does to one run, and the run that it reports.\<close>

definition cancel_one :: "gotime \<Rightarrow> run \<Rightarrow> run dbm" where
  "cancel_one now r =
     (case run_status r of
        StatusQueued \<Rightarrow>
          db_then (exec_update (\<lambda>c. c_id c = run_id r)
              (\<lambda>c. c\<lparr>c_status := StatusCanceled, c_reason := ''canceled_by_user'',
                 c_finished_at := Some (UnixMilli now)\<rparr>))
            (\<lambda>u. db_ret (r\<lparr>run_status := StatusCanceled, run_reason := ''canceled_by_user'',
                 run_finished_at := now\<rparr>))
      | StatusRunning \<Rightarrow>
          db_then (exec_update (\<lambda>c. c_id c = run_id r) (\<lambda>c. c\<lparr>c_cancel_requested := True\<rparr>))
            (\<lambda>u. db_ret (r\<lparr>run_cancel_requested := True\<rparr>))
      | _ \<Rightarrow> db_ret r)"

definition find_row :: "int \<Rightarrow> db \<Rightarrow> row option" where
  "find_row i d = find (\<lambda>r. c_id r = i) (tbl_runs d)"

definition db_fail :: "db_error \<Rightarrow> 'a dbm" where
  "db_fail e d = (Inl e, d)"

definition RequestCancel :: "gotime \<Rightarrow> int \<Rightarrow> run dbm" where
  "RequestCancel now i = in_tx (db_then (query (find_row i)) (\<lambda>found.
     case found of None \<Rightarrow> db_fail ErrNotFound | Some c \<Rightarrow> cancel_one now (scanRun c)))"

fun cancel_all :: "gotime \<Rightarrow> run list \<Rightarrow> run list dbm" where
  "cancel_all now [] = db_ret []"
| "cancel_all now (r # rs) =
     db_then (cancel_one now r) (\<lambda>x. db_then (cancel_all now rs) (\<lambda>xs. db_ret (x # xs)))"

definition RequestCancelEvent :: "gotime \<Rightarrow> string \<Rightarrow> run list dbm" where
  "RequestCancelEvent now event = in_tx (db_then
     (query (\<lambda>d. map scanRun (rows_by_id
        (\<lambda>r. c_event r = event \<and> c_status r \<in> {StatusQueued, StatusRunning}) d)))
     (cancel_all now))"

definition CancelRequests :: "int list dbm" where
  "CancelRequests = query (\<lambda>d. map c_id
     (filter (\<lambda>r. c_status r = StatusRunning \<and> c_cancel_requested r) (tbl_runs d)))"

definition InterruptedRuns :: "run list dbm" where
  "InterruptedRuns = query (\<lambda>d. map scanRun
     (rows_by_id (\<lambda>r. c_status r \<in> {StatusRunning, StatusInterrupted}) d))"

definition Retry :: "gotime \<Rightarrow> run \<Rightarrow> payload \<Rightarrow> string \<Rightarrow> int dbm" where
  "Retry now r pl reason = in_tx (db_then
     (sql (insert_row (fresh_row r pl StatusQueued [] (run_attempt r + 1) (Some (run_id r))
        (UnixMilli now) None None)))
     (\<lambda>i. db_then (exec_update (\<lambda>c. c_id c = run_id r)
        (\<lambda>c. c\<lparr>c_status := StatusRetried, c_reason := reason,
           c_detail := ''rerun as run '' @ Itoa i,
           c_finished_at := (case c_finished_at c of None \<Rightarrow> Some (UnixMilli now) | Some t \<Rightarrow> Some t),
           c_cancel_requested := False\<rparr>))
        (\<lambda>u. db_ret i)))"

definition Abandon :: "gotime \<Rightarrow> int \<Rightarrow> string \<Rightarrow> unit dbm" where
  "Abandon now i reason = exec_update (\<lambda>c. c_id c = i)
     (\<lambda>c. c\<lparr>c_status := StatusAbandoned, c_reason := reason,
        c_finished_at := (case c_finished_at c of None \<Rightarrow> Some (UnixMilli now) | Some t \<Rightarrow> Some t),
        c_cancel_requested := False\<rparr>)"

definition RetryOf :: "int \<Rightarrow> run option dbm" where
  "RetryOf i = query (\<lambda>d. case sql_limit 1 (rows_by_id (\<lambda>r. c_retry_of r = Some i) d) of
     [] \<Rightarrow> None | r # rs \<Rightarrow> Some (scanRun r))"

record filter_spec =
  flt_event :: string
  flt_statuses :: "string list"
  flt_limit :: int

definition ListRuns :: "filter_spec \<Rightarrow> run list dbm" where
  "ListRuns f = query (\<lambda>d.
     (let rows = rev (rows_by_id (\<lambda>r. (flt_event f = [] \<or> c_event r = flt_event f) \<and>
                    (flt_statuses f = [] \<or> status_name (c_status r) \<in> set (flt_statuses f))) d)
      in map scanRun (if flt_limit f > 0 then sql_limit (flt_limit f) rows else rows)))"

definition GetRun :: "int \<Rightarrow> run dbm" where
  "GetRun i = db_then (query (find_row i))
     (\<lambda>found. case found of None \<Rightarrow> db_fail ErrNotFound | Some c \<Rightarrow> db_ret (scanRun c))"

definition RunsForRequest :: "string \<Rightarrow> run list dbm" where
  "RunsForRequest q = query (\<lambda>d. map scanRun (rows_by_id (\<lambda>r. c_request_id r = q) d))"

definition Counts :: "(int \<times> int) dbm" where
  "Counts = query (\<lambda>d.
     (int (length (filter (\<lambda>r. c_status r = StatusQueued) (tbl_runs d))),
      int (length (filter (\<lambda>r. c_status r = StatusRunning) (tbl_runs d)))))"

definition prunable :: "gotime \<Rightarrow> row \<Rightarrow> bool" where
  "prunable before r \<longleftrightarrow>
     (case c_finished_at r of None \<Rightarrow> False | Some t \<Rightarrow> t < UnixMilli before)
     \<and> c_status r \<notin> {StatusQueued, StatusRunning, StatusInterrupted}"

definition Prune :: "gotime \<Rightarrow> int dbm" where
  "Prune before = sql (\<lambda>d. (int (length (filter (prunable before) (tbl_runs d))),
     d\<lparr>tbl_runs := filter (\<lambda>r. \<not> prunable before r) (tbl_runs d)\<rparr>))"

section \<open>Agent and cron state\<close>

record agent =
  agent_pid :: int
  agent_version :: string
  agent_host :: string
  agent_started_at :: gotime
  agent_heartbeat_at :: gotime
  agent_stopped_at :: gotime

definition Alive :: "gotime \<Rightarrow> agent \<Rightarrow> duration \<Rightarrow> bool" where
  "Alive now a window \<longleftrightarrow> IsZero (agent_stopped_at a) \<and> now - agent_heartbeat_at a < window"

definition Heartbeat :: "gotime \<Rightarrow> agent \<Rightarrow> unit dbm" where
  "Heartbeat now a = sql (\<lambda>d. ((), d\<lparr>tbl_agent := Some
     \<lparr>ag_pid = agent_pid a, ag_version = agent_version a, ag_host = agent_host a,
      ag_started_at = UnixMilli (agent_started_at a), ag_heartbeat_at = UnixMilli now,
      ag_stopped_at = None\<rparr>\<rparr>))"

definition AgentStopped :: "gotime \<Rightarrow> unit dbm" where
  "AgentStopped now = sql (\<lambda>d. ((), d\<lparr>tbl_agent :=
     map_option (\<lambda>a. a\<lparr>ag_stopped_at := Some (UnixMilli now)\<rparr>) (tbl_agent d)\<rparr>))"

definition AgentInfo :: "agent option dbm" where
  "AgentInfo = query (\<lambda>d. map_option (\<lambda>a.
     \<lparr>agent_pid = ag_pid a, agent_version = ag_version a, agent_host = ag_host a,
      agent_started_at = from_UnixMilli (ag_started_at a),
      agent_heartbeat_at = from_UnixMilli (ag_heartbeat_at a),
      agent_stopped_at = fromMs (ag_stopped_at a)\<rparr>) (tbl_agent d))"

definition LastCron :: "string \<Rightarrow> gotime option dbm" where
  "LastCron key = query (\<lambda>d. map_option from_UnixMilli (tbl_cron d key))"

definition SetLastCron :: "string \<Rightarrow> gotime \<Rightarrow> unit dbm" where
  "SetLastCron key at = sql (\<lambda>d. ((), d\<lparr>tbl_cron := (tbl_cron d)(key \<mapsto> UnixMilli at)\<rparr>))"

end
