(* ===== verification/StoreLaws.thy ===== *)
theory StoreLaws
  imports Store
begin

text \<open>
  How the statements and transactions of the store behave: inversion rules, the contract of a
  two-state relation that every statement keeps (locale \<open>db_relation\<close>), and its two
  interpretations, the well-formedness of the table of runs and the evolution of its rows.
\<close>

section \<open>Inversion of statements and transactions\<close>

definition same_tables :: "db \<Rightarrow> db \<Rightarrow> bool" where
  "same_tables d d' \<longleftrightarrow> d\<lparr>faults := []\<rparr> = d'\<lparr>faults := []\<rparr>"

lemma same_tables_refl [simp, intro]: "same_tables d d"
  by (simp add: same_tables_def)

lemma same_tables_faults [simp]:
  "same_tables (d\<lparr>faults := fs\<rparr>) d' = same_tables d d'"
  "same_tables d (d'\<lparr>faults := fs\<rparr>) = same_tables d d'"
  by (simp_all add: same_tables_def)

lemma same_tables_trans: "same_tables a b \<Longrightarrow> same_tables b c \<Longrightarrow> same_tables a c"
  by (simp add: same_tables_def)

lemma same_tables_fields:
  assumes "same_tables d d'"
  shows "tbl_runs d' = tbl_runs d" "tbl_seq d' = tbl_seq d" "tbl_agent d' = tbl_agent d"
    "tbl_cron d' = tbl_cron d" "user_version d' = user_version d" "data_version d' = data_version d"
  using assms by (cases d; cases d'; simp add: same_tables_def)+

lemma sql_Inr:
  assumes "sql f d = (Inr a, d')"
  shows "\<exists>fs. f (d\<lparr>faults := fs\<rparr>) = (a, d')"
proof (cases "faults d")
  case Nil
  with assms have "f d = (a, d')"
    by (simp add: sql_def split: prod.splits)
  moreover have "d\<lparr>faults := faults d\<rparr> = d" by simp
  ultimately show ?thesis by metis
next
  case (Cons x fs)
  with assms have "f (d\<lparr>faults := fs\<rparr>) = (a, d')"
    by (auto simp: sql_def split: option.splits prod.splits)
  then show ?thesis by blast
qed

lemma sql_Inl: "sql f d = (Inl e, d') \<Longrightarrow> \<exists>fs. d' = d\<lparr>faults := fs\<rparr>"
  by (auto simp: sql_def split: list.splits option.splits prod.splits)

lemma sql_elim [consumes 1, case_names error ok]:
  assumes "sql f d = (r, d')"
  obtains e fs where "r = Inl e" "d' = d\<lparr>faults := fs\<rparr>"
  | a fs where "r = Inr a" "f (d\<lparr>faults := fs\<rparr>) = (a, d')"
  using assms by (cases r) (auto dest: sql_Inr sql_Inl)

lemma query_elim [consumes 1, case_names error ok]:
  assumes "query q d = (r, d')"
  obtains e fs where "r = Inl e" "d' = d\<lparr>faults := fs\<rparr>"
  | fs where "r = Inr (q (d\<lparr>faults := fs\<rparr>))" "d' = d\<lparr>faults := fs\<rparr>"
  using assms unfolding query_def by (cases rule: sql_elim) auto

lemma db_then_elim [consumes 1, case_names error ok]:
  assumes "db_then m k d = (r, d')"
  obtains e where "m d = (Inl e, d')" "r = Inl e"
  | a d1 where "m d = (Inr a, d1)" "k a d1 = (r, d')"
  using assms by (auto simp: db_then_def split: prod.splits sum.splits)

lemma db_then_Inr:
  "db_then m k d = (Inr b, d') \<Longrightarrow> \<exists>a d1. m d = (Inr a, d1) \<and> k a d1 = (Inr b, d')"
  by (auto elim: db_then_elim)

lemma end_tx_Inl: "end_tx d rd = (Inl e, d') \<Longrightarrow> \<exists>fs. d' = d\<lparr>faults := fs\<rparr>"
  by (auto simp: end_tx_def split: prod.splits sum.splits)

lemma end_tx_Inr:
  "end_tx d rd = (Inr a, d') \<Longrightarrow> \<exists>d1 fs. rd = (Inr a, d1) \<and> d' = d1\<lparr>faults := fs\<rparr>"
  by (auto simp: end_tx_def nothing_def split: prod.splits sum.splits dest!: sql_Inr)

text \<open>A transaction that fails changes no table; one that succeeds is its body.\<close>

lemma in_tx_elim [consumes 1, case_names error ok]:
  assumes "in_tx m d = (r, d')"
  obtains e fs where "r = Inl e" "d' = d\<lparr>faults := fs\<rparr>"
  | a fs d1 fs' where "r = Inr a" "m (d\<lparr>faults := fs\<rparr>) = (Inr a, d1)" "d' = d1\<lparr>faults := fs'\<rparr>"
proof -
  from assms have t: "db_then (sql nothing) (\<lambda>u d. end_tx d (m d)) d = (r, d')"
    by (simp add: in_tx_def)
  then show ?thesis
  proof (cases rule: db_then_elim)
    case (error e)
    then show ?thesis using that(1) by (auto dest: sql_Inl)
  next
    case (ok u d0)
    from ok(1) obtain fs where d0: "d0 = d\<lparr>faults := fs\<rparr>"
      by (auto simp: nothing_def dest!: sql_Inr)
    show ?thesis
    proof (cases r)
      case (Inl e)
      with ok(2) d0 that(1) show ?thesis by (auto dest!: end_tx_Inl)
    next
      case (Inr a)
      with ok(2) d0 that(2) show ?thesis by (auto dest!: end_tx_Inr)
    qed
  qed
qed

lemma in_tx_atomic: "in_tx m d = (Inl e, d') \<Longrightarrow> same_tables d d'"
  by (erule in_tx_elim) auto

lemma in_tx_Inr:
  "in_tx m d = (Inr a, d') \<Longrightarrow>
     \<exists>fs d1 fs'. m (d\<lparr>faults := fs\<rparr>) = (Inr a, d1) \<and> d' = d1\<lparr>faults := fs'\<rparr>"
  by (erule in_tx_elim) auto

lemma exec_update_elim [consumes 1, case_names error ok]:
  assumes "exec_update P f d = (r, d')"
  obtains e fs where "r = Inl e" "d' = d\<lparr>faults := fs\<rparr>"
  | fs where "r = Inr ()" "d' = d\<lparr>faults := fs, tbl_runs := update_where P f (tbl_runs d)\<rparr>"
proof -
  from assms have "db_then (sql (update_rows P f)) (\<lambda>n. db_ret ()) d = (r, d')"
    by (simp add: exec_update_def)
  then show ?thesis
  proof (cases rule: db_then_elim)
    case (error e)
    then show ?thesis using that(1) by (auto dest: sql_Inl)
  next
    case (ok n d1)
    then show ?thesis using that(2) by (auto simp: db_ret_def update_rows_def dest!: sql_Inr)
  qed
qed

lemma change_elim [consumes 1, case_names error ok]:
  assumes "change P f d = (r, d')"
  obtains e fs where "r = Inl e" "d' = d\<lparr>faults := fs\<rparr>"
  | fs where "r = Inr (length (filter P (tbl_runs d)) = 1)"
      "d' = d\<lparr>faults := fs, tbl_runs := update_where P f (tbl_runs d)\<rparr>"
proof -
  from assms have "db_then (sql (update_rows P f)) (\<lambda>n. db_ret (n = 1)) d = (r, d')"
    by (simp add: change_def)
  then show ?thesis
  proof (cases rule: db_then_elim)
    case (error e)
    then show ?thesis using that(1) by (auto dest: sql_Inl)
  next
    case (ok n d1)
    then show ?thesis using that(2) by (auto simp: db_ret_def update_rows_def dest!: sql_Inr)
  qed
qed

section \<open>Relations that every statement keeps\<close>

definition keeps :: "(db \<Rightarrow> db \<Rightarrow> bool) \<Rightarrow> 'a dbm \<Rightarrow> bool" where
  "keeps R m \<longleftrightarrow> (\<forall>d. R d (snd (m d)))"

lemma keepsD: "keeps R m \<Longrightarrow> m d = (r, d') \<Longrightarrow> R d d'"
  by (metis keeps_def snd_conv)

locale db_relation =
  fixes R :: "db \<Rightarrow> db \<Rightarrow> bool"
  assumes faults_irrelevant: "R (d\<lparr>faults := fs\<rparr>) (d'\<lparr>faults := gs\<rparr>) = R d d'"
    and R_refl: "R d d"
    and R_trans: "R a b \<Longrightarrow> R b c \<Longrightarrow> R a c"
begin

lemma faults_right: "R d (d'\<lparr>faults := gs\<rparr>) = R d d'"
  using faults_irrelevant [where d = d and fs = "faults d" and d' = d' and gs = gs] by simp

lemma faults_left: "R (d\<lparr>faults := fs\<rparr>) d' = R d d'"
  using faults_irrelevant [where d = d and fs = fs and d' = d' and gs = "faults d'"] by simp

lemma same_tables_R: "same_tables d d' \<Longrightarrow> R d d'"
  by (metis R_refl faults_irrelevant same_tables_def)

lemma keeps_ret: "keeps R (db_ret a)"
  by (simp add: keeps_def db_ret_def R_refl)

lemma keeps_fail: "keeps R (db_fail e)"
  by (simp add: keeps_def db_fail_def R_refl)

lemma keeps_sql:
  assumes "\<And>d. R d (snd (f d))"
  shows "keeps R (sql f)"
proof (unfold keeps_def, rule allI)
  fix d
  obtain r d' where e: "sql f d = (r, d')" by (cases "sql f d")
  then show "R d (snd (sql f d))"
  proof (cases rule: sql_elim)
    case (error x fs)
    with e show ?thesis by (simp add: faults_right R_refl)
  next
    case (ok a fs)
    with assms [of "d\<lparr>faults := fs\<rparr>"] e show ?thesis by (simp add: faults_left)
  qed
qed

lemma keeps_query: "keeps R (query q)"
  unfolding query_def by (rule keeps_sql) (simp add: R_refl)

lemma keeps_then:
  assumes "keeps R m" and "\<And>a. keeps R (k a)"
  shows "keeps R (db_then m k)"
proof (unfold keeps_def, rule allI)
  fix d
  obtain r d' where e: "db_then m k d = (r, d')" by (cases "db_then m k d")
  then show "R d (snd (db_then m k d))"
  proof (cases rule: db_then_elim)
    case (error x)
    with assms(1) e show ?thesis by (auto dest: keepsD)
  next
    case (ok a d1)
    from ok(1) have "R d d1" by (rule keepsD [OF assms(1)])
    moreover from ok(2) have "R d1 d'" by (rule keepsD [OF assms(2)])
    ultimately show ?thesis using e R_trans by auto
  qed
qed

lemma keeps_tx:
  assumes "keeps R m"
  shows "keeps R (in_tx m)"
proof (unfold keeps_def, rule allI)
  fix d
  obtain r d' where e: "in_tx m d = (r, d')" by (cases "in_tx m d")
  then show "R d (snd (in_tx m d))"
  proof (cases rule: in_tx_elim)
    case (error x fs)
    with e show ?thesis by (simp add: faults_right R_refl)
  next
    case (ok a fs d1 fs')
    then have "R (d\<lparr>faults := fs\<rparr>) d1" by (metis assms keepsD)
    with ok e show ?thesis by (simp add: faults_left faults_right)
  qed
qed

lemma keeps_update:
  assumes "\<And>d. R d (d\<lparr>tbl_runs := update_where P f (tbl_runs d)\<rparr>)"
  shows "keeps R (exec_update P f)" and "keeps R (change P f)"
  unfolding exec_update_def change_def
  by (auto intro!: keeps_then keeps_sql keeps_ret simp: update_rows_def assms)

lemmas keeps_intros = keeps_ret keeps_fail keeps_query keeps_then keeps_tx

end

text \<open>An invariant of the tables is the relation that keeps it.\<close>

locale db_invariant =
  fixes I :: "db \<Rightarrow> bool"
  assumes inv_faults: "I (d\<lparr>faults := fs\<rparr>) = I d"

sublocale db_invariant \<subseteq> kept: db_relation "\<lambda>d d'. I d \<longrightarrow> I d'"
  by unfold_locales (auto simp: inv_faults)

section \<open>Well-formed tables\<close>

text \<open>Ids grow from row to row, are positive, and never exceed the sequence.\<close>

definition db_wf :: "db \<Rightarrow> bool" where
  "db_wf d \<longleftrightarrow> sorted_wrt (<) (map c_id (tbl_runs d)) \<and> 0 \<le> tbl_seq d
     \<and> (\<forall>r \<in> set (tbl_runs d). 0 < c_id r \<and> c_id r \<le> tbl_seq d)"

interpretation wf: db_invariant db_wf
  by unfold_locales (simp add: db_wf_def)

lemma db_wf_distinct: "db_wf d \<Longrightarrow> distinct (map c_id (tbl_runs d))"
  by (simp add: db_wf_def strict_sorted_iff)

lemma db_wf_sorted: "db_wf d \<Longrightarrow> sorted (map c_id (tbl_runs d))"
  by (simp add: db_wf_def strict_sorted_imp_sorted)

lemma db_wf_same_tables: "same_tables d d' \<Longrightarrow> db_wf d \<Longrightarrow> db_wf d'"
  using wf.kept.same_tables_R by blast

text \<open>In a well-formed table, \<open>ORDER BY id\<close> is the order of the rows.\<close>

lemma rows_by_id_eq: "db_wf d \<Longrightarrow> rows_by_id P d = filter P (tbl_runs d)"
  by (simp add: rows_by_id_def sort_key_sorted sorted_map_filter db_wf_sorted)

lemma rows_by_id_set: "set (rows_by_id P d) = {r \<in> set (tbl_runs d). P r}"
  by (auto simp: rows_by_id_def)

lemma rows_by_id_faults [simp]: "rows_by_id P (d\<lparr>faults := fs\<rparr>) = rows_by_id P d"
  by (simp add: rows_by_id_def)

lemma wf_insert_row: "db_wf d \<Longrightarrow> db_wf (snd (insert_row r d))"
  by (fastforce simp: db_wf_def insert_row_def Let_def sorted_wrt_append)

lemma wf_update_where:
  "(\<And>r. c_id (f r) = c_id r) \<Longrightarrow> db_wf d \<Longrightarrow> db_wf (d\<lparr>tbl_runs := update_where P f (tbl_runs d)\<rparr>)"
  by (auto simp: db_wf_def map_update_where set_update_where)

lemma wf_filter: "db_wf d \<Longrightarrow> db_wf (d\<lparr>tbl_runs := filter P (tbl_runs d)\<rparr>)"
  by (auto simp: db_wf_def sorted_wrt_map sorted_wrt_filter)

lemma find_row_Some: "find_row i d = Some r \<Longrightarrow> r \<in> set (tbl_runs d) \<and> c_id r = i"
  by (auto simp: find_row_def dest: find_Some_set)

lemma find_row_wf: "db_wf d \<Longrightarrow> r \<in> set (tbl_runs d) \<Longrightarrow> find_row (c_id r) d = Some r"
  unfolding find_row_def by (rule find_distinct) (simp_all add: db_wf_distinct)

lemma find_row_seq: "db_wf d \<Longrightarrow> find_row i d = Some r \<Longrightarrow> 0 < i \<and> i \<le> tbl_seq d"
  by (auto simp: db_wf_def dest: find_row_Some)

lemma find_row_update:
  assumes "\<And>r. c_id (f r) = c_id r"
  shows "find_row i (d\<lparr>tbl_runs := update_where P f (tbl_runs d)\<rparr>)
    = map_option (\<lambda>r. if P r then f r else r) (find_row i d)"
  by (simp add: find_row_def find_update_where assms)

lemma find_row_updated:
  assumes "tbl_runs d' = update_where (\<lambda>c. c_id c = i) f (tbl_runs d)" and "\<And>r. c_id (f r) = c_id r"
  shows "find_row j d' = (if j = i then map_option f (find_row j d) else find_row j d)"
proof -
  have "find_row j d' = map_option (\<lambda>r. if c_id r = i then f r else r) (find_row j d)"
    using assms by (simp add: find_row_def find_update_where)
  then show ?thesis
    by (cases "find_row j d") (auto dest: find_row_Some)
qed

lemma find_row_faults [simp]: "find_row i (d\<lparr>faults := fs\<rparr>) = find_row i d"
  by (simp add: find_row_def)

lemma find_row_insert:
  assumes "db_wf d"
  shows "find_row i (snd (insert_row r d)) =
    (if i = tbl_seq d + 1 then Some (r\<lparr>c_id := i\<rparr>) else find_row i d)"
proof -
  have "find (\<lambda>r. c_id r = tbl_seq d + 1) (tbl_runs d) = None"
    using assms by (fastforce simp: find_None db_wf_def)
  then show ?thesis
    by (auto simp: find_row_def insert_row_def Let_def find_append split: option.splits)
qed

section \<open>Evolution of rows\<close>

text \<open>
  What no operation of the store ever does to a row: change what identifies the firing,
  put it back into the queue, or forget that after triggers have seen it.
\<close>

definition row_evolves :: "row \<Rightarrow> row \<Rightarrow> bool" where
  "row_evolves r r' \<longleftrightarrow>
     c_id r' = c_id r \<and> c_request_id r' = c_request_id r \<and> c_event r' = c_event r
     \<and> c_trigger r' = c_trigger r \<and> c_trigger_id r' = c_trigger_id r \<and> c_source r' = c_source r
     \<and> c_payload r' = c_payload r \<and> c_attempt r' = c_attempt r \<and> c_retry_of r' = c_retry_of r
     \<and> c_created_at r' = c_created_at r \<and> c_not_before r' = c_not_before r
     \<and> (c_status r' = StatusQueued \<longrightarrow> c_status r = StatusQueued)
     \<and> (c_followed r \<longrightarrow> c_followed r')"

lemma row_evolves_refl [simp, intro]: "row_evolves r r"
  by (simp add: row_evolves_def)

lemma row_evolves_trans: "row_evolves a b \<Longrightarrow> row_evolves b c \<Longrightarrow> row_evolves a c"
  by (auto simp: row_evolves_def)

definition evolves :: "db \<Rightarrow> db \<Rightarrow> bool" where
  "evolves d d' \<longleftrightarrow> tbl_seq d \<le> tbl_seq d' \<and>
     (\<forall>r' \<in> set (tbl_runs d'). c_id r' \<le> tbl_seq d \<longrightarrow> (\<exists>r \<in> set (tbl_runs d). row_evolves r r'))"

lemma evolves_trans:
  assumes ab: "evolves a b" and bc: "evolves b c"
  shows "evolves a c"
proof -
  have "\<exists>r \<in> set (tbl_runs a). row_evolves r r''"
    if "r'' \<in> set (tbl_runs c)" "c_id r'' \<le> tbl_seq a" for r''
  proof -
    from that ab bc obtain r' where r': "r' \<in> set (tbl_runs b)" "row_evolves r' r''"
      by (force simp: evolves_def)
    with that have "c_id r' \<le> tbl_seq a" by (simp add: row_evolves_def)
    with ab r' obtain r where "r \<in> set (tbl_runs a)" "row_evolves r r'"
      by (auto simp: evolves_def)
    with r' show ?thesis by (blast intro: row_evolves_trans)
  qed
  with ab bc show ?thesis by (auto simp: evolves_def)
qed

interpretation evo: db_relation evolves
proof unfold_locales
  show "evolves (d\<lparr>faults := fs\<rparr>) (d'\<lparr>faults := gs\<rparr>) = evolves d d'" for d fs d' gs
    by (simp add: evolves_def)
  show "evolves d d" for d by (auto simp: evolves_def)
  show "evolves a b \<Longrightarrow> evolves b c \<Longrightarrow> evolves a c" for a b c by (rule evolves_trans)
qed

lemma evolves_update:
  assumes "\<And>r. P r \<Longrightarrow> row_evolves r (f r)"
  shows "evolves d (d\<lparr>tbl_runs := update_where P f (tbl_runs d)\<rparr>)"
  using assms by (auto simp: evolves_def set_update_where)

lemma evolves_insert: "evolves d (snd (insert_row r d))"
  by (auto simp: evolves_def insert_row_def Let_def)

lemma evolves_filter: "evolves d (d\<lparr>tbl_runs := filter P (tbl_runs d)\<rparr>)"
  by (auto simp: evolves_def)

end
