(* ===== verification/StoreProps.thy ===== *)
theory StoreProps
  imports StoreLaws
begin

text \<open>
  The operations of the store, one by one: each keeps the tables well-formed and lets rows
  only evolve, and each has its functional behaviour on every branch. \<open>store_op\<close> and
  \<open>run_ops\<close> describe what any number of processes do to one database: a sequence of
  operations, each with its own outcome of statements.
\<close>

section \<open>Well-formedness and evolution, operation by operation\<close>

lemma wf_insertRun: "keeps (\<lambda>d d'. db_wf d \<longrightarrow> db_wf d') (insertRun now r m)"
  unfolding insertRun_def Let_def
  by (intro wf.kept.keeps_intros) (auto intro!: wf.kept.keeps_intros wf.kept.keeps_sql wf_insert_row)

lemma evo_insertRun: "keeps evolves (insertRun now r m)"
  unfolding insertRun_def Let_def
  by (intro evo.keeps_intros) (auto intro!: evo.keeps_intros evo.keeps_sql evolves_insert)

lemma wf_insert_runs: "keeps (\<lambda>d d'. db_wf d \<longrightarrow> db_wf d') (insert_runs now rs)"
  by (induction rs rule: insert_runs.induct) (auto intro!: wf.kept.keeps_intros wf_insertRun)

lemma evo_insert_runs: "keeps evolves (insert_runs now rs)"
  by (induction rs rule: insert_runs.induct) (auto intro!: evo.keeps_intros evo_insertRun)

lemma wf_exec_update:
  "(\<And>r. c_id (f r) = c_id r) \<Longrightarrow> keeps (\<lambda>d d'. db_wf d \<longrightarrow> db_wf d') (exec_update P f)"
  "(\<And>r. c_id (f r) = c_id r) \<Longrightarrow> keeps (\<lambda>d d'. db_wf d \<longrightarrow> db_wf d') (change P f)"
  by (intro wf.kept.keeps_update impI wf_update_where; assumption)+

lemma evo_exec_update:
  "(\<And>r. P r \<Longrightarrow> row_evolves r (f r)) \<Longrightarrow> keeps evolves (exec_update P f)"
  "(\<And>r. P r \<Longrightarrow> row_evolves r (f r)) \<Longrightarrow> keeps evolves (change P f)"
  by (intro evo.keeps_update evolves_update; assumption)+

lemmas wf_ops_intros = wf.kept.keeps_intros wf_exec_update wf_insertRun wf_insert_runs
lemmas evo_ops_intros = evo.keeps_intros evo_exec_update evo_insertRun evo_insert_runs

lemma wf_cancel_one: "keeps (\<lambda>d d'. db_wf d \<longrightarrow> db_wf d') (cancel_one now r)"
  unfolding cancel_one_def by (auto split: status.split intro!: wf_ops_intros)

lemma evo_cancel_one: "keeps evolves (cancel_one now r)"
  unfolding cancel_one_def by (auto split: status.split intro!: evo_ops_intros simp: row_evolves_def)

lemma wf_cancel_all: "keeps (\<lambda>d d'. db_wf d \<longrightarrow> db_wf d') (cancel_all now rs)"
  by (induction rs rule: cancel_all.induct) (auto intro!: wf.kept.keeps_intros wf_cancel_one)

lemma evo_cancel_all: "keeps evolves (cancel_all now rs)"
  by (induction rs rule: cancel_all.induct) (auto intro!: evo.keeps_intros evo_cancel_one)

abbreviation keeps_wf :: "'a dbm \<Rightarrow> bool" where
  "keeps_wf \<equiv> keeps (\<lambda>d d'. db_wf d \<longrightarrow> db_wf d')"

lemma wf_other_tables [simp]:
  "db_wf (d\<lparr>tbl_agent := a\<rparr>) = db_wf d" "db_wf (d\<lparr>tbl_cron := c\<rparr>) = db_wf d"
  by (simp_all add: db_wf_def)

lemma evolves_other_tables [simp]:
  "evolves d (d\<lparr>tbl_agent := a\<rparr>)" "evolves d (d\<lparr>tbl_cron := c\<rparr>)"
  by (auto simp: evolves_def)

text \<open>Every method that writes keeps the tables well-formed.\<close>

lemma wf_ops [inv_intros]:
  "keeps_wf (Enqueue now r m)"
  "keeps_wf (Follow now i rs)"
  "keeps_wf (StartRun i now)"
  "keeps_wf (FinishRun now i f)"
  "keeps_wf (Settle now i st reason detail)"
  "keeps_wf (AddSkipped i)"
  "keeps_wf (RequestCancel now i)"
  "keeps_wf (RequestCancelEvent now e)"
  "keeps_wf (Retry now r pl reason)"
  "keeps_wf (Abandon now i reason)"
  "keeps_wf (Prune now)"
  "keeps_wf (Heartbeat now ag)"
  "keeps_wf (AgentStopped now)"
  "keeps_wf (SetLastCron key now)"
  unfolding Enqueue_def Follow_def StartRun_def FinishRun_def Settle_def AddSkipped_def
    RequestCancel_def RequestCancelEvent_def Retry_def Abandon_def Prune_def Heartbeat_def
    AgentStopped_def SetLastCron_def
  by (auto intro!: wf_ops_intros wf_cancel_one wf_cancel_all wf.kept.keeps_sql wf_insert_row
      wf_filter split: option.split)

text \<open>Rows only evolve, as long as no caller asks to finish or settle a run as queued.\<close>

lemma evo_ops [inv_intros]:
  "keeps evolves (Enqueue now r m)"
  "keeps evolves (Follow now i rs)"
  "keeps evolves (StartRun i now)"
  "fin_status f \<noteq> StatusQueued \<Longrightarrow> keeps evolves (FinishRun now i f)"
  "st \<noteq> StatusQueued \<Longrightarrow> keeps evolves (Settle now i st reason detail)"
  "keeps evolves (AddSkipped i)"
  "keeps evolves (RequestCancel now i)"
  "keeps evolves (RequestCancelEvent now e)"
  "keeps evolves (Retry now r pl reason)"
  "keeps evolves (Abandon now i reason)"
  "keeps evolves (Prune now)"
  "keeps evolves (Heartbeat now ag)"
  "keeps evolves (AgentStopped now)"
  "keeps evolves (SetLastCron key now)"
  unfolding Enqueue_def Follow_def StartRun_def FinishRun_def Settle_def AddSkipped_def
    RequestCancel_def RequestCancelEvent_def Retry_def Abandon_def Prune_def Heartbeat_def
    AgentStopped_def SetLastCron_def
  by (auto intro!: evo_ops_intros evo_cancel_one evo_cancel_all evo.keeps_sql evolves_insert
      evolves_filter simp: row_evolves_def split: option.split)

section \<open>Sequences of operations\<close>

datatype store_op =
    OpEnqueue gotime run int
  | OpFollow gotime int "(run \<times> int) list"
  | OpStartRun int gotime
  | OpFinishRun gotime int finish
  | OpSettle gotime int status string string
  | OpAddSkipped int
  | OpRequestCancel gotime int
  | OpRequestCancelEvent gotime string
  | OpRetry gotime run payload string
  | OpAbandon gotime int string
  | OpPrune gotime
  | OpHeartbeat gotime agent
  | OpAgentStopped gotime
  | OpSetLastCron string gotime
  | OpFaults "db_error option list"

text \<open>The id that the operation started, if any, and the tables after it.\<close>

definition quiet :: "'a dbm \<Rightarrow> db \<Rightarrow> int list \<times> db" where
  "quiet m d = ([], snd (m d))"

fun run_op :: "store_op \<Rightarrow> db \<Rightarrow> int list \<times> db" where
  "run_op (OpEnqueue now r m) d = quiet (Enqueue now r m) d"
| "run_op (OpFollow now i rs) d = quiet (Follow now i rs) d"
| "run_op (OpStartRun i at) d =
     (case StartRun i at d of (r, d') \<Rightarrow> (if r = Inr True then [i] else [], d'))"
| "run_op (OpFinishRun now i f) d = quiet (FinishRun now i f) d"
| "run_op (OpSettle now i st reason detail) d = quiet (Settle now i st reason detail) d"
| "run_op (OpAddSkipped i) d = quiet (AddSkipped i) d"
| "run_op (OpRequestCancel now i) d = quiet (RequestCancel now i) d"
| "run_op (OpRequestCancelEvent now e) d = quiet (RequestCancelEvent now e) d"
| "run_op (OpRetry now r p reason) d = quiet (Retry now r p reason) d"
| "run_op (OpAbandon now i reason) d = quiet (Abandon now i reason) d"
| "run_op (OpPrune before) d = quiet (Prune before) d"
| "run_op (OpHeartbeat now a) d = quiet (Heartbeat now a) d"
| "run_op (OpAgentStopped now) d = quiet (AgentStopped now) d"
| "run_op (OpSetLastCron key at) d = quiet (SetLastCron key at) d"
| "run_op (OpFaults fs) d = ([], d\<lparr>faults := fs\<rparr>)"

text \<open>The statuses that the callers of \<open>FinishRun\<close> and \<open>Settle\<close> pass are never queued.\<close>

fun op_ok :: "store_op \<Rightarrow> bool" where
  "op_ok (OpFinishRun now i f) = (fin_status f \<noteq> StatusQueued)"
| "op_ok (OpSettle now i st reason detail) = (st \<noteq> StatusQueued)"
| "op_ok _ = True"

fun run_ops :: "store_op list \<Rightarrow> db \<Rightarrow> int list \<times> db" where
  "run_ops [] d = ([], d)"
| "run_ops (x # xs) d =
     (case run_op x d of (s, d1) \<Rightarrow> case run_ops xs d1 of (ss, d2) \<Rightarrow> (s @ ss, d2))"

lemma quiet_wf: "keeps_wf m \<Longrightarrow> db_wf d \<Longrightarrow> db_wf (snd (quiet m d))"
  by (auto simp: quiet_def keeps_def)

lemma quiet_evo: "keeps evolves m \<Longrightarrow> evolves d (snd (quiet m d))"
  by (auto simp: quiet_def keeps_def)

lemma run_op_start: "snd (run_op (OpStartRun i at) d) = snd (StartRun i at d)"
  by (simp split: prod.split)

lemma wf_run_op: "db_wf d \<Longrightarrow> db_wf (snd (run_op x d))"
  using wf_ops(3) by (cases x)
    (auto intro: quiet_wf inv_intros simp: wf.inv_faults run_op_start keeps_def simp del: run_op.simps(3))

lemma evo_run_op: "op_ok x \<Longrightarrow> evolves d (snd (run_op x d))"
  using evo_ops(3) by (cases x)
    (auto intro: quiet_evo inv_intros simp: evo.faults_right evo.R_refl run_op_start keeps_def
      simp del: run_op.simps(3))

lemma run_ops_snd: "snd (run_ops (x # xs) d) = snd (run_ops xs (snd (run_op x d)))"
  by (simp split: prod.split)

lemma wf_run_ops: "db_wf d \<Longrightarrow> db_wf (snd (run_ops xs d))"
  by (induction xs arbitrary: d) (simp_all add: run_ops_snd wf_run_op del: run_ops.simps(2))

lemma evo_run_ops: "list_all op_ok xs \<Longrightarrow> evolves d (snd (run_ops xs d))"
proof (induction xs arbitrary: d)
  case (Cons x xs)
  then have "evolves d (snd (run_op x d))" "evolves (snd (run_op x d)) (snd (run_ops xs (snd (run_op x d))))"
    by (auto intro: evo_run_op)
  then show ?case unfolding run_ops_snd by (rule evolves_trans)
qed (simp add: evo.R_refl)

section \<open>A run starts at most once\<close>

text \<open>A run that has left the queue, or was never in it, stays out of it.\<close>

definition left_queue :: "int \<Rightarrow> db \<Rightarrow> bool" where
  "left_queue i d \<longleftrightarrow> i \<le> tbl_seq d \<and> (\<forall>r \<in> set (tbl_runs d). c_id r = i \<longrightarrow> c_status r \<noteq> StatusQueued)"

lemma left_queue_evolves: "evolves d d' \<Longrightarrow> left_queue i d \<Longrightarrow> left_queue i d'"
  by (fastforce simp: evolves_def left_queue_def row_evolves_def)

lemma StartRun_True:
  assumes "StartRun i at d = (Inr True, d')" and "db_wf d"
  shows "\<not> left_queue i d" and "left_queue i d'"
proof -
  from assms(1) have ex: "length (filter (\<lambda>r. c_id r = i \<and> c_status r = StatusQueued) (tbl_runs d)) = 1"
    and d': "tbl_runs d' = update_where (\<lambda>r. c_id r = i \<and> c_status r = StatusQueued)
        (\<lambda>r. r\<lparr>c_status := StatusRunning, c_started_at := Some (UnixMilli at)\<rparr>) (tbl_runs d)"
      "tbl_seq d' = tbl_seq d"
    unfolding StartRun_def by (auto elim: change_elim)
  from ex obtain r where r: "r \<in> set (tbl_runs d)" "c_id r = i" "c_status r = StatusQueued"
    by (cases "filter (\<lambda>r. c_id r = i \<and> c_status r = StatusQueued) (tbl_runs d) = []")
      (auto simp: filter_empty_conv)
  then show "\<not> left_queue i d" by (auto simp: left_queue_def)
  from r assms(2) have "i \<le> tbl_seq d" by (auto simp: db_wf_def)
  then show "left_queue i d'"
    unfolding left_queue_def d' ball_update_where by simp
qed

lemma run_op_started:
  assumes "run_op x d = (s, d')" and "db_wf d" and "i \<in> set s"
  shows "s = [i]" and "\<not> left_queue i d" and "left_queue i d'"
proof -
  from assms(1,3) obtain at where "x = OpStartRun i at" "StartRun i at d = (Inr True, d')" "s = [i]"
    by (cases x) (auto simp: quiet_def split: prod.splits if_splits)
  with assms(2) StartRun_True show "s = [i]" "\<not> left_queue i d" "left_queue i d'" by auto
qed

lemma run_op_distinct: "run_op x d = (s, d') \<Longrightarrow> distinct s"
  by (cases x) (auto simp: quiet_def split: prod.splits if_splits)

lemma run_ops_started:
  assumes "list_all op_ok xs" and "db_wf d"
  shows "distinct (fst (run_ops xs d)) \<and> (\<forall>i \<in> set (fst (run_ops xs d)). \<not> left_queue i d)"
  using assms
proof (induction xs arbitrary: d)
  case (Cons x xs)
  obtain s d1 where x: "run_op x d = (s, d1)" by (cases "run_op x d")
  obtain ss d2 where xs: "run_ops xs d1 = (ss, d2)" by (cases "run_ops xs d1")
  from Cons.prems x have d1: "db_wf d1" "evolves d d1"
    using wf_run_op [of d x] evo_run_op [of x d] by simp_all
  with Cons xs have ss: "distinct ss" "\<forall>i \<in> set ss. \<not> left_queue i d1" by fastforce+
  with d1 have "\<forall>i \<in> set ss. \<not> left_queue i d" by (blast intro: left_queue_evolves)
  moreover have "\<forall>i \<in> set s. \<not> left_queue i d \<and> left_queue i d1"
    using run_op_started [OF x] Cons.prems by blast
  ultimately show ?case using ss x xs run_op_distinct [OF x] by auto
qed simp

end
