(* ===== verification/StoreSpecs.thy ===== *)
theory StoreSpecs
  imports StoreProps
begin

text \<open>
  Functional behaviour of the store on every branch, and the properties of the store:
  enqueueing under a backlog limit, handing ended runs to after triggers in one transaction,
  canceling, retrying, pruning, and upgrading the schema.
\<close>

section \<open>Inserting runs\<close>

definition full_for :: "run \<Rightarrow> int \<Rightarrow> db \<Rightarrow> bool" where
  "full_for r m d \<longleftrightarrow> m > 0 \<and> count_queued (run_event r) d \<ge> m"

definition enqueued_row :: "gotime \<Rightarrow> run \<Rightarrow> bool \<Rightarrow> row" where
  "enqueued_row now r full =
     fresh_row r (run_payload r) (if full then StatusDropped else StatusQueued)
       (if full then ''queue_full'' else []) (if run_attempt r = 0 then 1 else run_attempt r)
       (nullID (run_retry_of r)) (UnixMilli (if IsZero (run_created_at r) then now else run_created_at r))
       (if full then Some (UnixMilli now) else None)
       (if IsZero (run_not_before r) then None else Some (UnixMilli (run_not_before r)))"

lemma count_queued_faults [simp]: "count_queued e (d\<lparr>faults := fs\<rparr>) = count_queued e d"
  by (simp add: count_queued_def)

lemma insert_row_faults:
  "insert_row r (d\<lparr>faults := fs\<rparr>) = (tbl_seq d + 1, (snd (insert_row r d))\<lparr>faults := fs\<rparr>)"
  by (simp add: insert_row_def Let_def)

lemma insertRun_elim [consumes 1, case_names error ok]:
  assumes "insertRun now r m d = (res, d')"
  obtains e fs where "res = Inl e" "d' = d\<lparr>faults := fs\<rparr>"
  | fs where "res = Inr (tbl_seq d + 1, full_for r m d)"
      "d' = (snd (insert_row (enqueued_row now r (full_for r m d)) d))\<lparr>faults := fs\<rparr>"
proof -
  have count: "(\<exists>e fs. x = Inl e \<and> d1 = d\<lparr>faults := fs\<rparr>) \<or>
      (\<exists>fs n. x = Inr n \<and> d1 = d\<lparr>faults := fs\<rparr> \<and> (m > 0 \<longrightarrow> n = count_queued (run_event r) d))"
    if "(if m > 0 then query (count_queued (run_event r)) else db_ret 0) d = (x, d1)" for x d1
  proof (cases "m > 0")
    case True
    with that have "query (count_queued (run_event r)) d = (x, d1)" by simp
    then show ?thesis by (cases rule: query_elim) auto
  next
    case False
    with that have "x = Inr 0" "d1 = d\<lparr>faults := faults d\<rparr>" by (auto simp: db_ret_def)
    with False show ?thesis by blast
  qed
  have tail: "(\<exists>e gs. res = Inl e \<and> d' = d\<lparr>faults := gs\<rparr>) \<or>
      (\<exists>gs. res = Inr (tbl_seq d + 1, full) \<and> d' = (snd (insert_row row d))\<lparr>faults := gs\<rparr>)"
    if "db_then (sql (insert_row row)) (\<lambda>i. db_ret (i, full)) (d\<lparr>faults := fs\<rparr>) = (res, d')"
    for row full fs
    using that
    by (auto simp: insert_row_faults db_ret_def elim!: db_then_elim dest!: sql_Inr sql_Inl)
  from assms show ?thesis
    unfolding insertRun_def Let_def
  proof (cases rule: db_then_elim)
    case (error e)
    then show ?thesis using that(1) by (auto dest: count)
  next
    case (ok n d1)
    from count [OF ok(1)] obtain fs where d1: "d1 = d\<lparr>faults := fs\<rparr>"
      and n: "m > 0 \<longrightarrow> n = count_queued (run_event r) d" by auto
    then have full: "(m > 0 \<and> n \<ge> m) = full_for r m d" by (auto simp: full_for_def)
    have row: "(if full_for r m d
        then fresh_row r (run_payload r) StatusDropped ''queue_full''
          (if run_attempt r = 0 then 1 else run_attempt r) (nullID (run_retry_of r))
          (UnixMilli (if IsZero (run_created_at r) then now else run_created_at r))
          (Some (UnixMilli now)) (if IsZero (run_not_before r) then None else Some (UnixMilli (run_not_before r)))
        else fresh_row r (run_payload r) StatusQueued []
          (if run_attempt r = 0 then 1 else run_attempt r) (nullID (run_retry_of r))
          (UnixMilli (if IsZero (run_created_at r) then now else run_created_at r)) None
          (if IsZero (run_not_before r) then None else Some (UnixMilli (run_not_before r))))
      = enqueued_row now r (full_for r m d)"
      by (simp add: enqueued_row_def)
    from ok(2) show ?thesis
      unfolding full row d1 using that by (blast dest: tail)
  qed
qed

lemma Enqueue_elim [consumes 1, case_names error ok]:
  assumes "Enqueue now r m d = (res, d')"
  obtains e fs where "res = Inl e" "d' = d\<lparr>faults := fs\<rparr>"
  | fs where "res = Inr (tbl_seq d + 1, full_for r m d)"
      "d' = (snd (insert_row (enqueued_row now r (full_for r m d)) d))\<lparr>faults := fs\<rparr>"
proof -
  have full: "full_for r m (d\<lparr>faults := fs\<rparr>) = full_for r m d" for fs
    by (simp add: full_for_def)
  from assms have "in_tx (insertRun now r m) d = (res, d')" by (simp add: Enqueue_def)
  then show ?thesis
  proof (cases rule: in_tx_elim)
    case (error e fs)
    then show ?thesis by (rule that(1))
  next
    case (ok a fs d1 fs')
    from ok(2) show ?thesis
      by (cases rule: insertRun_elim) (use ok that(2) in \<open>auto simp: full insert_row_faults\<close>)
  qed
qed

lemma count_queued_insert:
  "count_queued e (snd (insert_row r d)) = count_queued e d + (if queued_of e r then 1 else 0)"
  by (simp add: count_queued_def insert_row_def Let_def queued_of_def)

lemma queued_of_enqueued_row [simp]:
  "queued_of e (enqueued_row now r full) \<longleftrightarrow> \<not> full \<and> run_event r = e"
  by (auto simp: queued_of_def enqueued_row_def fresh_row_def)

lemma enqueued_row_fields [simp]:
  "c_event (enqueued_row now r full) = run_event r"
  "c_request_id (enqueued_row now r full) = run_request_id r"
  "c_payload (enqueued_row now r full) = run_payload r"
  "c_trigger (enqueued_row now r full) = run_trigger r"
  "c_status (enqueued_row now r full) = (if full then StatusDropped else StatusQueued)"
  "c_attempt (enqueued_row now r full) = (if run_attempt r = 0 then 1 else run_attempt r)"
  "c_followed (enqueued_row now r full) = False"
  by (simp_all add: enqueued_row_def fresh_row_def)

section \<open>Handing a run to after triggers\<close>

definition row_for :: "run \<Rightarrow> bool \<Rightarrow> row \<Rightarrow> bool" where
  "row_for r dropped c \<longleftrightarrow> c_request_id c = run_request_id r \<and> c_event c = run_event r
     \<and> c_payload c = run_payload r \<and> c_trigger c = run_trigger r \<and> \<not> c_followed c
     \<and> c_status c = (if dropped then StatusDropped else StatusQueued)"

lemma insert_runs_Inr:
  assumes "insert_runs now rs d = (Inr ids, d')"
  shows "\<exists>new fs. d' = d\<lparr>tbl_runs := tbl_runs d @ new, tbl_seq := tbl_seq d + int (length rs), faults := fs\<rparr>
    \<and> map c_id new = map fst ids \<and> map fst ids = [tbl_seq d + 1 .. tbl_seq d + int (length rs)]
    \<and> list_all2 (\<lambda>((r, m), dropped) c. row_for r dropped c) (zip rs (map snd ids)) new
    \<and> length ids = length rs"
  using assms
proof (induction rs arbitrary: d ids)
  case Nil
  then have "ids = []" "d' = d" by (auto simp: db_ret_def)
  then show ?case by (intro exI [of _ "[]"] exI [of _ "faults d"]) simp
next
  case (Cons rm rs)
  obtain r m where rm: "rm = (r, m)" by (cases rm)
  from Cons.prems obtain x d1 xs where x: "insertRun now r m d = (Inr x, d1)"
    and xs: "insert_runs now rs d1 = (Inr xs, d')" and ids: "ids = x # xs"
    by (auto simp: rm db_ret_def dest!: db_then_Inr)
  define c where "c = (enqueued_row now r (full_for r m d))\<lparr>c_id := tbl_seq d + 1\<rparr>"
  from x obtain fs where x': "x = (tbl_seq d + 1, full_for r m d)"
    and d1: "d1 = d\<lparr>tbl_runs := tbl_runs d @ [c], tbl_seq := tbl_seq d + 1, faults := fs\<rparr>"
    by (cases rule: insertRun_elim) (auto simp: insert_row_def Let_def c_def)
  from Cons.IH [OF xs] obtain new fs' where IH:
    "d' = d1\<lparr>tbl_runs := tbl_runs d1 @ new, tbl_seq := tbl_seq d1 + int (length rs), faults := fs'\<rparr>"
    "map c_id new = map fst xs" "map fst xs = [tbl_seq d1 + 1 .. tbl_seq d1 + int (length rs)]"
    "list_all2 (\<lambda>((r, m), dropped) c. row_for r dropped c) (zip rs (map snd xs)) new"
    "length xs = length rs" by blast
  have c: "row_for r (full_for r m d) c" "c_id c = tbl_seq d + 1"
    by (simp_all add: row_for_def c_def)
  have "[tbl_seq d + 1 .. tbl_seq d + int (length (rm # rs))] =
      (tbl_seq d + 1) # [tbl_seq d + 1 + 1 .. tbl_seq d + 1 + int (length rs)]"
    by (subst upto_rec1) (simp_all add: algebra_simps)
  with IH d1 c x' ids rm show ?case
    by (intro exI [of _ "c # new"] exI [of _ fs']) (simp add: algebra_simps)
qed

section \<open>Properties\<close>

text \<open>
  C8: Enqueue, for every outcome of its statements: an error leaves the tables as they were;
  otherwise the firing becomes one new row with the next id, recorded as dropped exactly when a
  limit is set and the event already has that many queued runs, so that a limited enqueue never
  takes the backlog of an event above the limit.
\<close>

theorem enqueue_behaviour:
  assumes "Enqueue now r m d = (res, d')"
  shows "case res of
      Inl e \<Rightarrow> same_tables d d'
    | Inr (i, dropped) \<Rightarrow> i = tbl_seq d + 1 \<and> tbl_seq d' = i
        \<and> dropped = (m > 0 \<and> count_queued (run_event r) d \<ge> m)
        \<and> tbl_runs d' = tbl_runs d @ [(enqueued_row now r dropped)\<lparr>c_id := i\<rparr>]
        \<and> count_queued (run_event r) d' = count_queued (run_event r) d + (if dropped then 0 else 1)
        \<and> (m > 0 \<longrightarrow> count_queued (run_event r) d' \<le> max m (count_queued (run_event r) d))"
  using assms
proof (cases rule: Enqueue_elim)
  case (ok fs)
  then show ?thesis
    by (auto simp: full_for_def count_queued_insert) (simp_all add: insert_row_def Let_def)
qed simp

text \<open>A new database, as \<open>Open\<close> leaves it, and firings for the witnesses.\<close>

definition empty_db :: db where
  "empty_db = \<lparr>tbl_runs = [], tbl_seq = 0, tbl_agent = None, tbl_cron = Map.empty,
     user_version = 5, data_version = 0, faults = []\<rparr>"

definition demo_event :: "string \<Rightarrow> event" where
  "demo_event name = zero_event\<lparr>ev_name := name, ev_request_id := ''r1'', ev_time := 0\<rparr>"

definition demo_firing :: "string \<Rightarrow> run" where
  "demo_firing name = new_run ''r1'' name KindManual ''manual'' [] (EventJson (demo_event name)) 0 zero_time"

definition demo_row :: "int \<Rightarrow> string \<Rightarrow> status \<Rightarrow> row" where
  "demo_row i name st = (fresh_row (demo_firing name) (EventJson (demo_event name)) st [] 1 None 0 None None)\<lparr>c_id := i\<rparr>"

definition demo_db :: "row list \<Rightarrow> db" where
  "demo_db rs = empty_db\<lparr>tbl_runs := rs, tbl_seq := int (length rs)\<rparr>"

lemmas demo_defs = empty_db_def demo_event_def demo_firing_def demo_row_def demo_db_def
  new_run_def fresh_row_def zero_event_def

lemmas store_evals = sql_def query_def db_then_def db_ret_def db_fail_def in_tx_def end_tx_def
  nothing_def exec_update_def change_def update_rows_def insertRun_def insert_row_def Let_def
  count_queued_def queued_of_def IsZero_def zero_time_def UnixMilli_def nullID_def

lemma demo_eval: "run_event (demo_firing name) = name" "count_queued name empty_db = 0"
    "count_queued name (demo_db [demo_row 1 name StatusQueued]) = 1"
  by (simp_all add: demo_defs count_queued_def queued_of_def)

theorem enqueue_behaviour_witness:
  "count_queued ''backup'' (snd (Enqueue 0 (demo_firing ''backup'') 1 empty_db)) = 1
   \<and> count_queued ''backup'' (snd (Enqueue 0 (demo_firing ''backup'') 1
        (demo_db [demo_row 1 ''backup'' StatusQueued]))) = 1"
proof
  have e: "Enqueue 0 (demo_firing ''backup'') 1 empty_db
      = (Inr (1, False), snd (Enqueue 0 (demo_firing ''backup'') 1 empty_db))"
    by (simp add: Enqueue_def store_evals demo_defs)
  from enqueue_behaviour [OF e] show "count_queued ''backup'' (snd (Enqueue 0 (demo_firing ''backup'') 1 empty_db)) = 1"
    by (simp add: demo_eval)
  let ?d = "demo_db [demo_row 1 ''backup'' StatusQueued]"
  have f: "Enqueue 0 (demo_firing ''backup'') 1 ?d
      = (Inr (2, True), snd (Enqueue 0 (demo_firing ''backup'') 1 ?d))"
    by (simp add: Enqueue_def store_evals demo_defs)
  from enqueue_behaviour [OF f] show "count_queued ''backup'' (snd (Enqueue 0 (demo_firing ''backup'') 1 ?d)) = 1"
    by (simp add: demo_eval)
qed

lemma Follow_Inr:
  assumes "Follow now i runs d = (Inr ids, d')"
  obtains new where "map c_id new = map fst ids"
    "map fst ids = [tbl_seq d + 1 .. tbl_seq d + int (length runs)]" "length ids = length runs"
    "list_all2 (\<lambda>((r, m), dropped) c. row_for r dropped c) (zip runs (map snd ids)) new"
    "tbl_runs d' = update_where (\<lambda>r. c_id r = i) (\<lambda>r. r\<lparr>c_followed := True\<rparr>) (tbl_runs d @ new)"
proof -
  from assms obtain fs d1 fs' where
    "db_then (insert_runs now runs) (\<lambda>ids.
       db_then (exec_update (\<lambda>r. c_id r = i) (\<lambda>r. r\<lparr>c_followed := True\<rparr>)) (\<lambda>u. db_ret ids))
       (d\<lparr>faults := fs\<rparr>) = (Inr ids, d1)" and d': "d' = d1\<lparr>faults := fs'\<rparr>"
    unfolding Follow_def by (auto dest!: in_tx_Inr)
  then obtain d2 where ins: "insert_runs now runs (d\<lparr>faults := fs\<rparr>) = (Inr ids, d2)"
    and upd: "tbl_runs d1 = update_where (\<lambda>r. c_id r = i) (\<lambda>r. r\<lparr>c_followed := True\<rparr>) (tbl_runs d2)"
    by (auto simp: db_ret_def dest!: db_then_Inr elim!: exec_update_elim)
  from insert_runs_Inr [OF ins] upd d' that show ?thesis by auto
qed

text \<open>
  C11: Follow hands a run to after triggers in one transaction, whatever fails: either no table
  changes, so that the next scan sees the run again, or every fired run is a new row, in order,
  and the run is marked as handed, so that no later scan returns it.
\<close>

theorem follow_atomic:
  assumes "Follow now i runs d = (res, d')"
  shows "case res of
      Inl e \<Rightarrow> same_tables d d'
    | Inr ids \<Rightarrow> (\<exists>new. map c_id new = map fst ids
        \<and> map fst ids = [tbl_seq d + 1 .. tbl_seq d + int (length runs)]
        \<and> list_all2 (\<lambda>((r, m), dropped) c. row_for r dropped c) (zip runs (map snd ids)) new
        \<and> tbl_runs d' = update_where (\<lambda>r. c_id r = i) (\<lambda>r. r\<lparr>c_followed := True\<rparr>) (tbl_runs d @ new)
        \<and> (\<forall>e fs. UnfollowedRuns (- 1) d' = (Inr e, fs) \<longrightarrow> i \<notin> en_id ` set e))"
proof (cases res)
  case (Inl e)
  with assms show ?thesis by (auto simp: Follow_def dest: in_tx_atomic)
next
  case (Inr ids)
  with assms obtain new where new: "map c_id new = map fst ids"
    "map fst ids = [tbl_seq d + 1 .. tbl_seq d + int (length runs)]" "length ids = length runs"
    "list_all2 (\<lambda>((r, m), dropped) c. row_for r dropped c) (zip runs (map snd ids)) new"
    "tbl_runs d' = update_where (\<lambda>r. c_id r = i) (\<lambda>r. r\<lparr>c_followed := True\<rparr>) (tbl_runs d @ new)"
    by (auto elim: Follow_Inr)
  have "\<forall>r \<in> set (tbl_runs d'). c_id r = i \<longrightarrow> c_followed r"
    unfolding new(5) by (simp only: ball_update_where) simp
  then have "\<forall>e fs. UnfollowedRuns (- 1) d' = (Inr e, fs) \<longrightarrow> i \<notin> en_id ` set e"
    unfolding UnfollowedRuns_def
    by (auto simp: sql_limit_def rows_by_id_set to_ended_def unfollowed_def elim!: query_elim)
  with new Inr show ?thesis by auto
qed

theorem follow_atomic_witness:
  "1 \<notin> en_id ` set (projr (fst (UnfollowedRuns (- 1)
     (snd (Follow 0 1 [(demo_firing ''notify'', 0)] (demo_db [demo_row 1 ''backup'' StatusFailed]))))))"
proof -
  let ?d = "demo_db [demo_row 1 ''backup'' StatusFailed]"
  let ?f = "Follow 0 1 [(demo_firing ''notify'', 0)] ?d"
  have e: "?f = (Inr [(2, False)], snd ?f)"
    by (simp add: Follow_def store_evals demo_defs)
  have u: "UnfollowedRuns (- 1) (snd ?f) = (Inr (projr (fst (UnfollowedRuns (- 1) (snd ?f)))), snd ?f)"
    by (simp add: Follow_def UnfollowedRuns_def store_evals demo_defs)
  from follow_atomic [OF e] u show ?thesis by auto
qed

section \<open>Canceling\<close>

lemma cancel_one_elim [consumes 1, case_names error queued running other]:
  assumes "cancel_one now r d = (res, d')"
  obtains e fs where "res = Inl e" "d' = d\<lparr>faults := fs\<rparr>"
  | fs where "run_status r = StatusQueued"
      "res = Inr (r\<lparr>run_status := StatusCanceled, run_reason := ''canceled_by_user'', run_finished_at := now\<rparr>)"
      "d' = d\<lparr>faults := fs, tbl_runs := update_where (\<lambda>c. c_id c = run_id r)
          (\<lambda>c. c\<lparr>c_status := StatusCanceled, c_reason := ''canceled_by_user'',
             c_finished_at := Some (UnixMilli now)\<rparr>) (tbl_runs d)\<rparr>"
  | fs where "run_status r = StatusRunning" "res = Inr (r\<lparr>run_cancel_requested := True\<rparr>)"
      "d' = d\<lparr>faults := fs, tbl_runs := update_where (\<lambda>c. c_id c = run_id r)
          (\<lambda>c. c\<lparr>c_cancel_requested := True\<rparr>) (tbl_runs d)\<rparr>"
  | "run_status r \<notin> {StatusQueued, StatusRunning}" "res = Inr r" "d' = d"
proof (cases "run_status r \<in> {StatusQueued, StatusRunning}")
  case False
  with assms that(4) show ?thesis by (cases "run_status r") (auto simp: cancel_one_def db_ret_def)
next
  case True
  then show ?thesis
  proof (cases "run_status r = StatusQueued")
    case True
    with assms show ?thesis
      by (auto simp: cancel_one_def db_ret_def elim!: db_then_elim exec_update_elim intro: that(1,2))
  next
    case False
    with True have "run_status r = StatusRunning" by simp
    with assms show ?thesis
      by (auto simp: cancel_one_def db_ret_def elim!: db_then_elim exec_update_elim intro: that(1,3))
  qed
qed

lemma scanRun_fields [simp]:
  "run_id (scanRun c) = c_id c" "run_event (scanRun c) = c_event c"
  "run_status (scanRun c) = c_status c" "run_request_id (scanRun c) = c_request_id c"
  "run_attempt (scanRun c) = c_attempt c" "run_payload (scanRun c) = c_payload c"
  "run_trigger (scanRun c) = c_trigger c" "run_cancel_requested (scanRun c) = c_cancel_requested c"
  by (simp_all add: scanRun_def)



section \<open>Reruns of interrupted runs\<close>

text \<open>
  Retry of an interrupted run, for every outcome of its statements: an error leaves the
  tables as they were; otherwise the next attempt of the same firing is queued under a new id
  that points back to the run, and the run itself becomes retried, both or neither.
\<close>

theorem retry_behaviour:
  assumes "db_wf d" and "find_row (run_id r) d = Some c" and "Retry now r pl reason d = (res, d')"
  shows "case res of
      Inl e \<Rightarrow> same_tables d d'
    | Inr i \<Rightarrow> i = tbl_seq d + 1 \<and>
        (\<exists>n. find_row i d' = Some n \<and> c_status n = StatusQueued \<and> c_attempt n = run_attempt r + 1
           \<and> c_retry_of n = Some (run_id r) \<and> c_request_id n = run_request_id r
           \<and> c_event n = run_event r \<and> c_payload n = pl)
        \<and> (\<exists>c'. find_row (run_id r) d' = Some c' \<and> c_status c' = StatusRetried
           \<and> c_reason c' = reason \<and> \<not> c_cancel_requested c' \<and> c_finished_at c' \<noteq> None)
        \<and> (\<forall>j. j \<noteq> i \<and> j \<noteq> run_id r \<longrightarrow> find_row j d' = find_row j d)"
proof (cases res)
  case (Inl e)
  with assms show ?thesis by (auto simp: Retry_def dest: in_tx_atomic)
next
  case (Inr i)
  define n where "n = fresh_row r pl StatusQueued [] (run_attempt r + 1) (Some (run_id r)) (UnixMilli now) None None"
  define f where "f = (\<lambda>c :: row. c\<lparr>c_status := StatusRetried, c_reason := reason,
           c_detail := ''rerun as run '' @ Itoa i,
           c_finished_at := (case c_finished_at c of None \<Rightarrow> Some (UnixMilli now) | Some t \<Rightarrow> Some t),
           c_cancel_requested := False\<rparr>)"
  have f_id: "c_id (f x) = c_id x" for x by (simp add: f_def)
  from assms(3) Inr obtain fs where i: "i = tbl_seq d + 1"
    and d': "tbl_runs d' = update_where (\<lambda>c. c_id c = run_id r) f (tbl_runs (snd (insert_row n d)))"
    unfolding Retry_def
    by (auto simp: db_ret_def n_def [symmetric] f_def insert_row_def Let_def
        dest!: in_tx_Inr db_then_Inr sql_Inr elim!: exec_update_elim)
  note frow = find_row_updated [OF d' f_id]
  have ne: "run_id r \<noteq> i" using i find_row_seq [OF assms(1,2)] by simp
  have "find_row i d' = Some (n\<lparr>c_id := i\<rparr>)"
    using ne i by (simp add: frow find_row_insert assms(1))
  moreover have "find_row (run_id r) d' = Some (f c)"
    using ne i assms(2) by (simp add: frow find_row_insert assms(1))
  moreover have "j \<noteq> i \<and> j \<noteq> run_id r \<longrightarrow> find_row j d' = find_row j d" for j
    using i by (simp add: frow find_row_insert assms(1))
  ultimately show ?thesis
    by (simp add: Inr i n_def fresh_row_def f_def split: option.split)
qed

theorem retry_behaviour_witness:
  "map_option c_status (find_row 1 (snd (Retry 0 (scanRun (demo_row 1 ''backup'' StatusInterrupted))
     (EventJson (demo_event ''backup'')) ''agent_stopped'' (demo_db [demo_row 1 ''backup'' StatusInterrupted]))))
   = Some StatusRetried"
proof -
  let ?c = "demo_row 1 ''backup'' StatusInterrupted" let ?d = "demo_db [?c]" let ?p = "EventJson (demo_event ''backup'')"
  let ?r = "Retry 0 (scanRun ?c) ?p ''agent_stopped'' ?d"
  have w: "db_wf ?d" by (simp add: db_wf_def demo_defs)
  have f: "find_row (run_id (scanRun ?c)) ?d = Some ?c" by (simp add: find_row_def demo_defs)
  have e: "?r = (Inr 2, snd ?r)"
    by (simp add: Retry_def store_evals demo_defs)
  have i: "run_id (scanRun ?c) = 1" by (simp add: demo_row_def)
  from retry_behaviour [OF w f e] i show ?thesis by auto
qed

section \<open>Histories\<close>

text \<open>
  C2: In every history of the database, whatever processes write to it and whatever statements
  fail, StartRun succeeds at most once for each run, so that the command of a run starts at most
  once; and no later operation ever puts a run back into the queue or changes what it fires.
\<close>

theorem started_at_most_once:
  assumes "db_wf d" and "list_all op_ok ops"
  shows "distinct (fst (run_ops ops d)) \<and> db_wf (snd (run_ops ops d)) \<and> evolves d (snd (run_ops ops d))"
  using assms by (simp add: run_ops_started wf_run_ops evo_run_ops)

definition demo_ops :: "store_op list" where
  "demo_ops = [OpStartRun 1 0, OpFaults [Some SqlError], OpStartRun 1 0, OpStartRun 1 0]"

theorem started_at_most_once_witness:
  "distinct (fst (run_ops demo_ops (demo_db [demo_row 1 ''backup'' StatusQueued])))
   \<and> fst (run_ops demo_ops (demo_db [demo_row 1 ''backup'' StatusQueued])) = [1]"
proof
  let ?d = "demo_db [demo_row 1 ''backup'' StatusQueued]"
  have w: "db_wf ?d" by (simp add: db_wf_def demo_defs)
  have ok: "list_all op_ok demo_ops" by (simp add: demo_ops_def)
  show "distinct (fst (run_ops demo_ops ?d))" using started_at_most_once [OF w ok] by blast
  show "fst (run_ops demo_ops ?d) = [1]"
    by (simp add: demo_ops_def StartRun_def store_evals demo_defs)
qed

text \<open>
  The id of a deleted run is never given again: once a run is missing from the table although
  its id has been used, as after Prune, no later operation makes a run of that id appear.
\<close>

theorem pruned_ids_not_reused:
  assumes "list_all op_ok ops" and "i \<le> tbl_seq d" and "find_row i d = None"
  shows "find_row i (snd (run_ops ops d)) = None"
proof -
  from assms(1) have "evolves d (snd (run_ops ops d))" by (rule evo_run_ops)
  with assms(2,3) show ?thesis
    by (fastforce simp: evolves_def find_row_def find_None row_evolves_def)
qed

theorem pruned_ids_not_reused_witness:
  "find_row 1 (snd (run_ops [OpEnqueue 0 (demo_firing ''backup'') 0] (demo_db [demo_row 2 ''backup'' StatusFailed, demo_row 3 ''backup'' StatusFailed]))) = None"
  by (rule pruned_ids_not_reused) (simp_all add: demo_defs find_row_def)

text \<open>Prune deletes the final runs that finished before the given time, and no others.\<close>

lemma Prune_rows:
  "Prune before d = (Inr n, d') \<Longrightarrow> tbl_runs d' = filter (\<lambda>r. \<not> prunable before r) (tbl_runs d)
     \<and> int (length (tbl_runs d)) = int (length (tbl_runs d')) + n \<and> tbl_seq d' = tbl_seq d"
  using sum_length_filter_compl [of "prunable before" "tbl_runs d"]
  by (auto simp: Prune_def dest!: sql_Inr)

section \<open>Schema upgrades\<close>

lemma exec_ddl_faults: "snd (exec_ddl s (d\<lparr>faults := fs\<rparr>)) = (snd (exec_ddl s d))\<lparr>faults := fs\<rparr>"
  by (cases s) auto

lemma sql_exec_ddl:
  "sql (exec_ddl s) d = (Inr u, d1) \<Longrightarrow> \<exists>fs. d1 = (snd (exec_ddl s d))\<lparr>faults := fs\<rparr>"
  by (drule sql_Inr) (metis exec_ddl_faults snd_conv)

lemma exec_all_Inr:
  "exec_all ss d = (Inr u, d') \<Longrightarrow> \<exists>fs. d' = (fold (\<lambda>s d. snd (exec_ddl s d)) ss d)\<lparr>faults := fs\<rparr>"
proof (induction ss arbitrary: d)
  case Nil
  then show ?case by (auto simp: db_ret_def intro: exI [of _ "faults d'"])
next
  case (Cons s ss)
  then obtain d1 fs where d1: "d1 = (snd (exec_ddl s d))\<lparr>faults := fs\<rparr>" and ss: "exec_all ss d1 = (Inr u, d')"
    by (auto dest!: db_then_Inr sql_exec_ddl)
  have "fold (\<lambda>s d. snd (exec_ddl s d)) ss (x\<lparr>faults := fs\<rparr>) =
      (fold (\<lambda>s d. snd (exec_ddl s d)) ss x)\<lparr>faults := fs\<rparr>" for x
    by (induction ss arbitrary: x) (simp_all add: exec_ddl_faults)
  with Cons.IH [OF ss] d1 show ?case by auto
qed

lemma migrate_steps_Inr:
  "migrate_steps v steps d = (Inr u, d') \<Longrightarrow>
     \<exists>fs. d' = (fold (\<lambda>s d. snd (exec_ddl s d)) (concat (map snd (filter (\<lambda>(n, ss). v < n) steps))) d)\<lparr>faults := fs\<rparr>"
proof (induction v steps arbitrary: d rule: migrate_steps.induct)
  case (1 v)
  then show ?case by (auto simp: db_ret_def intro: exI [of _ "faults d'"])
next
  case (2 v n ss steps)
  show ?case
  proof (cases "v \<ge> n")
    case True
    with 2 show ?thesis by simp
  next
    case False
    with "2.prems" obtain d1 u1 where d1: "exec_all ss d = (Inr u1, d1)" and rest: "migrate_steps v steps d1 = (Inr u, d')"
      by (auto dest!: db_then_Inr)
    have "fold (\<lambda>s d. snd (exec_ddl s d)) xs (x\<lparr>faults := fs\<rparr>) =
        (fold (\<lambda>s d. snd (exec_ddl s d)) xs x)\<lparr>faults := fs\<rparr>" for xs x fs
      by (induction xs arbitrary: x) (simp_all add: exec_ddl_faults)
    with exec_all_Inr [OF d1] "2.IH" (2) [OF False rest] False show ?thesis by auto
  qed
qed

lemma migrate_effect:
  assumes "migrate d = (res, d')"
  shows "case res of
      Inl e \<Rightarrow> same_tables d d'
    | Inr u \<Rightarrow> user_version d \<le> 5 \<and> user_version d' = 5
        \<and> (user_version d = 5 \<longrightarrow> tbl_runs d' = tbl_runs d)
        \<and> (user_version d < 5 \<longrightarrow> (\<forall>r \<in> set (tbl_runs d'). c_not_before r = None))
        \<and> (user_version d < 4 \<longrightarrow> (\<forall>r \<in> set (tbl_runs d'). c_followed r = Final (c_status r)))
        \<and> (if user_version d < 2 then tbl_runs d' = []
           else map c_id (tbl_runs d') = map c_id (tbl_runs d)
             \<and> map c_status (tbl_runs d') = map c_status (tbl_runs d)
             \<and> map c_payload (tbl_runs d') = map c_payload (tbl_runs d))"
proof -
  define steps where "steps = [(2, schemaV2), (3, schemaV3), (4, schemaV4), (5::int, schemaV5)]"
  define up where "up = (\<lambda>d. fold (\<lambda>s d. snd (exec_ddl s d))
    (concat (map snd (filter (\<lambda>(n, ss). user_version d < n) steps))) d)"
  have cases: "(\<exists>e. res = Inl e \<and> same_tables d d') \<or> (user_version d = 5 \<and> same_tables d d') \<or>
      (is_ok res \<and> user_version d < 5 \<and> user_version d' = 5 \<and> tbl_runs d' = tbl_runs (up d))"
  proof -
    from assms have "db_then (sql nothing) (\<lambda>u. db_then (query user_version) (\<lambda>v.
       if v = schemaVersion then db_ret ()
       else if v > schemaVersion then (\<lambda>d. (Inl (SchemaTooNew v), d))
       else (\<lambda>d. end_tx d (db_then (migrate_steps v steps)
              (\<lambda>u. sql (\<lambda>d. ((), d\<lparr>user_version := schemaVersion\<rparr>))) d)))) d = (res, d')"
      unfolding migrate_def steps_def .
    then show ?thesis
    proof (cases rule: db_then_elim)
      case (error e)
      then show ?thesis by (auto dest!: sql_Inl)
    next
      case (ok u d1)
      from ok(1) obtain fs where d1: "d1 = d\<lparr>faults := fs\<rparr>" by (auto simp: nothing_def dest!: sql_Inr)
      from ok(2) show ?thesis
      proof (cases rule: db_then_elim)
        case (error e)
        then show ?thesis by (auto simp: d1 query_def dest!: sql_Inl)
      next
        case (ok v d2)
        then obtain gs where d2: "d2 = d\<lparr>faults := gs\<rparr>" and v: "v = user_version d"
          by (auto simp: d1 elim: query_elim)
        show ?thesis
        proof (cases "v < 5")
          case False
          with ok(2) v d2 show ?thesis
            by (cases "user_version d = 5") (auto simp: schemaVersion_def db_ret_def same_tables_def)
        next
          case True
          with ok(2) have tx: "end_tx d2 (db_then (migrate_steps v steps)
              (\<lambda>u. sql (\<lambda>d. ((), d\<lparr>user_version := schemaVersion\<rparr>))) d2) = (res, d')"
            by (simp add: schemaVersion_def)
          show ?thesis
          proof (cases res)
            case (Inl e)
            with tx d2 show ?thesis by (auto dest!: end_tx_Inl)
          next
            case (Inr a)
            have "up (d\<lparr>faults := gs\<rparr>) = (up d)\<lparr>faults := gs\<rparr>"
            proof -
              have "fold (\<lambda>s d. snd (exec_ddl s d)) xs (x\<lparr>faults := gs\<rparr>) =
                  (fold (\<lambda>s d. snd (exec_ddl s d)) xs x)\<lparr>faults := gs\<rparr>" for xs x
                by (induction xs arbitrary: x) (simp_all add: exec_ddl_faults)
              then show ?thesis by (simp add: up_def)
            qed
            with tx Inr d2 v True show ?thesis
              by (auto simp: schemaVersion_def up_def dest!: end_tx_Inr db_then_Inr sql_Inr migrate_steps_Inr)
          qed
        qed
      qed
    qed
  qed
  have up: "tbl_runs (up d) = (if user_version d < 2 then [] else
      if user_version d < 4 then map (\<lambda>r. r\<lparr>c_followed := Final (c_status r), c_not_before := None\<rparr>) (tbl_runs d)
      else map (\<lambda>r. r\<lparr>c_not_before := None\<rparr>) (tbl_runs d))" if "user_version d < 5"
    using that
    by (auto simp: up_def steps_def schemaV2_def schemaV3_def schemaV4_def schemaV5_def
        update_where_def Final_iff)
  from cases show ?thesis
  proof (elim disjE exE conjE)
    assume v: "user_version d = 5" and s: "same_tables d d'"
    with same_tables_fields [OF s] show ?thesis by (cases res) auto
  next
    assume v: "user_version d < 5" "user_version d' = 5" "tbl_runs d' = tbl_runs (up d)" and ok: "is_ok res"
    define F where "F = (\<lambda>r :: row. if user_version d < 4
      then r\<lparr>c_followed := Final (c_status r), c_not_before := None\<rparr> else r\<lparr>c_not_before := None\<rparr>)"
    have F: "c_not_before (F r) = None" "user_version d < 4 \<Longrightarrow> c_followed (F r) = Final (c_status (F r))"
      "c_id (F r) = c_id r" "c_status (F r) = c_status r" "c_payload (F r) = c_payload r" for r
      by (simp_all add: F_def)
    have runs: "tbl_runs d' = (if user_version d < 2 then [] else map F (tbl_runs d))"
      using v(3) unfolding up [OF v(1)] F_def by (simp split: if_splits)
    from ok obtain u where res: "res = Inr u" by (auto simp: is_ok_iff)
    show ?thesis
    proof (cases "user_version d < 2")
      case True
      with v(1,2) runs show ?thesis by (simp add: res)
    next
      case False
      with v(1,2) runs show ?thesis by (auto simp: res F)
    qed
  qed auto
qed

text \<open>
  migrate, for every version and every outcome of its statements: an error, and a schema newer
  than the program supports, leave the database as it was; otherwise the version is 5 afterwards,
  a database of version 2 or later keeps every run, runs that had ended before the upgrade count as
  handed to after triggers and the others do not, and a current database is not touched.
\<close>

theorem migrate_behaviour:
  assumes "migrate d = (res, d')"
  shows "case res of
      Inl e \<Rightarrow> same_tables d d'
    | Inr u \<Rightarrow> user_version d \<le> 5 \<and> user_version d' = 5
        \<and> (user_version d = 5 \<longrightarrow> tbl_runs d' = tbl_runs d)
        \<and> (user_version d < 5 \<longrightarrow> (\<forall>r \<in> set (tbl_runs d'). c_not_before r = None))
        \<and> (user_version d < 4 \<longrightarrow> (\<forall>r \<in> set (tbl_runs d'). c_followed r = Final (c_status r)))
        \<and> (if user_version d < 2 then tbl_runs d' = []
           else map c_id (tbl_runs d') = map c_id (tbl_runs d)
             \<and> map c_status (tbl_runs d') = map c_status (tbl_runs d)
             \<and> map c_payload (tbl_runs d') = map c_payload (tbl_runs d))"
  using assms by (rule migrate_effect)

theorem migrate_behaviour_witness:
  "user_version (snd (migrate ((demo_db [demo_row 1 ''backup'' StatusFailed])\<lparr>user_version := 3\<rparr>))) = 5
   \<and> map c_followed (tbl_runs (snd (migrate ((demo_db [demo_row 1 ''backup'' StatusFailed])\<lparr>user_version := 3\<rparr>)))) = [True]"
proof -
  let ?d = "(demo_db [demo_row 1 ''backup'' StatusFailed])\<lparr>user_version := 3\<rparr>"
  have e: "migrate ?d = (Inr (), snd (migrate ?d))"
    by (simp add: migrate_def schemaVersion_def schemaV4_def schemaV5_def store_evals demo_defs)
  have l: "map c_id (tbl_runs ?d) = [1]" by (simp add: demo_defs)
  have st: "map c_status (tbl_runs ?d) = [StatusFailed]" by (simp add: demo_defs)
  from migrate_behaviour [OF e]
  have "user_version (snd (migrate ?d)) = 5"
    and f: "\<forall>r \<in> set (tbl_runs (snd (migrate ?d))). c_followed r = Final (c_status r)"
    and s: "map c_status (tbl_runs (snd (migrate ?d))) = [StatusFailed]"
    by (simp_all add: demo_defs)
  from s obtain r where "tbl_runs (snd (migrate ?d)) = [r]" "c_status r = StatusFailed" by auto
  with f \<open>user_version (snd (migrate ?d)) = 5\<close> show ?thesis by simp
qed

end
