(* ===== verification/Dispatcher.thy ===== *)
theory Dispatcher
  imports Runner StoreSpecs
begin

text \<open>
  The dispatcher (\<^verbatim>\<open>internal/runner/dispatcher.go\<close>): every firing is a queued row, and the
  loop applies the concurrency policy of its event when it consumes the row.

  The state \<open>disp\<close> has the fields of the struct \<open>Dispatcher\<close>, those of the runner that it uses,
  and the database. \<open>d_ctx\<close> is the state of the context of each run (the cause with which it was
  canceled), \<open>d_heap\<close> the \<open>activeRun\<close> records by the run that they belong to, so that \<open>d_active\<close>
  holds the pointers. \<open>d_spawned\<close>, \<open>d_delivered\<close> and \<open>d_errors\<close> record the commands started, the
  results sent to waiting callers, and the database failures logged. \<open>d_new_id\<close> is
  \<open>event.NewID\<close>: the n-th identifier that it returns. A function that reads the clock has the
  reading as its argument \<open>now\<close>. Log lines are left out.

  A function that holds the mutex in several sections is split into them, so that the
  interleavings of these sections can be stated; the functions here compose them as the code does.
\<close>

section \<open>State\<close>

definition MaxQueuedPerEvent :: int where "MaxQueuedPerEvent = 1000"
definition fullScanEvery :: duration where "fullScanEvery = 5 * second"
definition heartbeatEvery :: duration where "heartbeatEvery = 5 * second"
definition pruneEvery :: duration where "pruneEvery = hour"
definition scheduleBatch :: int where "scheduleBatch = 500"
definition followBatch :: int where "followBatch = 100"

record follower =
  fo_event :: string
  fo_statuses :: "string list"

record active_run =
  ar_run_id :: int
  ar_request_id :: string
  ar_start :: gotime
  ar_skipped :: int
  ar_replacing :: bool

record disp =
  d_specs :: "string \<rightharpoonup> spec"
  d_follows :: "string \<Rightarrow> follower list"
  d_running :: "(string \<times> int) list"
  d_active :: "string \<rightharpoonup> int"
  d_heap :: "int \<rightharpoonup> active_run"
  d_cancels :: "int set"
  d_ctx :: "int \<rightharpoonup> cause"
  d_cancel_sent :: "int set"
  d_run_info :: "int \<rightharpoonup> string \<times> string"
  d_waiters :: "int set"
  d_delivered :: "(int \<times> result) list"
  d_wake :: bool
  d_restart_delays :: "string \<rightharpoonup> duration"
  d_next_due :: gotime
  d_err_limit_at :: "string \<rightharpoonup> gotime"
  d_errors :: "(gotime \<times> string \<times> db_error) list"
  d_retention :: duration
  d_stats :: stats
  d_stopping :: bool
  d_loop_done :: bool
  d_new_id :: "nat \<Rightarrow> string"
  d_ids :: nat
  d_db :: db
  d_spawned :: "(run \<times> spec \<times> event) list"

definition NewDispatcher :: "duration \<Rightarrow> (nat \<Rightarrow> string) \<Rightarrow> db \<Rightarrow> disp" where
  "NewDispatcher retention newID db =
     \<lparr>d_specs = Map.empty, d_follows = (\<lambda>e. []), d_running = [], d_active = Map.empty,
      d_heap = Map.empty, d_cancels = {}, d_ctx = Map.empty, d_cancel_sent = {},
      d_run_info = Map.empty, d_waiters = {}, d_delivered = [], d_wake = False,
      d_restart_delays = Map.empty, d_next_due = zero_time, d_err_limit_at = Map.empty,
      d_errors = [], d_retention = retention, d_stats = zero_stats, d_stopping = False,
      d_loop_done = False, d_new_id = newID, d_ids = 0, d_db = db, d_spawned = []\<rparr>"

text \<open>A statement or transaction of the store, on the database of the dispatcher.\<close>

definition on_db :: "'a dbm \<Rightarrow> disp \<Rightarrow> (db_error + 'a) \<times> disp" where
  "on_db m s = (case m (d_db s) of (r, db') \<Rightarrow> (r, s\<lparr>d_db := db'\<rparr>))"

definition NewID :: "disp \<Rightarrow> string \<times> disp" where
  "NewID s = (d_new_id s (d_ids s), s\<lparr>d_ids := d_ids s + 1\<rparr>)"

definition poke :: "disp \<Rightarrow> disp" where
  "poke s = s\<lparr>d_wake := True\<rparr>"

text \<open>\<open>d.running\<close> and \<open>d.specs\<close> as Go maps: a missing key reads as the zero value.\<close>

definition running_of :: "disp \<Rightarrow> string \<Rightarrow> int" where
  "running_of s e = (case map_of (d_running s) e of None \<Rightarrow> 0 | Some n \<Rightarrow> n)"

definition spec_of :: "disp \<Rightarrow> string \<Rightarrow> spec" where
  "spec_of s e = (case d_specs s e of None \<Rightarrow> zero_spec | Some sp \<Rightarrow> sp)"

definition count_dropped :: "disp \<Rightarrow> disp" where
  "count_dropped s = s\<lparr>d_stats := (d_stats s)\<lparr>st_dropped := st_dropped (d_stats s) + 1\<rparr>\<rparr>"

definition count_skipped :: "disp \<Rightarrow> disp" where
  "count_skipped s = s\<lparr>d_stats := (d_stats s)\<lparr>st_skipped := st_skipped (d_stats s) + 1\<rparr>\<rparr>"

definition queueError :: "gotime \<Rightarrow> string \<Rightarrow> db_error \<Rightarrow> disp \<Rightarrow> disp" where
  "queueError now op e s =
     (if e = ContextCanceled then s
      else let last = (case d_err_limit_at s op of None \<Rightarrow> zero_time | Some t \<Rightarrow> t) in
        if now - last \<ge> minute
          then s\<lparr>d_err_limit_at := (d_err_limit_at s)(op \<mapsto> now), d_errors := d_errors s @ [(now, op, e)]\<rparr>
        else s)"

text \<open>A context keeps the first cause with which it is canceled.\<close>

definition cancel_run :: "int \<Rightarrow> cause \<Rightarrow> disp \<Rightarrow> disp" where
  "cancel_run i c s = (if d_ctx s i = None then s\<lparr>d_ctx := (d_ctx s)(i \<mapsto> c)\<rparr> else s)"

section \<open>Configuration and recovery\<close>

definition Configure :: "spec list \<Rightarrow> disp \<Rightarrow> disp" where
  "Configure specs s =
     poke (s\<lparr>d_specs := fold (\<lambda>sp m. m(sp_name sp \<mapsto> sp)) specs Map.empty,
       d_follows := fold (\<lambda>sp f. fold (\<lambda>a f. f(at_event a := f (at_event a) @
           [\<lparr>fo_event = sp_name sp, fo_statuses = at_statuses a\<rparr>])) (sp_after sp) f) specs (\<lambda>e. [])\<rparr>)"

text \<open>\<open>WithDefaults\<close>: the data wins over the defaults; without defaults, nil stays nil.\<close>

definition WithDefaults :: "strmap option \<Rightarrow> strmap \<Rightarrow> strmap option" where
  "WithDefaults data defaults =
     (if defaults = [] then data else Some (put_all (entries data) (put_all defaults [])))"

datatype recover_error = RecoverDb db_error | RecoverEncode

datatype recovery = AbandonAs string | Requeue payload | RequeueFails

definition recovery_of :: "(string \<rightharpoonup> spec) \<Rightarrow> run \<Rightarrow> recovery" where
  "recovery_of specs r =
     (let how = (if run_status r = StatusInterrupted then ''agent_stopped'' else ''agent_crashed'') in
      case specs (run_event r) of
        None \<Rightarrow> AbandonAs ''event_removed''
      | Some sp \<Rightarrow>
          (if sp_on_interrupt sp \<noteq> InterruptRerun then AbandonAs how
           else if run_attempt r \<ge> sp_max_attempts sp then AbandonAs ''max_attempts_reached''
           else (case unmarshal_event (run_payload r) of
                   None \<Rightarrow> AbandonAs ''payload_invalid''
                 | Some ev \<Rightarrow>
                     (case marshal_event (ev\<lparr>ev_attempt := run_attempt r + 1, ev_run_id := 0\<rparr>) of
                        None \<Rightarrow> RequeueFails | Some p \<Rightarrow> Requeue p))))"

definition recover_one :: "gotime \<Rightarrow> run \<Rightarrow> disp \<Rightarrow> (recover_error + unit) \<times> disp" where
  "recover_one now r s =
     (let how = (if run_status r = StatusInterrupted then ''agent_stopped'' else ''agent_crashed'') in
      case recovery_of (d_specs s) r of
        AbandonAs reason \<Rightarrow>
          (case on_db (Abandon now (run_id r) reason) s of
             (Inl e, s') \<Rightarrow> (Inl (RecoverDb e), s') | (Inr u, s') \<Rightarrow> (Inr (), s'))
      | RequeueFails \<Rightarrow> (Inl RecoverEncode, s)
      | Requeue p \<Rightarrow>
          (case on_db (Retry now r p how) s of
             (Inl e, s') \<Rightarrow> (Inl (RecoverDb e), s') | (Inr i, s') \<Rightarrow> (Inr (), s')))"

fun recover_all :: "gotime \<Rightarrow> run list \<Rightarrow> disp \<Rightarrow> (recover_error + unit) \<times> disp" where
  "recover_all now [] s = (Inr (), s)"
| "recover_all now (r # rs) s =
     (case recover_one now r s of
        (Inl e, s') \<Rightarrow> (Inl e, s') | (Inr u, s') \<Rightarrow> recover_all now rs s')"

definition Recover :: "gotime \<Rightarrow> disp \<Rightarrow> (recover_error + unit) \<times> disp" where
  "Recover now s =
     (case on_db InterruptedRuns s of
        (Inl e, s') \<Rightarrow> (Inl (RecoverDb e), s') | (Inr runs, s') \<Rightarrow> recover_all now runs s')"

section \<open>Submitting firings\<close>

datatype submit_error = UnknownEvent string | EncodeError | SubmitDb db_error

record submitted =
  su_status :: dispatch_status
  su_id :: int
  su_wait :: bool
  su_err :: "submit_error option"

definition max_queued :: "spec \<Rightarrow> int" where
  "max_queued sp = (if sp_concurrency sp = PolicyQueue then MaxQueuedPerEvent else 0)"

definition submit :: "gotime \<Rightarrow> string \<Rightarrow> event \<Rightarrow> bool \<Rightarrow> disp \<Rightarrow> submitted \<times> disp" where
  "submit now name ev wait s0 =
     (let (rid, s) = (if ev_request_id ev = [] then NewID s0 else (ev_request_id ev, s0));
          time = (if IsZero (ev_time ev) then now else ev_time ev);
          fails = (\<lambda>e. \<lparr>su_status = Dispatch_Dropped, su_id = 0, su_wait = False, su_err = Some e\<rparr>) in
      case d_specs s name of
        None \<Rightarrow> (fails (UnknownEvent name), s)
      | Some sp \<Rightarrow>
          (let ev' = ev\<lparr>ev_request_id := rid, ev_time := time, ev_name := name,
                 ev_data := WithDefaults (ev_data ev) (sp_defaults sp)\<rparr> in
           case marshal_event ev' of
             None \<Rightarrow> (fails EncodeError, s)
           | Some pl \<Rightarrow>
               (case on_db (Enqueue now (new_run rid name (ev_trigger ev) (ev_trigger_id ev)
                        (ev_source ev) pl time zero_time) (max_queued sp)) s of
                  (Inl e, s') \<Rightarrow> (fails (SubmitDb e), queueError now ''enqueue'' e s')
                | (Inr (i, dropped), s') \<Rightarrow>
                    (if dropped
                     then (\<lparr>su_status = Dispatch_Dropped, su_id = i, su_wait = False, su_err = None\<rparr>,
                           count_dropped s')
                     else (\<lparr>su_status = Dispatch_Queued, su_id = i, su_wait = wait, su_err = None\<rparr>,
                           poke (if wait then s'\<lparr>d_waiters := insert i (d_waiters s')\<rparr> else s'))))))"

definition Dispatch :: "gotime \<Rightarrow> string \<Rightarrow> event \<Rightarrow> disp \<Rightarrow> dispatch_status \<times> disp" where
  "Dispatch now name ev s = (case submit now name ev False s of (r, s') \<Rightarrow> (su_status r, s'))"

text \<open>\<open>RunSync\<close>: the submission, and what the caller gets once its select ends.\<close>

datatype sync_outcome =
    SyncError submit_error | SyncQueueFull | SyncBusy | SyncGone | SyncResult result | SyncWaits int

definition RunSync_submit :: "gotime \<Rightarrow> string \<Rightarrow> event \<Rightarrow> disp \<Rightarrow> sync_outcome \<times> disp" where
  "RunSync_submit now name ev s0 =
     (let (rid, s) = (if ev_request_id ev = [] then NewID s0 else (ev_request_id ev, s0)) in
      case submit now name (ev\<lparr>ev_request_id := rid\<rparr>) True s of
        (r, s') \<Rightarrow>
          ((case su_err r of
              Some e \<Rightarrow> SyncError e
            | None \<Rightarrow> if su_status r = Dispatch_Dropped then SyncQueueFull else SyncWaits (su_id r)), s'))"

fun RunSync_wait :: "result option \<Rightarrow> sync_outcome" where
  "RunSync_wait (Some res) =
     (if res_error res = ''skipped'' then SyncBusy
      else if res_error res = ''dropped'' then SyncQueueFull
      else SyncResult res)"
| "RunSync_wait None = SyncGone"

section \<open>Ending runs\<close>

definition restartsAfter :: "string \<Rightarrow> status \<Rightarrow> bool" where
  "restartsAfter policy st =
     (if policy = RestartAlways then st = StatusSucceeded \<or> st = StatusFailed
      else if policy = RestartOnFailure then st = StatusFailed
      else False)"

text \<open>The delay of the next restart; \<open>2*delay\<close> is an \<open>int64\<close> product.\<close>

definition next_delay :: "spec \<Rightarrow> duration option \<Rightarrow> duration \<Rightarrow> duration" where
  "next_delay sp seen elapsed =
     (case seen of
        None \<Rightarrow> sp_restart_delay sp
      | Some delay \<Rightarrow>
          if elapsed \<ge> sp_restart_max_delay sp then sp_restart_delay sp
          else min (i64 (2 * delay)) (sp_restart_max_delay sp))"

definition restart_decide :: "run \<Rightarrow> status \<Rightarrow> duration \<Rightarrow> disp \<Rightarrow> (spec \<times> duration) option \<times> disp" where
  "restart_decide r st elapsed s =
     (if d_stopping s then (None, s)
      else (case d_specs s (run_event r) of
          None \<Rightarrow> (None, s)
        | Some sp \<Rightarrow>
            (if \<not> restartsAfter (sp_restart sp) st then (None, s)
             else (let delay = next_delay sp (d_restart_delays s (run_event r)) elapsed in
               (Some (sp, delay), s\<lparr>d_restart_delays := (d_restart_delays s)(run_event r \<mapsto> delay)\<rparr>)))))"

definition restart_enqueue :: "gotime \<Rightarrow> run \<Rightarrow> spec \<Rightarrow> duration \<Rightarrow> disp \<Rightarrow> disp" where
  "restart_enqueue now r sp delay s0 =
     (case NewID s0 of (rid, s) \<Rightarrow>
       (let ev = zero_event\<lparr>ev_request_id := rid, ev_name := run_event r, ev_trigger := KindRestart,
              ev_trigger_id := ''restart'', ev_time := now, ev_data := WithDefaults None (sp_defaults sp)\<rparr> in
        case marshal_event ev of
          None \<Rightarrow> s
        | Some pl \<Rightarrow>
            (case on_db (Enqueue now (new_run rid (run_event r) KindRestart ''restart'' [] pl now
                     (now + delay)) (max_queued sp)) s of
               (Inl e, s') \<Rightarrow> queueError now ''enqueue'' e s'
             | (Inr (i, dropped), s') \<Rightarrow> if dropped then count_dropped s' else s')))"

definition restart :: "gotime \<Rightarrow> run \<Rightarrow> status \<Rightarrow> duration \<Rightarrow> disp \<Rightarrow> disp" where
  "restart now r st elapsed s =
     (case restart_decide r st elapsed s of
        (None, s') \<Rightarrow> s' | (Some (sp, delay), s') \<Rightarrow> restart_enqueue now r sp delay s')"

definition finish_status :: "result \<Rightarrow> status" where
  "finish_status res =
     (if res_reason res = ''shutdown'' then StatusInterrupted
      else if res_error res = ''canceled'' then StatusCanceled
      else if res_error res \<noteq> [] \<or> res_exit_code res \<noteq> 0 then StatusFailed
      else StatusSucceeded)"

definition finish_of :: "spec \<Rightarrow> result \<Rightarrow> finish" where
  "finish_of sp res =
     \<lparr>fin_status = finish_status res, fin_reason = res_reason res, fin_detail = [],
      fin_exit_code = Some (res_exit_code res), fin_signal = res_signal res,
      fin_output = (if sp_log_output sp then res_output res else []),
      fin_truncated = res_truncated res, fin_at = zero_time, fin_duration = res_duration res\<rparr>"

definition finish_record :: "gotime \<Rightarrow> run \<Rightarrow> spec \<Rightarrow> result \<Rightarrow> disp \<Rightarrow> disp" where
  "finish_record now r sp res s =
     (case on_db (FinishRun now (run_id r) (finish_of sp res)) s of
        (Inl e, s') \<Rightarrow> queueError now ''finish_run'' e s' | (Inr u, s') \<Rightarrow> s')"

definition take_waiter :: "int \<Rightarrow> result \<Rightarrow> disp \<Rightarrow> disp" where
  "take_waiter i res s =
     (if i \<in> d_waiters s
      then s\<lparr>d_waiters := d_waiters s - {i}, d_delivered := d_delivered s @ [(i, res)]\<rparr> else s)"

definition finish_memory :: "run \<Rightarrow> result \<Rightarrow> disp \<Rightarrow> disp" where
  "finish_memory r res s =
     (let e = run_event r; i = run_id r; n = running_of s e - 1 in
      take_waiter i res (s\<lparr>
        d_running := (if n \<le> 0 then AList.delete e (d_running s) else AList.update e n (d_running s)),
        d_active := (if d_active s e = Some i then (d_active s)(e := None) else d_active s),
        d_ctx := (d_ctx s)(i := None),
        d_cancels := d_cancels s - {i},
        d_cancel_sent := d_cancel_sent s - {i},
        d_run_info := (d_run_info s)(i := None)\<rparr>))"

definition finish_run :: "gotime \<Rightarrow> run \<Rightarrow> spec \<Rightarrow> result \<Rightarrow> disp \<Rightarrow> disp" where
  "finish_run now r sp res s =
     poke (restart now r (finish_status res) (res_duration res)
       (finish_memory r res (finish_record now r sp res s)))"

section \<open>Settling queued rows\<close>

definition settled_result :: "status \<Rightarrow> string \<Rightarrow> result" where
  "settled_result st reason = zero_result\<lparr>res_exit_code := - 1, res_error := status_name st, res_reason := reason\<rparr>"

text \<open>The callers of \<open>settle\<close> call the function that it returns at once, after a log line.\<close>

definition settle :: "gotime \<Rightarrow> run \<Rightarrow> status \<Rightarrow> string \<Rightarrow> string \<Rightarrow> disp \<Rightarrow> bool \<times> disp" where
  "settle now r st reason detail s =
     (case on_db (Settle now (run_id r) st reason detail) s of
        (Inl e, s') \<Rightarrow> (False, queueError now ''settle'' e s')
      | (Inr ok, s') \<Rightarrow>
          (if \<not> ok then (False, s') else (True, take_waiter (run_id r) (settled_result st reason) s')))"

definition run_detail_text :: "int \<Rightarrow> string" where
  "run_detail_text i = ''run '' @ Itoa i"

definition skip_run :: "gotime \<Rightarrow> run \<Rightarrow> int option \<Rightarrow> disp \<Rightarrow> disp" where
  "skip_run now r a s =
     (let detail = (case a of None \<Rightarrow> [] | Some i \<Rightarrow> run_detail_text i) in
      case settle now r StatusSkipped ''already_running'' detail s of
        (ok, s1) \<Rightarrow>
          (if \<not> ok then s1
           else (case a of
               None \<Rightarrow> count_skipped s1
             | Some i \<Rightarrow>
                 (let s2 = count_skipped s1;
                      s3 = s2\<lparr>d_heap := (d_heap s2)(i := map_option (\<lambda>x. x\<lparr>ar_skipped := ar_skipped x + 1\<rparr>) (d_heap s2 i))\<rparr>
                  in case on_db (AddSkipped i) s3 of
                       (Inl e, s4) \<Rightarrow> queueError now ''add_skipped'' e s4 | (Inr u, s4) \<Rightarrow> s4))))"

section \<open>Scheduling\<close>

text \<open>What the section under the lock decides for one queued row.\<close>

datatype decision =
    ReplacedBy int | ScanEnds | EventRemoved | RestartDisabled
  | SkipsFor "int option" | WaitsInQueue | ReplacesRun "int option" | NotStarted | Started spec

definition waiting_events :: "disp \<Rightarrow> string list" where
  "waiting_events s = map fst (filter (\<lambda>(e, n). n > 0 \<and> sp_concurrency (spec_of s e) = PolicyQueue) (d_running s))"

definition newest_of :: "disp \<Rightarrow> run list \<Rightarrow> string \<rightharpoonup> int" where
  "newest_of s runs = fold (\<lambda>r m. if sp_concurrency (spec_of s (run_event r)) = PolicyReplace
     then m(run_event r \<mapsto> run_id r) else m) runs Map.empty"

definition start_row :: "gotime \<Rightarrow> spec \<Rightarrow> run \<Rightarrow> disp \<Rightarrow> decision \<times> disp" where
  "start_row now sp r s =
     (case on_db (StartRun (run_id r) now) s of
        (Inl e, s') \<Rightarrow> (NotStarted, queueError now ''start_run'' e s')
      | (Inr started, s') \<Rightarrow>
          (if \<not> started then (NotStarted, s')
           else (let e = run_event r; i = run_id r;
                     excl = (sp_concurrency sp \<noteq> PolicyParallel) in
             (Started sp, s'\<lparr>
               d_running := AList.update e (running_of s' e + 1) (d_running s'),
               d_active := (if excl then (d_active s')(e \<mapsto> i) else d_active s'),
               d_heap := (if excl then (d_heap s')(i \<mapsto> \<lparr>ar_run_id = i, ar_request_id = run_request_id r,
                  ar_start = now, ar_skipped = 0, ar_replacing = False\<rparr>) else d_heap s'),
               d_ctx := (if d_stopping s' then (d_ctx s')(i \<mapsto> RunnerStopped) else (d_ctx s')(i := None)),
               d_cancels := insert i (d_cancels s'),
               d_run_info := (d_run_info s')(i \<mapsto> (run_request_id r, e))\<rparr>))))"

definition replace_active :: "run \<Rightarrow> disp \<Rightarrow> decision \<times> disp" where
  "replace_active r s =
     (case d_active s (run_event r) of
        None \<Rightarrow> (ReplacesRun None, s)
      | Some i \<Rightarrow>
          (case d_heap s i of
             None \<Rightarrow> (ReplacesRun None, s)
           | Some a \<Rightarrow>
               (if ar_replacing a then (ReplacesRun None, s)
                else (ReplacesRun (if i \<in> d_cancels s then Some i else None),
                      s\<lparr>d_heap := (d_heap s)(i \<mapsto> a\<lparr>ar_replacing := True\<rparr>)\<rparr>))))"

definition decide_locked :: "gotime \<Rightarrow> run \<Rightarrow> disp \<Rightarrow> decision \<times> disp" where
  "decide_locked now r s =
     (if d_stopping s then (ScanEnds, s)
      else (case d_specs s (run_event r) of
          None \<Rightarrow> (EventRemoved, s)
        | Some sp \<Rightarrow>
            (let busy = (running_of s (run_event r) > 0) in
             if run_trigger r = KindRestart \<and> sp_restart sp = RestartNever then (RestartDisabled, s)
             else if sp_concurrency sp = PolicySkip \<and> busy then (SkipsFor (d_active s (run_event r)), s)
             else if sp_concurrency sp = PolicyQueue \<and> busy then (WaitsInQueue, s)
             else if sp_concurrency sp = PolicyReplace \<and> busy then replace_active r s
             else start_row now sp r s)))"

definition decide :: "gotime \<Rightarrow> (string \<rightharpoonup> int) \<Rightarrow> run \<Rightarrow> disp \<Rightarrow> decision \<times> disp" where
  "decide now newest r s =
     (case newest (run_event r) of
        Some i \<Rightarrow> if i \<noteq> run_id r then (ReplacedBy i, s) else decide_locked now r s
      | None \<Rightarrow> decide_locked now r s)"

text \<open>What the scan does after the lock is released; the result tells whether it made progress.\<close>

definition started_event :: "spec \<Rightarrow> run \<Rightarrow> event \<Rightarrow> event" where
  "started_event sp r ev = ev\<lparr>ev_request_id := run_request_id r, ev_run_id := run_id r,
     ev_attempt := run_attempt r, ev_data := WithDefaults (ev_data ev) (sp_defaults sp)\<rparr>"

definition unreadable_result :: result where
  "unreadable_result = zero_result\<lparr>res_exit_code := - 1, res_error := ''start_failed'',
     res_reason := ''payload_invalid''\<rparr>"

fun act :: "gotime \<Rightarrow> run \<Rightarrow> decision \<Rightarrow> disp \<Rightarrow> bool \<times> disp" where
  "act now r (ReplacedBy i) s =
     (True, snd (settle now r StatusSkipped ''replaced'' (run_detail_text i) s))"
| "act now r ScanEnds s = (False, s)"
| "act now r EventRemoved s = (True, snd (settle now r StatusDropped ''event_removed'' [] s))"
| "act now r RestartDisabled s = (True, snd (settle now r StatusDropped ''restart_disabled'' [] s))"
| "act now r (SkipsFor a) s = (True, skip_run now r a s)"
| "act now r WaitsInQueue s = (False, s)"
| "act now r (ReplacesRun None) s = (False, s)"
| "act now r (ReplacesRun (Some i)) s = (False, cancel_run i ErrReplaced s)"
| "act now r NotStarted s = (False, s)"
| "act now r (Started sp) s =
     (case unmarshal_event (run_payload r) of
        None \<Rightarrow> (True, finish_run now r sp unreadable_result s)
      | Some ev \<Rightarrow> (True, s\<lparr>d_spawned := d_spawned s @ [(r, sp, started_event sp r ev)]\<rparr>))"

fun schedule_rows :: "gotime \<Rightarrow> (string \<rightharpoonup> int) \<Rightarrow> run list \<Rightarrow> bool \<Rightarrow> disp \<Rightarrow> bool \<times> disp" where
  "schedule_rows now newest [] progressed s = (progressed, s)"
| "schedule_rows now newest (r # rs) progressed s =
     (case decide now newest r s of
        (dec, s1) \<Rightarrow>
          (if dec = ScanEnds then (progressed, s1)
           else (case act now r dec s1 of
              (p, s2) \<Rightarrow> schedule_rows now newest rs (progressed \<or> p) s2)))"

definition schedule :: "gotime \<Rightarrow> disp \<Rightarrow> disp" where
  "schedule now s =
     (case on_db (QueuedRuns now scheduleBatch (waiting_events s)) s of
        (Inl e, s1) \<Rightarrow> queueError now ''queued_runs'' e s1
      | (Inr runs, s1) \<Rightarrow>
          (case schedule_rows now (newest_of s1 runs) runs False s1 of
             (progressed, s2) \<Rightarrow>
               if progressed \<and> int (length runs) = scheduleBatch then poke s2 else s2))"

section \<open>Cancel requests\<close>

text \<open>The section under the lock: whether the run is ours, and whether its cancel was sent before.\<close>

definition cancel_lock :: "int \<Rightarrow> disp \<Rightarrow> (bool \<times> bool) \<times> disp" where
  "cancel_lock i s =
     (let ours = (i \<in> d_cancels s); sent = (i \<in> d_cancel_sent s) in
      ((ours, sent), if ours \<and> \<not> sent then s\<lparr>d_cancel_sent := insert i (d_cancel_sent s)\<rparr> else s))"

definition canceled_finish :: finish where
  "canceled_finish = \<lparr>fin_status = StatusCanceled, fin_reason = ''canceled_by_user'', fin_detail = [],
     fin_exit_code = None, fin_signal = [], fin_output = [], fin_truncated = False,
     fin_at = zero_time, fin_duration = 0\<rparr>"

definition cancel_act :: "gotime \<Rightarrow> int \<Rightarrow> bool \<times> bool \<Rightarrow> disp \<Rightarrow> disp" where
  "cancel_act now i os s =
     (case os of (ours, sent) \<Rightarrow>
       (if ours \<and> \<not> sent then cancel_run i ErrCanceledByUser s
        else if \<not> ours then
          (case on_db (FinishRun now i canceled_finish) s of
             (Inl e, s') \<Rightarrow> queueError now ''finish_run'' e s' | (Inr u, s') \<Rightarrow> s')
        else s))"

fun process_cancel_ids :: "gotime \<Rightarrow> int list \<Rightarrow> disp \<Rightarrow> disp" where
  "process_cancel_ids now [] s = s"
| "process_cancel_ids now (i # is) s =
     (case cancel_lock i s of (os, s1) \<Rightarrow> process_cancel_ids now is (cancel_act now i os s1))"

definition processCancels :: "gotime \<Rightarrow> disp \<Rightarrow> disp" where
  "processCancels now s =
     (case on_db CancelRequests s of
        (Inl e, s1) \<Rightarrow> queueError now ''cancel_requests'' e s1
      | (Inr ids, s1) \<Rightarrow> process_cancel_ids now ids s1)"

section \<open>After triggers\<close>

definition after_event :: "gotime \<Rightarrow> string \<Rightarrow> string \<Rightarrow> spec \<Rightarrow> ended \<Rightarrow> event" where
  "after_event now rid name sp r =
     zero_event\<lparr>ev_request_id := rid, ev_name := name, ev_trigger := KindAfter,
       ev_trigger_id := ''after:'' @ en_event r, ev_time := now,
       ev_data := WithDefaults None (sp_defaults sp),
       ev_after := Some \<lparr>ai_event = en_event r, ai_run_id = en_id r,
         ai_status = status_name (en_status r), ai_exit_code = en_exit_code r\<rparr>\<rparr>"

definition after_run :: "gotime \<Rightarrow> string \<Rightarrow> string \<Rightarrow> payload \<Rightarrow> ended \<Rightarrow> run" where
  "after_run now rid name pl r =
     new_run rid name KindAfter (''after:'' @ en_event r) [] pl now zero_time"

fun follow_runs :: "gotime \<Rightarrow> ended \<Rightarrow> follower list \<Rightarrow> disp \<Rightarrow> (run \<times> int) list \<times> disp" where
  "follow_runs now r [] s = ([], s)"
| "follow_runs now r (f # fs) s =
     (case d_specs s (fo_event f) of
        None \<Rightarrow> follow_runs now r fs s
      | Some sp \<Rightarrow>
          (if status_name (en_status r) \<notin> set (fo_statuses f) then follow_runs now r fs s
           else (case NewID s of (rid, s1) \<Rightarrow>
             (case marshal_event (after_event now rid (fo_event f) sp r) of
                None \<Rightarrow> follow_runs now r fs s1
              | Some pl \<Rightarrow>
                  (case follow_runs now r fs s1 of
                     (rs, s2) \<Rightarrow> ((after_run now rid (fo_event f) pl r, max_queued sp) # rs, s2))))))"

text \<open>One ended run: \<open>None\<close> when the database fails, else whether a trigger fired.\<close>

definition follow_one :: "gotime \<Rightarrow> ended \<Rightarrow> disp \<Rightarrow> bool option \<times> disp" where
  "follow_one now r s =
     (case (if en_status r = StatusRetried then ([], s)
            else follow_runs now r (d_follows s (en_event r)) s) of
        (runs, s1) \<Rightarrow>
          (case on_db (Follow now (en_id r) runs) s1 of
             (Inl e, s2) \<Rightarrow> (None, queueError now ''follow'' e s2)
           | (Inr ids, s2) \<Rightarrow>
               (Some (\<exists>x \<in> set ids. \<not> snd x),
                fold (\<lambda>x s. if snd x then count_dropped s else s) ids s2)))"

fun follow_all :: "gotime \<Rightarrow> ended list \<Rightarrow> bool \<Rightarrow> disp \<Rightarrow> bool option \<times> disp" where
  "follow_all now [] fired s = (Some fired, s)"
| "follow_all now (r # rs) fired s =
     (case follow_one now r s of
        (None, s1) \<Rightarrow> (None, s1) | (Some f, s1) \<Rightarrow> follow_all now rs (fired \<or> f) s1)"

text \<open>\<open>follow\<close> repeats while its batches are full; \<open>None\<close> when the fuel is used up.\<close>

fun follow :: "nat \<Rightarrow> gotime \<Rightarrow> disp \<Rightarrow> disp option" where
  "follow 0 now s = None"
| "follow (Suc n) now s =
     (case on_db (UnfollowedRuns followBatch) s of
        (Inl e, s1) \<Rightarrow> Some (queueError now ''follow'' e s1)
      | (Inr rs, s1) \<Rightarrow>
          (case follow_all now rs False s1 of
             (None, s2) \<Rightarrow> Some s2
           | (Some fired, s2) \<Rightarrow>
               (let s3 = (if fired then poke s2 else s2) in
                if int (length rs) < followBatch then Some s3 else follow n now s3)))"

section \<open>The loop\<close>

definition step :: "nat \<Rightarrow> gotime \<Rightarrow> disp \<Rightarrow> disp option" where
  "step fuel now s =
     (if d_loop_done s \<or> d_stopping s then Some s
      else (case follow fuel now (processCancels now s) of
          None \<Rightarrow> None
        | Some s1 \<Rightarrow>
            (let s2 = (schedule now s1)\<lparr>d_next_due := zero_time\<rparr> in
             case on_db (NextNotBefore now) s2 of
               (Inl e, s3) \<Rightarrow> Some (queueError now ''next_not_before'' e s3)
             | (Inr None, s3) \<Rightarrow> Some s3
             | (Inr (Some at), s3) \<Rightarrow> Some (s3\<lparr>d_next_due := at\<rparr>))))"

definition heartbeat :: "gotime \<Rightarrow> agent \<Rightarrow> disp \<Rightarrow> disp" where
  "heartbeat now info s =
     (case on_db (Heartbeat now info) s of
        (Inl e, s') \<Rightarrow> queueError now ''heartbeat'' e s' | (Inr u, s') \<Rightarrow> s')"

definition prune :: "gotime \<Rightarrow> disp \<Rightarrow> disp" where
  "prune now s =
     (if d_retention s \<le> 0 then s
      else (case on_db (Prune (now - d_retention s)) s of
          (Inl e, s') \<Rightarrow> queueError now ''prune'' e s' | (Inr n, s') \<Rightarrow> s'))"

record loop_state =
  lo_version :: int
  lo_scan :: gotime
  lo_beat :: gotime
  lo_prune :: gotime

text \<open>What the select of the loop receives; the wake carries the time at which it is handled.\<close>

datatype loop_event = LoopWake gotime | LoopTick gotime

definition Loop_start :: "nat \<Rightarrow> gotime \<Rightarrow> agent \<Rightarrow> disp \<Rightarrow> (loop_state \<times> disp) option" where
  "Loop_start fuel now info s =
     (case on_db DataVersion (prune now (heartbeat now info s)) of
        (v, s1) \<Rightarrow>
          (case step fuel now s1 of
             None \<Rightarrow> None
           | Some s2 \<Rightarrow> Some (\<lparr>lo_version = (case v of Inl e \<Rightarrow> 0 | Inr v \<Rightarrow> v), lo_scan = now,
               lo_beat = now, lo_prune = now\<rparr>, s2)))"

definition tick_scan :: "nat \<Rightarrow> gotime \<Rightarrow> loop_state \<times> disp \<Rightarrow> (loop_state \<times> disp) option" where
  "tick_scan fuel now ls =
     (case ls of (l, s) \<Rightarrow>
       (case (case on_db DataVersion s of
                (Inl e, s1) \<Rightarrow> (0, queueError now ''data_version'' e s1) | (Inr v, s1) \<Rightarrow> (v, s1)) of
          (v, s1) \<Rightarrow>
            (let due = (\<not> IsZero (d_next_due s1) \<and> \<not> now < d_next_due s1) in
             if v \<noteq> lo_version l \<or> now - lo_scan l \<ge> fullScanEvery \<or> due
             then map_option (\<lambda>s2. (l\<lparr>lo_version := v, lo_scan := now\<rparr>, s2)) (step fuel now s1)
             else Some (l, s1))))"

definition tick_housekeeping :: "gotime \<Rightarrow> agent \<Rightarrow> loop_state \<times> disp \<Rightarrow> loop_state \<times> disp" where
  "tick_housekeeping now info ls =
     (case ls of (l, s) \<Rightarrow>
       (let (l1, s1) = (if now - lo_beat l \<ge> heartbeatEvery then (l\<lparr>lo_beat := now\<rparr>, heartbeat now info s) else (l, s))
        in if now - lo_prune l1 \<ge> pruneEvery then (l1\<lparr>lo_prune := now\<rparr>, prune now s1) else (l1, s1)))"

fun Loop_iter :: "nat \<Rightarrow> agent \<Rightarrow> loop_event \<Rightarrow> loop_state \<times> disp \<Rightarrow> (loop_state \<times> disp) option" where
  "Loop_iter fuel info (LoopWake now) (l, s) =
     map_option (\<lambda>s'. (l, s')) (step fuel now (s\<lparr>d_wake := False\<rparr>))"
| "Loop_iter fuel info (LoopTick now) (l, s) =
     map_option (tick_housekeeping now info) (tick_scan fuel now (l, s))"

end
