(* ===== verification/DispatcherConc.thy ===== *)
theory DispatcherConc
  imports Dispatcher
begin

text \<open>
  The dispatcher with all its goroutines: the loop, one goroutine per run, the triggers that submit
  firings, the reload that configures, the other processes that write to the database. A step is
  one section that runs under the mutex, or one statement or transaction of the database, so
  every interleaving of the code is a sequence of steps. The sections are the definitions of
  theory Dispatcher.
\<close>

section \<open>System state\<close>

text \<open>
  A run is live from the section that counts it in \<open>d.running\<close> to the one that counts it out.
  \<open>Claimed\<close>: started, the loop has not handed it to a goroutine yet; \<open>Exited\<close>: its result is
  known; \<open>Recorded\<close>: the result is in the database.
\<close>

datatype phase = Claimed | Executing | Exited result | Recorded result

record live =
  lv_run :: run
  lv_spec :: spec
  lv_phase :: phase

datatype loop_pc =
    AtRest
  | Canceling "int list"
  | CancelLocked int "bool \<times> bool" "int list"
  | Following "ended list"
  | Waiting "string list"
  | GotRows "run list"
  | Scanning "string \<rightharpoonup> int" "run list"
  | Decided run decision "string \<rightharpoonup> int" "run list"

datatype restart_pc = RestartCheck run status duration | RestartQueue run spec duration

record sys =
  sy_d :: disp
  sy_live :: "live list"
  sy_loop :: loop_pc
  sy_restarts :: "restart_pc list"
  sy_started :: "int list"

text \<open>What other processes do to the database: the commands event and cancel, and failures.\<close>

fun external :: "store_op \<Rightarrow> bool" where
  "external (OpEnqueue now r m) = True"
| "external (OpRequestCancel now i) = True"
| "external (OpRequestCancelEvent now e) = True"
| "external (OpFaults fs) = True"
| "external _ = False"

text \<open>\<open>ls1 @ x # ls2\<close> with the element replaced or removed.\<close>

definition set_phase :: "phase \<Rightarrow> live \<Rightarrow> live" where
  "set_phase p l = l\<lparr>lv_phase := p\<rparr>"

text \<open>Stopping kickd cancels every run that is not canceled yet.\<close>

definition stop_runner :: "disp \<Rightarrow> disp" where
  "stop_runner s = s\<lparr>d_stopping := True,
     d_ctx := (\<lambda>i. if i \<in> d_cancels s \<and> d_ctx s i = None then Some RunnerStopped else d_ctx s i)\<rparr>"

section \<open>Steps\<close>

text \<open>The loop: the sections of processCancels, follow and schedule, in their order.\<close>

inductive loop_step :: "sys \<Rightarrow> sys \<Rightarrow> bool" where
  read_cancels: "sy_loop S = AtRest \<Longrightarrow> on_db CancelRequests (sy_d S) = (Inr ids, d) \<Longrightarrow>
    loop_step S (S\<lparr>sy_d := d, sy_loop := Canceling ids\<rparr>)"
| read_cancels_fails: "sy_loop S = AtRest \<Longrightarrow> on_db CancelRequests (sy_d S) = (Inl e, d) \<Longrightarrow>
    loop_step S (S\<lparr>sy_d := queueError now ''cancel_requests'' e d, sy_loop := Canceling []\<rparr>)"
| cancel_locks: "sy_loop S = Canceling (i # is) \<Longrightarrow> cancel_lock i (sy_d S) = (os, d) \<Longrightarrow>
    loop_step S (S\<lparr>sy_d := d, sy_loop := CancelLocked i os is\<rparr>)"
| cancel_acts: "sy_loop S = CancelLocked i os is \<Longrightarrow>
    loop_step S (S\<lparr>sy_d := cancel_act now i os (sy_d S), sy_loop := Canceling is\<rparr>)"
| read_ended: "sy_loop S = Canceling [] \<or> sy_loop S = Following [] \<Longrightarrow>
    on_db (UnfollowedRuns followBatch) (sy_d S) = (Inr rs, d) \<Longrightarrow>
    loop_step S (S\<lparr>sy_d := d, sy_loop := Following rs\<rparr>)"
| read_ended_fails: "sy_loop S = Canceling [] \<or> sy_loop S = Following [] \<Longrightarrow>
    on_db (UnfollowedRuns followBatch) (sy_d S) = (Inl e, d) \<Longrightarrow>
    loop_step S (S\<lparr>sy_d := queueError now ''follow'' e d, sy_loop := Waiting (waiting_events d)\<rparr>)"
| follows: "sy_loop S = Following (r # rs) \<Longrightarrow> follow_one now r (sy_d S) = (Some f, d) \<Longrightarrow>
    loop_step S (S\<lparr>sy_d := d, sy_loop := Following rs\<rparr>)"
| follow_fails: "sy_loop S = Following (r # rs) \<Longrightarrow> follow_one now r (sy_d S) = (None, d) \<Longrightarrow>
    loop_step S (S\<lparr>sy_d := d, sy_loop := Waiting (waiting_events d)\<rparr>)"
| read_waiting: "sy_loop S = Following [] \<Longrightarrow>
    loop_step S (S\<lparr>sy_d := poke (sy_d S), sy_loop := Waiting (waiting_events (sy_d S))\<rparr>)"
| read_waiting_quiet: "sy_loop S = Following [] \<Longrightarrow>
    loop_step S (S\<lparr>sy_loop := Waiting (waiting_events (sy_d S))\<rparr>)"
| read_rows: "sy_loop S = Waiting es \<Longrightarrow>
    on_db (QueuedRuns now scheduleBatch es) (sy_d S) = (Inr rs, d) \<Longrightarrow>
    loop_step S (S\<lparr>sy_d := d, sy_loop := GotRows rs\<rparr>)"
| read_rows_fails: "sy_loop S = Waiting es \<Longrightarrow>
    on_db (QueuedRuns now scheduleBatch es) (sy_d S) = (Inl e, d) \<Longrightarrow>
    loop_step S (S\<lparr>sy_d := queueError now ''queued_runs'' e d, sy_loop := AtRest\<rparr>)"
| read_newest: "sy_loop S = GotRows rs \<Longrightarrow>
    loop_step S (S\<lparr>sy_loop := Scanning (newest_of (sy_d S) rs) rs\<rparr>)"
| decides: "sy_loop S = Scanning new (r # rs) \<Longrightarrow> decide now new r (sy_d S) = (dec, d) \<Longrightarrow>
    \<forall>sp. dec \<noteq> Started sp \<Longrightarrow>
    loop_step S (S\<lparr>sy_d := d, sy_loop := Decided r dec new rs\<rparr>)"
| starts: "sy_loop S = Scanning new (r # rs) \<Longrightarrow> decide now new r (sy_d S) = (Started sp, d) \<Longrightarrow>
    loop_step S (S\<lparr>sy_d := d, sy_loop := Decided r (Started sp) new rs,
      sy_live := sy_live S @ [\<lparr>lv_run = r, lv_spec = sp, lv_phase = Claimed\<rparr>],
      sy_started := sy_started S @ [run_id r]\<rparr>)"
| acts: "sy_loop S = Decided r dec new rs \<Longrightarrow> dec \<noteq> ScanEnds \<Longrightarrow> \<forall>sp. dec \<noteq> Started sp \<Longrightarrow>
    loop_step S (S\<lparr>sy_d := snd (act now r dec (sy_d S)), sy_loop := Scanning new rs\<rparr>)"
| hands_over: "sy_loop S = Decided r (Started sp) new rs \<Longrightarrow> unmarshal_event (run_payload r) = Some ev \<Longrightarrow>
    sy_live S = ls1 @ l # ls2 \<Longrightarrow> lv_run l = r \<Longrightarrow> lv_phase l = Claimed \<Longrightarrow>
    loop_step S (S\<lparr>sy_d := snd (act now r (Started sp) (sy_d S)), sy_loop := Scanning new rs,
      sy_live := ls1 @ set_phase Executing l # ls2\<rparr>)"
| unreadable: "sy_loop S = Decided r (Started sp) new rs \<Longrightarrow> unmarshal_event (run_payload r) = None \<Longrightarrow>
    sy_live S = ls1 @ l # ls2 \<Longrightarrow> lv_run l = r \<Longrightarrow> lv_phase l = Claimed \<Longrightarrow>
    loop_step S (S\<lparr>sy_loop := Scanning new rs, sy_live := ls1 @ set_phase (Exited unreadable_result) l # ls2\<rparr>)"
| scan_ends: "sy_loop S = Decided r ScanEnds new rs \<or> sy_loop S = Scanning new [] \<Longrightarrow>
    loop_step S (S\<lparr>sy_loop := AtRest\<rparr>)"
| scan_ends_progressed: "sy_loop S = Decided r ScanEnds new rs \<or> sy_loop S = Scanning new [] \<Longrightarrow>
    loop_step S (S\<lparr>sy_d := poke (sy_d S), sy_loop := AtRest\<rparr>)"
| reads_next_due: "sy_loop S = AtRest \<Longrightarrow> on_db (NextNotBefore now) (sy_d S) = (Inr at, d) \<Longrightarrow>
    loop_step S (S\<lparr>sy_d := d\<lparr>d_next_due := (case at of None \<Rightarrow> zero_time | Some t \<Rightarrow> t)\<rparr>\<rparr>)"
| reads_next_due_fails: "sy_loop S = AtRest \<Longrightarrow> on_db (NextNotBefore now) (sy_d S) = (Inl e, d) \<Longrightarrow>
    loop_step S (S\<lparr>sy_d := queueError now ''next_not_before'' e (d\<lparr>d_next_due := zero_time\<rparr>)\<rparr>)"
| beats: "sy_loop S = AtRest \<Longrightarrow> loop_step S (S\<lparr>sy_d := heartbeat now info (sy_d S)\<rparr>)"
| prunes: "sy_loop S = AtRest \<Longrightarrow> loop_step S (S\<lparr>sy_d := prune now (sy_d S)\<rparr>)"

text \<open>The goroutine of a run: its command exits, then the sections of finish and restart.\<close>

inductive run_step :: "sys \<Rightarrow> sys \<Rightarrow> bool" where
  exits: "sy_live S = ls1 @ l # ls2 \<Longrightarrow> lv_phase l = Executing \<Longrightarrow>
    run_step S (S\<lparr>sy_live := ls1 @ set_phase (Exited res) l # ls2\<rparr>)"
| records: "sy_live S = ls1 @ l # ls2 \<Longrightarrow> lv_phase l = Exited res \<Longrightarrow>
    run_step S (S\<lparr>sy_d := finish_record now (lv_run l) (lv_spec l) res (sy_d S),
      sy_live := ls1 @ set_phase (Recorded res) l # ls2\<rparr>)"
| counts_out: "sy_live S = ls1 @ l # ls2 \<Longrightarrow> lv_phase l = Recorded res \<Longrightarrow>
    run_step S (S\<lparr>sy_d := finish_memory (lv_run l) res (sy_d S), sy_live := ls1 @ ls2,
      sy_restarts := sy_restarts S @ [RestartCheck (lv_run l) (finish_status res) (res_duration res)]\<rparr>)"
| checks_restart: "sy_restarts S = rs1 @ RestartCheck r st elapsed # rs2 \<Longrightarrow>
    restart_decide r st elapsed (sy_d S) = (Some (sp, delay), d) \<Longrightarrow>
    run_step S (S\<lparr>sy_d := d, sy_restarts := rs1 @ RestartQueue r sp delay # rs2\<rparr>)"
| no_restart: "sy_restarts S = rs1 @ RestartCheck r st elapsed # rs2 \<Longrightarrow>
    restart_decide r st elapsed (sy_d S) = (None, d) \<Longrightarrow>
    run_step S (S\<lparr>sy_d := poke d, sy_restarts := rs1 @ rs2\<rparr>)"
| restarts: "sy_restarts S = rs1 @ RestartQueue r sp delay # rs2 \<Longrightarrow>
    run_step S (S\<lparr>sy_d := poke (restart_enqueue now r sp delay (sy_d S)), sy_restarts := rs1 @ rs2\<rparr>)"

text \<open>The other goroutines of kickd and the other processes.\<close>

inductive env_step :: "sys \<Rightarrow> sys \<Rightarrow> bool" where
  submits: "env_step S (S\<lparr>sy_d := snd (submit now name ev wait (sy_d S))\<rparr>)"
| configures: "env_step S (S\<lparr>sy_d := Configure specs (sy_d S)\<rparr>)"
| other_process: "external x \<Longrightarrow> env_step S (S\<lparr>sy_d := (sy_d S)\<lparr>d_db := snd (run_op x (d_db (sy_d S)))\<rparr>\<rparr>)"
| stops: "env_step S (S\<lparr>sy_d := stop_runner (sy_d S)\<rparr>)"

definition sys_step :: "sys \<Rightarrow> sys \<Rightarrow> bool" where
  "sys_step S T \<longleftrightarrow> loop_step S T \<or> run_step S T \<or> env_step S T"

text \<open>The start: a dispatcher that has run nothing, on any database, after Configure and Recover.\<close>

definition sys_start :: "sys \<Rightarrow> bool" where
  "sys_start S \<longleftrightarrow> db_wf (d_db (sy_d S)) \<and> d_running (sy_d S) = [] \<and> d_cancels (sy_d S) = {}
     \<and> sy_live S = [] \<and> sy_loop S = AtRest \<and> sy_restarts S = [] \<and> sy_started S = []"

section \<open>What most sections leave alone\<close>

text \<open>
  A quiet section keeps the counts of running commands and the cancel functions, keeps the
  tables well-formed and lets rows only evolve.
\<close>

definition quietly :: "disp \<Rightarrow> disp \<Rightarrow> bool" where
  "quietly s s' \<longleftrightarrow> d_running s' = d_running s \<and> d_cancels s' = d_cancels s
     \<and> evolves (d_db s) (d_db s') \<and> (db_wf (d_db s) \<longrightarrow> db_wf (d_db s'))"

lemma quietly_refl [simp, intro]: "quietly s s"
  by (simp add: quietly_def evo.R_refl)

lemma quietly_trans: "quietly a b \<Longrightarrow> quietly b c \<Longrightarrow> quietly a c"
  by (auto simp: quietly_def intro: evolves_trans)

lemma quietly_memory [simp]:
  "quietly s (s'\<lparr>d_errors := x1\<rparr>) = quietly s s'" "quietly s (s'\<lparr>d_err_limit_at := x2\<rparr>) = quietly s s'"
  "quietly s (s'\<lparr>d_wake := x3\<rparr>) = quietly s s'" "quietly s (s'\<lparr>d_waiters := x4\<rparr>) = quietly s s'"
  "quietly s (s'\<lparr>d_delivered := x5\<rparr>) = quietly s s'" "quietly s (s'\<lparr>d_heap := x6\<rparr>) = quietly s s'"
  "quietly s (s'\<lparr>d_ctx := x7\<rparr>) = quietly s s'" "quietly s (s'\<lparr>d_cancel_sent := x8\<rparr>) = quietly s s'"
  "quietly s (s'\<lparr>d_ids := x9\<rparr>) = quietly s s'" "quietly s (s'\<lparr>d_stats := x10\<rparr>) = quietly s s'"
  "quietly s (s'\<lparr>d_restart_delays := x11\<rparr>) = quietly s s'" "quietly s (s'\<lparr>d_next_due := x12\<rparr>) = quietly s s'"
  "quietly s (s'\<lparr>d_specs := x13\<rparr>) = quietly s s'" "quietly s (s'\<lparr>d_follows := x14\<rparr>) = quietly s s'"
  "quietly s (s'\<lparr>d_stopping := x15\<rparr>) = quietly s s'" "quietly s (s'\<lparr>d_spawned := x16\<rparr>) = quietly s s'"
  "quietly s (s'\<lparr>d_active := x17\<rparr>) = quietly s s'" "quietly s (s'\<lparr>d_run_info := x18\<rparr>) = quietly s s'"
  by (simp_all add: quietly_def)

lemma quietly_queueError [simp]: "quietly s (queueError now op e s') = quietly s s'"
  by (simp add: queueError_def Let_def)

lemma quietly_poke [simp]: "quietly s (poke s') = quietly s s'"
  by (simp add: poke_def)

lemma quietly_counts [simp]: "quietly s (count_dropped s') = quietly s s'" "quietly s (count_skipped s') = quietly s s'"
  by (simp_all add: count_dropped_def count_skipped_def)

lemma quietly_take_waiter [simp]: "quietly s (take_waiter i res s') = quietly s s'"
  by (simp add: take_waiter_def)

lemma quietly_NewID: "NewID s = (rid, s') \<Longrightarrow> quietly t s' = quietly t s"
  by (auto simp: NewID_def)

definition good :: "'a dbm \<Rightarrow> bool" where
  "good m \<longleftrightarrow> keeps_wf m \<and> keeps evolves m"

lemma quietly_on_db: "good m \<Longrightarrow> on_db m s = (r, s') \<Longrightarrow> quietly s s'"
  by (auto simp: good_def on_db_def quietly_def keeps_def split: prod.splits)
    (metis snd_conv)+

lemma good_query: "good (query q)"
  by (simp add: good_def wf.kept.keeps_query evo.keeps_query)

lemma good_ops [simp]:
  "good (Enqueue now r m)" "good (Follow now i rs)" "good (StartRun i now)"
  "fin_status f \<noteq> StatusQueued \<Longrightarrow> good (FinishRun now i f)"
  "st \<noteq> StatusQueued \<Longrightarrow> good (Settle now i st reason detail)"
  "good (AddSkipped i)" "good (Prune now)" "good (Heartbeat now a)"
  "good CancelRequests" "good (UnfollowedRuns n)" "good (QueuedRuns now n es)"
  "good (NextNotBefore now)"
  unfolding CancelRequests_def UnfollowedRuns_def QueuedRuns_def NextNotBefore_def
  by (simp_all add: good_query, simp_all add: good_def inv_intros)

lemma quietly_on_db_case:
  assumes "good m" and "\<And>e s1. quietly s s1 \<Longrightarrow> quietly s (f e s1)" and "\<And>a s1. quietly s s1 \<Longrightarrow> quietly s (g a s1)"
  shows "quietly s (case on_db m s of (Inl e, s1) \<Rightarrow> f e s1 | (Inr a, s1) \<Rightarrow> g a s1)"
  using assms quietly_on_db [OF assms(1)] by (auto split: prod.split sum.split)

lemma finish_status_not_queued [simp]: "finish_status res \<noteq> StatusQueued" "fin_status (finish_of sp res) \<noteq> StatusQueued"
  "fin_status canceled_finish \<noteq> StatusQueued"
  by (simp_all add: finish_status_def finish_of_def canceled_finish_def)

lemma quietly_finish_record: "quietly s (finish_record now r sp res s)"
  unfolding finish_record_def by (rule quietly_on_db_case) simp_all

lemma quietly_cancel_act: "quietly s (cancel_act now i os s)"
proof -
  have "quietly s (case on_db (FinishRun now i canceled_finish) s of
      (Inl e, s') \<Rightarrow> queueError now ''finish_run'' e s' | (Inr u, s') \<Rightarrow> s')"
    by (rule quietly_on_db_case) simp_all
  then show ?thesis by (cases os) (simp add: cancel_act_def cancel_run_def)
qed

lemma quietly_cancel_lock: "cancel_lock i s = (os, s') \<Longrightarrow> quietly s s'"
  by (auto simp: cancel_lock_def Let_def split: if_splits)

lemma quietly_settle: "st \<noteq> StatusQueued \<Longrightarrow> quietly s (snd (settle now r st reason detail s))"
  using quietly_on_db [of "Settle now (run_id r) st reason detail" s]
  by (auto simp: settle_def split: prod.split sum.split)

lemma quietly_skip_run: "quietly s (skip_run now r a s)"
proof -
  obtain ok s1 where s1: "settle now r StatusSkipped ''already_running''
      (case a of None \<Rightarrow> [] | Some i \<Rightarrow> run_detail_text i) s = (ok, s1)" by fastforce
  from quietly_settle [of StatusSkipped s now r "''already_running''"] s1 have q: "quietly s s1"
    by (metis snd_conv status.distinct(9))
  show ?thesis
  proof (cases a)
    case None
    with s1 q show ?thesis by (simp add: skip_run_def)
  next
    case (Some i)
    let ?s3 = "(count_skipped s1)\<lparr>d_heap := (d_heap (count_skipped s1))(i := map_option
      (\<lambda>x. x\<lparr>ar_skipped := ar_skipped x + 1\<rparr>) (d_heap (count_skipped s1) i))\<rparr>"
    have "quietly ?s3 (case on_db (AddSkipped i) ?s3 of
        (Inl e, s4) \<Rightarrow> queueError now ''add_skipped'' e s4 | (Inr u, s4) \<Rightarrow> s4)"
      by (rule quietly_on_db_case) simp_all
    moreover have "quietly s ?s3" using q by simp
    ultimately have "quietly s (case on_db (AddSkipped i) ?s3 of
        (Inl e, s4) \<Rightarrow> queueError now ''add_skipped'' e s4 | (Inr u, s4) \<Rightarrow> s4)"
      by (rule quietly_trans [rotated])
    with s1 q Some show ?thesis by (simp add: skip_run_def Let_def)
  qed
qed

lemma quietly_act: "(\<forall>sp. dec \<noteq> Started sp) \<Longrightarrow> quietly s (snd (act now r dec s))"
  by (cases "(now, r, dec, s)" rule: act.cases)
    (auto simp: quietly_settle quietly_skip_run cancel_run_def)

lemma quietly_replace_active: "quietly s (snd (replace_active r s))"
  by (auto simp: replace_active_def split: option.split)

lemma quietly_decide:
  assumes "decide now new r s = (dec, s')" and "\<forall>sp. dec \<noteq> Started sp"
  shows "quietly s s'"
proof -
  have "quietly s t" if "start_row now sp r s = (dec, t)" for sp t
    using that assms(2) quietly_on_db [of "StartRun (run_id r) now" s]
    by (auto simp: start_row_def Let_def split: prod.splits sum.splits if_splits)
  with assms quietly_replace_active [of s r] show ?thesis
    by (auto simp: decide_def decide_locked_def Let_def split: option.splits if_splits)
qed

lemma quietly_follow_runs: "quietly s (snd (follow_runs now r fs s))"
proof (induction now r fs s rule: follow_runs.induct)
  case (2 now r f fs s)
  have n: "quietly s (snd (NewID s))" by (simp add: NewID_def)
  then show ?case
    using 2 by (auto split: option.split prod.split if_split intro: quietly_trans)
qed simp

lemma quietly_fold_counts: "quietly s t \<Longrightarrow> quietly s (fold (\<lambda>x s. if snd x then count_dropped s else s) ids t)"
  by (induction ids arbitrary: t) auto

lemma quietly_follow_one: "quietly s (snd (follow_one now r s))"
proof -
  obtain rs s1 where 1: "(if en_status r = StatusRetried then ([], s)
      else follow_runs now r (d_follows s (en_event r)) s) = (rs, s1)" by fastforce
  with quietly_follow_runs [of s now r "d_follows s (en_event r)"] have q: "quietly s s1"
    by (auto split: if_splits)
  obtain x s2 where 2: "on_db (Follow now (en_id r) rs) s1 = (x, s2)" by fastforce
  with q have "quietly s s2" using quietly_on_db quietly_trans good_ops(2) by blast
  then show ?thesis
    using 1 2 by (auto simp: follow_one_def quietly_fold_counts split: sum.split)
qed

lemma quietly_submit_enqueue:
  "quietly s (snd (case on_db (Enqueue now r m) s of
      (Inl e, s') \<Rightarrow> (x e, queueError now ''enqueue'' e s')
    | (Inr (i, dropped), s') \<Rightarrow> (if dropped then (y i, count_dropped s')
        else (z i, poke (if wait then s'\<lparr>d_waiters := insert i (d_waiters s')\<rparr> else s')))))"
proof -
  obtain a t where a: "on_db (Enqueue now r m) s = (a, t)" by fastforce
  then have "quietly s t" by (rule quietly_on_db [rotated]) simp
  with a show ?thesis by (cases a) (auto split: prod.split)
qed

lemma quietly_submit: "quietly s (snd (submit now name ev wait s))"
proof -
  obtain rid t where n: "(if ev_request_id ev = [] then NewID s else (ev_request_id ev, s)) = (rid, t)"
    by fastforce
  then have q: "quietly s t" by (auto simp: NewID_def split: if_splits)
  have "quietly t (snd (submit now name ev wait s))"
    unfolding submit_def n Let_def prod.case
    by (cases "d_specs t name") (simp_all add: quietly_submit_enqueue split: option.split)
  with q show ?thesis by (rule quietly_trans)
qed

lemma quietly_restart_enqueue: "quietly s (restart_enqueue now r sp delay s)"
proof -
  obtain rid t where n: "NewID s = (rid, t)" by fastforce
  then have q: "quietly s t" by (auto simp: NewID_def)
  have "quietly t (case on_db (Enqueue now x m) t of
      (Inl e, s') \<Rightarrow> queueError now ''enqueue'' e s'
    | (Inr (i, dropped), s') \<Rightarrow> if dropped then count_dropped s' else s')" for x m
    by (rule quietly_on_db_case) (auto split: prod.split)
  with q n show ?thesis
    unfolding restart_enqueue_def Let_def by (auto split: option.split intro: quietly_trans)
qed

lemma quietly_restart_decide: "restart_decide r st elapsed s = (x, s') \<Longrightarrow> quietly s s'"
  by (auto simp: restart_decide_def Let_def split: if_splits option.splits)

lemma quietly_heartbeat: "quietly s (heartbeat now info s)"
  unfolding heartbeat_def by (rule quietly_on_db_case) simp_all

lemma quietly_prune: "quietly s (prune now s)"
  unfolding prune_def by (auto intro!: quietly_on_db_case)

lemma quietly_Configure: "quietly s (Configure specs s)"
  by (simp add: Configure_def)

lemma quietly_stop_runner: "quietly s (stop_runner s)"
  by (simp add: stop_runner_def)

lemma quietly_external: "external x \<Longrightarrow> quietly s (s\<lparr>d_db := snd (run_op x (d_db s))\<rparr>)"
  unfolding quietly_def using wf_run_op [of "d_db s" x] evo_run_op [of x "d_db s"] by (cases x) auto

end
