(* ===== verification/DispatcherInv.thy ===== *)
theory DispatcherInv
  imports DispatcherConc
begin

text \<open>
  What holds in every interleaving of the dispatcher: the counts of running commands, the cancel
  functions and the mutual exclusion of the runs of one event.
\<close>

section \<open>The invariant\<close>

definition exclusive :: "spec \<Rightarrow> bool" where
  "exclusive sp \<longleftrightarrow> sp_concurrency sp \<in> {PolicySkip, PolicyQueue, PolicyReplace}"

type_synonym lives = "(run \<times> spec) list"

definition lives :: "sys \<Rightarrow> lives" where
  "lives S = map (\<lambda>l. (lv_run l, lv_spec l)) (sy_live S)"

definition live_count :: "lives \<Rightarrow> string \<Rightarrow> int" where
  "live_count ls e = int (length (filter (\<lambda>(r, sp). run_event r = e) ls))"

definition live_ids :: "lives \<Rightarrow> int list" where
  "live_ids ls = map (\<lambda>(r, sp). run_id r) ls"

text \<open>A run that started under an exclusive policy started when no run of its event was live.\<close>

definition exclusive_pair :: "run \<times> spec \<Rightarrow> run \<times> spec \<Rightarrow> bool" where
  "exclusive_pair a b \<longleftrightarrow> (exclusive (snd b) \<longrightarrow> run_event (fst a) \<noteq> run_event (fst b))"

definition counts_ok :: "lives \<Rightarrow> disp \<Rightarrow> bool" where
  "counts_ok ls s \<longleftrightarrow> distinct (map fst (d_running s))
     \<and> (\<forall>e. map_of (d_running s) e = (if live_count ls e = 0 then None else Some (live_count ls e)))
     \<and> d_cancels s = set (live_ids ls)"

definition sys_inv :: "sys \<Rightarrow> bool" where
  "sys_inv S \<longleftrightarrow> db_wf (d_db (sy_d S)) \<and> counts_ok (lives S) (sy_d S)
     \<and> distinct (live_ids (lives S)) \<and> set (live_ids (lives S)) \<subseteq> set (sy_started S)
     \<and> distinct (sy_started S) \<and> (\<forall>i \<in> set (sy_started S). left_queue i (d_db (sy_d S)))
     \<and> sorted_wrt exclusive_pair (lives S)"

lemma live_count_simps [simp]:
  "live_count [] e = 0"
  "live_count (x # ls) e = (if run_event (fst x) = e then 1 else 0) + live_count ls e"
  "live_count (ls @ ks) e = live_count ls e + live_count ks e"
  by (simp_all add: live_count_def case_prod_beta)

lemma live_count_ge_0 [simp]: "0 \<le> live_count ls e"
  by (simp add: live_count_def)

lemma live_count_0: "live_count ls e = 0 \<longleftrightarrow> (\<forall>x \<in> set ls. run_event (fst x) \<noteq> e)"
  by (auto simp: live_count_def filter_empty_conv case_prod_beta)

lemma live_ids_simps [simp]:
  "live_ids [] = []" "live_ids (x # ls) = run_id (fst x) # live_ids ls" "live_ids (ls @ ks) = live_ids ls @ live_ids ks"
  by (simp_all add: live_ids_def case_prod_beta)

lemma counts_running: "counts_ok ls s \<Longrightarrow> running_of s e = live_count ls e"
  by (auto simp: counts_ok_def running_of_def split: option.split if_splits)

lemma inv_quiet:
  assumes "sys_inv S" and "quietly (sy_d S) (sy_d T)" and "lives T = lives S" and "sy_started T = sy_started S"
  shows "sys_inv T"
proof -
  from assms(1,2) have "\<forall>i \<in> set (sy_started S). left_queue i (d_db (sy_d T))"
    by (auto simp: sys_inv_def quietly_def intro: left_queue_evolves)
  with assms show ?thesis
    by (auto simp: sys_inv_def quietly_def counts_ok_def)
qed

lemma lives_set_phase: "sy_live S = ls1 @ l # ls2 \<Longrightarrow>
    lives (S\<lparr>sy_live := ls1 @ set_phase p l # ls2\<rparr>) = lives S"
  by (simp add: lives_def set_phase_def)

lemma lives_update [simp]:
  "lives (S\<lparr>sy_d := d\<rparr>) = lives S" "lives (S\<lparr>sy_loop := pc\<rparr>) = lives S"
  "lives (S\<lparr>sy_restarts := rs\<rparr>) = lives S" "lives (S\<lparr>sy_started := is\<rparr>) = lives S"
  by (simp_all add: lives_def)

section \<open>Starting a run\<close>

lemma decide_Started:
  assumes "decide now new r s = (Started sp, s')"
  obtains t where "d_specs s (run_event r) = Some sp" "exclusive sp \<Longrightarrow> running_of s (run_event r) \<le> 0"
    "on_db (StartRun (run_id r) now) s = (Inr True, t)"
    "d_running s' = AList.update (run_event r) (running_of t (run_event r) + 1) (d_running t)"
    "d_cancels s' = insert (run_id r) (d_cancels t)" "d_db s' = d_db t"
proof -
  from assms have "decide_locked now r s = (Started sp, s')"
    by (auto simp: decide_def split: option.splits if_splits)
  then have sp: "d_specs s (run_event r) = Some sp" "exclusive sp \<Longrightarrow> running_of s (run_event r) \<le> 0"
    and st: "start_row now sp r s = (Started sp, s')"
    by (auto simp: decide_locked_def Let_def exclusive_def replace_active_def start_row_def
        split: option.splits if_splits prod.splits sum.splits)
  from st obtain t where "on_db (StartRun (run_id r) now) s = (Inr True, t)"
    "d_running s' = AList.update (run_event r) (running_of t (run_event r) + 1) (d_running t)"
    "d_cancels s' = insert (run_id r) (d_cancels t)" "d_db s' = d_db t"
    by (auto simp: start_row_def Let_def split: prod.splits sum.splits if_splits)
  with sp show ?thesis by (rule that)
qed

lemma map_of_AList_update: "map_of (AList.update k v xs) = (map_of xs)(k \<mapsto> v)"
  by (simp add: update_conv')

lemma inv_start:
  assumes inv: "sys_inv S" and dec: "decide now new r (sy_d S) = (Started sp, d)"
    and T: "sy_d T = d" "lives T = lives S @ [(r, sp)]" "sy_started T = sy_started S @ [run_id r]"
  shows "sys_inv T"
proof -
  from dec have free: "exclusive sp \<Longrightarrow> running_of (sy_d S) (run_event r) \<le> 0"
    by (rule decide_Started)
  from dec obtain t where t: "on_db (StartRun (run_id r) now) (sy_d S) = (Inr True, t)"
    "d_running d = AList.update (run_event r) (running_of t (run_event r) + 1) (d_running t)"
    "d_cancels d = insert (run_id r) (d_cancels t)" "d_db d = d_db t"
    by (rule decide_Started) blast
  have q: "quietly (sy_d S) t" using quietly_on_db [OF good_ops(3) t(1)] .
  from t(1) have "StartRun (run_id r) now (d_db (sy_d S)) = (Inr True, d_db t)"
    by (auto simp: on_db_def split: prod.splits)
  from StartRun_True [OF this] inv have lq: "\<not> left_queue (run_id r) (d_db (sy_d S))" "left_queue (run_id r) (d_db t)"
    by (auto simp: sys_inv_def)
  with inv have fresh: "run_id r \<notin> set (sy_started S)" by (auto simp: sys_inv_def)
  from inv have ids: "set (live_ids (lives S)) \<subseteq> set (sy_started S)" by (simp add: sys_inv_def)
  from inv q have co: "counts_ok (lives S) t" by (auto simp: sys_inv_def counts_ok_def quietly_def)
  note run = counts_running [OF co]
  have "\<forall>a \<in> set (lives S). exclusive_pair a (r, sp)"
    using free inv counts_running [of "lives S" "sy_d S" "run_event r"]
    by (fastforce simp: sys_inv_def exclusive_pair_def live_count_0 dest!: antisym [OF _ live_count_ge_0])
  then have "sorted_wrt exclusive_pair (lives S @ [(r, sp)])"
    using inv by (simp add: sys_inv_def sorted_wrt_append)
  moreover have "counts_ok (lives S @ [(r, sp)]) d"
    using co t(2,3) by (auto simp: counts_ok_def run distinct_update map_of_AList_update)
      (smt (verit) live_count_ge_0)+
  moreover have "\<forall>i \<in> set (sy_started S). left_queue i (d_db t)"
    using inv q by (auto simp: sys_inv_def quietly_def intro: left_queue_evolves)
  ultimately show ?thesis
    using inv q lq fresh ids t(4) by (auto simp: sys_inv_def T quietly_def)
qed

section \<open>Counting a run out\<close>

lemma distinct_AList_delete: "distinct (map fst xs) \<Longrightarrow> distinct (map fst (AList.delete k xs))"
  by (rule AList.distinct_delete)

lemma inv_finish:
  assumes inv: "sys_inv S" and L: "lives S = ls1 @ (r, sp) # ls2"
    and T: "sy_d T = finish_memory r res (sy_d S)" "lives T = ls1 @ ls2" "sy_started T = sy_started S"
  shows "sys_inv T"
proof -
  let ?s = "sy_d S" and ?e = "run_event r"
  from inv L have co: "counts_ok (ls1 @ (r, sp) # ls2) ?s" by (simp add: sys_inv_def)
  have n: "running_of ?s ?e - 1 = live_count (ls1 @ ls2) ?e"
    using counts_running [OF co, of ?e] by simp
  have run: "d_running (finish_memory r res ?s) =
      (if live_count (ls1 @ ls2) ?e = 0 then AList.delete ?e (d_running ?s)
       else AList.update ?e (live_count (ls1 @ ls2) ?e) (d_running ?s))"
    "d_cancels (finish_memory r res ?s) = d_cancels ?s - {run_id r}" "d_db (finish_memory r res ?s) = d_db ?s"
  proof -
    have "(running_of ?s ?e - 1 \<le> 0) = (live_count (ls1 @ ls2) ?e = 0)"
      unfolding n using live_count_ge_0 [of "ls1 @ ls2" ?e] by linarith
    with n show "d_running (finish_memory r res ?s) =
      (if live_count (ls1 @ ls2) ?e = 0 then AList.delete ?e (d_running ?s)
       else AList.update ?e (live_count (ls1 @ ls2) ?e) (d_running ?s))"
      by (simp add: finish_memory_def Let_def take_waiter_def)
  qed (simp_all add: finish_memory_def Let_def take_waiter_def)
  have dist: "distinct (live_ids (lives S))" using inv by (simp add: sys_inv_def)
  have "counts_ok (ls1 @ ls2) (finish_memory r res ?s)"
    using co dist L
    by (auto simp: counts_ok_def run distinct_update AList.distinct_delete map_of_AList_update delete_conv' live_count_0
        add_nonneg_eq_0_iff)
  moreover have "sorted_wrt exclusive_pair (ls1 @ ls2)"
    using inv L by (auto simp: sys_inv_def sorted_wrt_append)
  ultimately show ?thesis
    using inv L dist by (auto simp: sys_inv_def T run)
qed

section \<open>Every step keeps the invariant\<close>

lemma inv_quiet_loop:
  "sys_inv S \<Longrightarrow> quietly (sy_d S) d \<Longrightarrow> sys_inv (S\<lparr>sy_d := d, sy_loop := pc\<rparr>)"
  "sys_inv S \<Longrightarrow> sys_inv (S\<lparr>sy_loop := pc\<rparr>)"
  "sys_inv S \<Longrightarrow> quietly (sy_d S) d \<Longrightarrow> sys_inv (S\<lparr>sy_d := d\<rparr>)"
  "sys_inv S \<Longrightarrow> quietly (sy_d S) d \<Longrightarrow> sys_inv (S\<lparr>sy_d := d, sy_restarts := rs\<rparr>)"
  by (erule inv_quiet; simp)+

lemma inv_loop_step: "loop_step S T \<Longrightarrow> sys_inv S \<Longrightarrow> sys_inv T"
proof (induction rule: loop_step.induct)
  case (read_cancels S ids d)
  then show ?case by (intro inv_quiet_loop quietly_on_db [OF good_ops(9)])
next
  case (read_cancels_fails S e d now)
  then show ?case by (intro inv_quiet_loop) (simp_all add: quietly_on_db [OF good_ops(9)])
next
  case (cancel_locks S i "is" os d)
  then show ?case by (intro inv_quiet_loop quietly_cancel_lock)
next
  case (cancel_acts S i os "is" now)
  then show ?case by (intro inv_quiet_loop quietly_cancel_act)
next
  case (read_ended S rs d)
  then show ?case by (intro inv_quiet_loop quietly_on_db [OF good_ops(10)])
next
  case (read_ended_fails S e d now)
  then show ?case by (intro inv_quiet_loop) (simp_all add: quietly_on_db [OF good_ops(10)])
next
  case (follows S r rs now f d)
  then show ?case using quietly_follow_one [of "sy_d S" now r] by (intro inv_quiet_loop) (auto simp only: snd_conv)
next
  case (follow_fails S r rs now d)
  then show ?case using quietly_follow_one [of "sy_d S" now r] by (intro inv_quiet_loop) (auto simp only: snd_conv)
next
  case (read_rows S es now rs d)
  then show ?case by (intro inv_quiet_loop quietly_on_db [OF good_ops(11)])
next
  case (read_rows_fails S es now e d)
  then show ?case by (intro inv_quiet_loop) (simp_all add: quietly_on_db [OF good_ops(11)])
next
  case (decides S new r rs now dec d)
  then show ?case by (intro inv_quiet_loop quietly_decide)
next
  case (starts S new r rs now sp d)
  show ?case by (rule inv_start [OF starts.prems starts(2)]) (simp_all add: lives_def)
next
  case (acts S r dec new rs now)
  then show ?case by (intro inv_quiet_loop quietly_act)
next
  case (hands_over S r sp new rs ev ls1 l ls2 now)
  then show ?case
    by (intro inv_quiet [OF hands_over.prems]) (auto simp: lives_def set_phase_def)
next
  case (unreadable S r sp new rs ls1 l ls2)
  then show ?case
    by (intro inv_quiet [OF unreadable.prems]) (auto simp: lives_def set_phase_def)
next
  case (reads_next_due S now at d)
  then show ?case by (intro inv_quiet_loop) (simp_all add: quietly_on_db [OF good_ops(12)])
next
  case (reads_next_due_fails S now e d)
  then show ?case by (intro inv_quiet_loop) (simp_all add: quietly_on_db [OF good_ops(12)])
next
  case (beats S now info)
  then show ?case by (intro inv_quiet_loop quietly_heartbeat)
next
  case (prunes S now)
  then show ?case by (intro inv_quiet_loop quietly_prune)
qed (simp_all add: inv_quiet_loop)

lemma inv_run_step: "run_step S T \<Longrightarrow> sys_inv S \<Longrightarrow> sys_inv T"
proof (induction rule: run_step.induct)
  case (exits S ls1 l ls2 res)
  then show ?case by (intro inv_quiet [OF exits.prems]) (auto simp: lives_set_phase)
next
  case (records S ls1 l ls2 res now)
  then show ?case
    by (intro inv_quiet [OF records.prems])
      (auto simp: quietly_finish_record lives_def set_phase_def)
next
  case (counts_out S ls1 l ls2 res)
  then show ?case
    by (intro inv_finish [OF counts_out.prems, of "map (\<lambda>l. (lv_run l, lv_spec l)) ls1" "lv_run l" "lv_spec l"
          "map (\<lambda>l. (lv_run l, lv_spec l)) ls2" _ res]) (auto simp: lives_def)
next
  case (checks_restart S rs1 r st elapsed rs2 sp delay d)
  then show ?case by (intro inv_quiet_loop quietly_restart_decide)
next
  case (no_restart S rs1 r st elapsed rs2 d)
  then show ?case by (intro inv_quiet_loop) (simp_all add: quietly_restart_decide)
next
  case (restarts S rs1 r sp delay rs2 now)
  then show ?case by (intro inv_quiet_loop) (simp_all add: quietly_restart_enqueue)
qed

lemma inv_env_step: "env_step S T \<Longrightarrow> sys_inv S \<Longrightarrow> sys_inv T"
  by (induction rule: env_step.induct)
    (simp_all add: inv_quiet_loop quietly_submit quietly_Configure quietly_external quietly_stop_runner)

interpretation disp: machine_invariant sys_start sys_step sys_inv
proof unfold_locales
  show "sys_start S \<Longrightarrow> sys_inv S" for S
    by (simp add: sys_start_def sys_inv_def counts_ok_def lives_def)
  show "sys_inv S \<Longrightarrow> sys_step S T \<Longrightarrow> sys_inv T" for S T
    by (auto simp: sys_step_def intro: inv_loop_step inv_run_step inv_env_step)
qed

end
