(* ===== verification/RunnerProps.thy ===== *)
theory RunnerProps
  imports Runner
begin

text \<open>
  Properties of one run: its outcome and the counters, the environment of the command, the
  program that is found for it, and the sharing of output files.
\<close>

section \<open>Outcomes\<close>

text \<open>The counter that belongs to a result.\<close>

definition counter_of :: "result \<Rightarrow> counter" where
  "counter_of res =
     (if res_reason res = ''shutdown'' then Count_interrupted
      else if res_reason res \<in> {''canceled_by_user'', ''replaced''} then Count_canceled
      else if res_error res = [] \<and> res_exit_code res = 0 then Count_succeeded
      else Count_failed)"

definition outcome_ok :: "result \<times> log_entry \<times> stats \<Rightarrow> stats \<Rightarrow> bool" where
  "outcome_ok x s = (case x of (res, e, s') \<Rightarrow> s' = count_run (counter_of res) s
     \<and> le_msg e = (case counter_of res of Count_succeeded \<Rightarrow> ''Run completed'' | Count_failed \<Rightarrow> ''Run failed''
         | Count_canceled \<Rightarrow> if res_reason res = ''replaced'' then ''Run replaced'' else ''Run canceled''
         | Count_interrupted \<Rightarrow> ''Run interrupted'')
     \<and> (res_reason res = [] \<longleftrightarrow> counter_of res = Count_succeeded)
     \<and> (if res_reason res = [] then le_attrs e \<noteq> [] \<and> fst (hd (le_attrs e)) = ''exitCode''
        else le_attrs e \<noteq> [] \<and> hd (le_attrs e) = (''reason'', Attr_str (res_reason res)))
     \<and> (res_error res = ''canceled'' \<longleftrightarrow> counter_of res \<in> {Count_canceled, Count_interrupted}))"

lemma outcome_startFailure: "outcome_ok (startFailure d stage err s) s"
  by (simp add: outcome_ok_def startFailure_def counter_of_def)

lemma outcome_canceledBeforeStart: "outcome_ok (canceledBeforeStart d ctx s) s"
  by (cases ctx rule: stopReason.cases) (simp_all add: outcome_ok_def canceledBeforeStart_def counter_of_def)

lemma outcome_run_panicked: "outcome_ok (run_panicked d s) s"
  by (simp add: outcome_ok_def run_panicked_def counter_of_def)

lemma outcome_completed: "outcome_ok (completed debug sp d summary ch s) s"
proof (cases "ch_ctx ch")
  case None
  then show ?thesis
    by (auto simp: outcome_ok_def completed_def classify_def counter_of_def Let_def)
next
  case (Some c)
  then show ?thesis
    by (cases c) (simp_all add: outcome_ok_def completed_def classify_def counter_of_def Let_def)
qed

lemma outcome_run_child: "outcome_ok (run_child debug sp d summary la ch s) s"
  unfolding run_child_def
  by (auto simp: outcome_startFailure outcome_canceledBeforeStart outcome_completed split: option.split)

lemma execute_ok:
  assumes "execute pf debug newID d encode_err eventFile os sp ev summary s = (res, log, s')"
  shows "log \<noteq> [] \<and> outcome_ok (res, last log, s') s"
  using assms outcome_startFailure [of d "''event_encode''" encode_err s]
    outcome_startFailure [of d "''event_file''" _ s] outcome_run_panicked [of d s]
    outcome_run_child [of debug sp d summary _ _ s]
  unfolding execute_def Let_def
  by (auto simp: one_line_def split: option.splits sum.splits prod.splits if_splits) metis+


section \<open>The environment\<close>

definition sets :: "string \<Rightarrow> string \<Rightarrow> bool" where
  "sets k e \<longleftrightarrow> (case Cut e (CHR ''='') of (n, v, ok) \<Rightarrow> ok \<and> n = k)"

lemma sets_kv: "CHR ''='' \<notin> set n \<Longrightarrow> sets k (kv n v) \<longleftrightarrow> n = k"
  by (simp add: sets_def kv_def Cut_append)

lemma envValue_Nil [simp]: "envValue pf [] k = []"
  by (simp add: envValue_def)

lemma envValue_snoc:
  "\<not> pf_windows pf \<Longrightarrow> envValue pf (env @ [e]) k =
     (if sets k e then fst (snd (Cut e (CHR ''=''))) else envValue pf env k)"
  by (auto simp: envValue_def sets_def split: prod.splits)

lemma envValue_append:
  assumes "\<not> pf_windows pf"
  shows "envValue pf (xs @ ys) k = (if \<exists>e \<in> set ys. sets k e then envValue pf ys k else envValue pf xs k)"
proof (induction ys rule: rev_induct)
  case (snoc y ys)
  have "envValue pf (xs @ ys @ [y]) k = envValue pf ((xs @ ys) @ [y]) k" by simp
  with snoc show ?case
    by (simp add: envValue_snoc assms del: append_assoc)
qed simp

lemma envValue_kvs:
  assumes "\<not> pf_windows pf" and "\<forall>n \<in> set (map fst xs). CHR ''='' \<notin> set n" and "distinct (map fst xs)"
  shows "(\<exists>e \<in> set (map (\<lambda>(n, v). kv n v) xs). sets k e) \<longleftrightarrow> map_of xs k \<noteq> None"
    and "map_of xs k = Some v \<Longrightarrow> envValue pf (map (\<lambda>(n, v). kv n v) xs) k = v"
proof -
  have s: "sets k (case x of (n, v) \<Rightarrow> kv n v) \<longleftrightarrow> fst x = k" if "x \<in> set xs" for x
  proof -
    obtain n w where x: "x = (n, w)" by (cases x)
    with that assms(2) have "CHR ''='' \<notin> set n" by force
    then show ?thesis by (simp add: x sets_kv)
  qed
  then show 1: "(\<exists>e \<in> set (map (\<lambda>(n, v). kv n v) xs). sets k e) \<longleftrightarrow> map_of xs k \<noteq> None"
    by (auto simp: map_of_eq_None_iff)
  show "map_of xs k = Some v \<Longrightarrow> envValue pf (map (\<lambda>(n, v). kv n v) xs) k = v"
    using assms(2,3)
  proof (induction xs rule: rev_induct)
    case (snoc x xs)
    obtain n w where x: "x = (n, w)" by (cases x)
    with snoc.prems have n: "CHR ''='' \<notin> set n" by simp
    show ?case
    proof (cases "n = k")
      case True
      with snoc.prems x have "map_of xs k = None" by (auto simp: map_of_eq_None_iff)
      with snoc.prems x True n show ?thesis
        by (simp add: envValue_snoc assms(1) sets_kv map_add_def) (simp add: kv_def Cut_append)
    next
      case False
      with snoc x n show ?thesis
        by (auto simp: envValue_snoc assms(1) sets_kv map_add_def split: option.splits)
    qed
  qed simp
qed

text \<open>What a layer sets, given the layers below it.\<close>

definition layer_map :: "(string \<Rightarrow> string) \<Rightarrow> strmap \<Rightarrow> string \<Rightarrow> string option" where
  "layer_map look layer k = map_option (Expand look) (map_of layer k)"

lemma map_of_zip_map: "distinct ks \<Longrightarrow> map_of (zip ks (map f ks)) k = (if k \<in> set ks then Some (f k) else None)"
  by (induction ks) auto

lemma zip_layer:
  assumes "distinct (map fst layer)"
  shows "map_of (zip (sorted_keys layer) (map (\<lambda>k. Expand look (value_of layer k)) (sorted_keys layer)))
    = layer_map look layer"
proof
  fix k
  have d: "distinct (sorted_keys layer)" by (simp add: sorted_keys_def assms)
  show "map_of (zip (sorted_keys layer) (map (\<lambda>k. Expand look (value_of layer k)) (sorted_keys layer))) k
      = layer_map look layer k"
    unfolding map_of_zip_map [OF d]
    by (auto simp: layer_map_def value_of_def weak_map_of_SomeI map_of_eq_None_iff split: option.split)
qed

lemma add_layer_eq:
  assumes "\<not> pf_windows pf" and "add_layer pf layer (env, layers) = (env', layers')"
    and "distinct (map fst layer)"
  defines "xs \<equiv> zip (sorted_keys layer) (map (\<lambda>k. Expand (env_lookup pf layers) (value_of layer k)) (sorted_keys layer))"
  shows "env' = env @ map (\<lambda>(n, v). kv n v) xs"
    and "map_of layers' = map_of layers ++ layer_map (env_lookup pf layers) layer"
    and "map fst xs = sorted_keys layer"
    and "map_of xs = layer_map (env_lookup pf layers) layer"
proof -
  show m: "map fst xs = sorted_keys layer" by (simp add: xs_def)
  show xs: "map_of xs = layer_map (env_lookup pf layers) layer"
    unfolding xs_def by (rule zip_layer [OF assms(3)])
  from assms(1,2) show "env' = env @ map (\<lambda>(n, v). kv n v) xs"
    by (auto simp: add_layer_def Let_def xs_def)
  from assms(1,2) have "layers' = put_all xs layers"
    by (auto simp: add_layer_def Let_def xs_def put_all_def envKey_def)
  with xs m assms(3) show "map_of layers' = map_of layers ++ layer_map (env_lookup pf layers) layer"
    by (simp add: map_of_put_all sorted_keys_def)
qed

definition base_lookup :: "platform \<Rightarrow> spec \<Rightarrow> string \<Rightarrow> string" where
  "base_lookup pf sp n =
     (case map_of (sp_base_env sp) n of Some v \<Rightarrow> Expand (pf_getenv pf) v | None \<Rightarrow> pf_getenv pf n)"

text \<open>
  The environment of a command, by name: the payload file and the variables of the firing come
  first, whatever the configuration says; then the env of the event, whose values may refer to the
  env of the config file and to kickd's own environment; then the env of the config file, whose
  values may refer to kickd's environment only; and last kickd's environment as it is. So no
  configuration can overwrite what a firing tells its command.
\<close>

theorem env_layering:
  assumes "\<not> pf_windows pf"
    and "distinct (map fst (sp_base_env sp))" and "distinct (map fst (sp_env sp))"
    and "\<forall>n \<in> set (map fst (sp_base_env sp) @ map fst (sp_env sp)). CHR ''='' \<notin> set n"
  shows "envValue pf (buildEnv pf sp ev file) k =
    (if k = ''KICKD_PAYLOAD_FILE'' then file
     else if \<exists>e \<in> set (Env (pf_list_sep pf) ev). sets k e then envValue pf (Env (pf_list_sep pf) ev) k
     else case map_of (sp_env sp) k of Some v \<Rightarrow> Expand (base_lookup pf sp) v
     | None \<Rightarrow> (case map_of (sp_base_env sp) k of Some v \<Rightarrow> Expand (pf_getenv pf) v
     | None \<Rightarrow> envValue pf (pf_environ pf) k))"
proof -
  obtain e1 l1 where 1: "add_layer pf (sp_base_env sp) (pf_environ pf, []) = (e1, l1)"
    by (cases "add_layer pf (sp_base_env sp) (pf_environ pf, [])")
  obtain e2 l2 where 2: "add_layer pf (sp_env sp) (e1, l1) = (e2, l2)"
    by (cases "add_layer pf (sp_env sp) (e1, l1)")
  note a1 = add_layer_eq [OF assms(1) 1 assms(2)]
  note a2 = add_layer_eq [OF assms(1) 2 assms(3)]
  have look0: "env_lookup pf [] = pf_getenv pf" by (simp add: env_lookup_def fun_eq_iff)
  have look1: "env_lookup pf l1 = base_lookup pf sp"
    using a1(2) by (auto simp: env_lookup_def base_lookup_def fun_eq_iff envKey_def assms(1) layer_map_def look0
        split: option.split)
  define x1 where "x1 = zip (sorted_keys (sp_base_env sp))
    (map (\<lambda>k. Expand (env_lookup pf []) (value_of (sp_base_env sp) k)) (sorted_keys (sp_base_env sp)))"
  define x2 where "x2 = zip (sorted_keys (sp_env sp))
    (map (\<lambda>k. Expand (env_lookup pf l1) (value_of (sp_env sp) k)) (sorted_keys (sp_env sp)))"
  have x1: "e1 = pf_environ pf @ map (\<lambda>(n, v). kv n v) x1" "map fst x1 = sorted_keys (sp_base_env sp)"
    "map_of x1 = layer_map (pf_getenv pf) (sp_base_env sp)"
    using a1(1,3,4) by (simp_all add: x1_def look0)
  have x2: "e2 = e1 @ map (\<lambda>(n, v). kv n v) x2" "map fst x2 = sorted_keys (sp_env sp)"
    "map_of x2 = layer_map (base_lookup pf sp) (sp_env sp)"
    using a2(1,3,4) by (simp_all add: x2_def look1)
  have keys: "\<forall>n \<in> set (map fst x1). CHR ''='' \<notin> set n" "distinct (map fst x1)"
    "\<forall>n \<in> set (map fst x2). CHR ''='' \<notin> set n" "distinct (map fst x2)"
    using assms(2-4) by (auto simp: x1(2) x2(2) sorted_keys_def)
  have v1: "envValue pf e1 k = (case map_of (sp_base_env sp) k of Some v \<Rightarrow> Expand (pf_getenv pf) v
     | None \<Rightarrow> envValue pf (pf_environ pf) k)"
    unfolding x1(1) envValue_append [OF assms(1)] envValue_kvs(1) [OF assms(1) keys(1,2)]
    using envValue_kvs(2) [OF assms(1) keys(1,2), of k] by (auto simp: x1(3) layer_map_def split: option.split)
  have v2: "envValue pf e2 k = (case map_of (sp_env sp) k of Some v \<Rightarrow> Expand (base_lookup pf sp) v
     | None \<Rightarrow> envValue pf e1 k)"
    unfolding x2(1) envValue_append [OF assms(1)] envValue_kvs(1) [OF assms(1) keys(3,4)]
    using envValue_kvs(2) [OF assms(1) keys(3,4), of k] by (auto simp: x2(3) layer_map_def split: option.split)
  have b: "buildEnv pf sp ev file = (e2 @ Env (pf_list_sep pf) ev) @ [kv ''KICKD_PAYLOAD_FILE'' file]"
    by (simp add: buildEnv_def 1 2)
  have f: "sets k (kv ''KICKD_PAYLOAD_FILE'' file) \<longleftrightarrow> k = ''KICKD_PAYLOAD_FILE''"
    by (auto simp: sets_kv)
  have c: "Cut (kv ''KICKD_PAYLOAD_FILE'' file) (CHR ''='') = (''KICKD_PAYLOAD_FILE'', file, True)"
    by (simp add: kv_def)
  have "envValue pf (buildEnv pf sp ev file) k =
      (if k = ''KICKD_PAYLOAD_FILE'' then file else envValue pf (e2 @ Env (pf_list_sep pf) ev) k)"
    unfolding b envValue_snoc [OF assms(1), of _ _ k] f c by simp
  also have "envValue pf (e2 @ Env (pf_list_sep pf) ev) k =
      (if \<exists>e \<in> set (Env (pf_list_sep pf) ev). sets k e then envValue pf (Env (pf_list_sep pf) ev) k
       else envValue pf e2 k)"
    by (rule envValue_append [OF assms(1)])
  finally show ?thesis unfolding v2 v1 .
qed

definition demo_platform :: platform where
  "demo_platform = \<lparr>pf_windows = False, pf_environ = [''PATH=/bin'', ''HOME=/root''],
     pf_getenv = (\<lambda>k. if k = ''HOME'' then ''/root'' else []), pf_list_sep = CHR '':'',
     pf_split_list = (\<lambda>s. Split s (CHR '':'')), pf_is_abs = (\<lambda>s. HasPrefix s ''/''),
     pf_join = (\<lambda>a b. a @ ''/'' @ b), pf_is_path_sep = (\<lambda>c. c = CHR ''/''),
     pf_stat = (\<lambda>p. if p = ''/opt/bin/backup'' then Some (False, 493) else None)\<rparr>"

definition demo_spec :: spec where
  "demo_spec = zero_spec\<lparr>sp_name := ''backup'', sp_command := [''backup'', ''--now''],
     sp_base_env := [(''TOOLS'', ''/opt'')], sp_env := [(''PATH'', ''$TOOLS/bin'')]\<rparr>"

lemma demo_env_names:
  "\<not> (\<exists>e \<in> set (Env s zero_event). sets ''PATH'' e)"
proof -
  have s: "sets k e \<Longrightarrow> env_name e = k" for k e
    by (auto simp: sets_def env_name_def split: prod.splits)
  have "env_name ` set (Env s zero_event) = set fixed_head_names \<union> set fixed_tail_names"
    unfolding Env_def set_append image_Un
    using arg_cong [OF Env_head_names [of zero_event], of set] arg_cong [OF Env_tail_names [of s zero_event], of set]
    by (simp add: Env_data_def zero_event_def entries_def sorted_keys_def)
  then have "''PATH'' \<notin> env_name ` set (Env s zero_event)"
    by (simp add: fixed_head_names_def fixed_tail_names_def)
  with s show ?thesis by force
qed

theorem env_layering_witness:
  "envValue demo_platform (buildEnv demo_platform demo_spec zero_event ''/tmp/p'') ''PATH'' = ''/opt/bin''"
proof -
  have "Expand (base_lookup demo_platform demo_spec) ''$TOOLS/bin'' = ''/opt/bin''"
    by (simp add: base_lookup_def demo_spec_def demo_platform_def is_shell_special_def is_alphanum_def is_digit_def
        is_letter_def Let_def zero_spec_def)
  then show ?thesis
    using env_layering [of demo_platform demo_spec zero_event "''/tmp/p''" "''PATH''"] demo_env_names
    by (simp add: demo_platform_def demo_spec_def zero_spec_def)
qed

section \<open>Looking a program up\<close>

definition candidates :: "platform \<Rightarrow> string \<Rightarrow> string list \<Rightarrow> string list" where
  "candidates pf name env =
     map (\<lambda>dir. pf_join pf dir name) (filter (pf_is_abs pf) (pf_split_list pf (envValue pf env ''PATH'')))"

lemma lookPath_in_first:
  "lookPath_in pf dirs name env =
     (case filter (\<lambda>p. findExecutable pf p env \<noteq> None) (map (\<lambda>d. pf_join pf d name) (filter (pf_is_abs pf) dirs)) of
        [] \<Rightarrow> None | p # ps \<Rightarrow> findExecutable pf p env)"
  by (induction dirs) (auto split: option.split)

text \<open>
  The program of a run is the first executable of its name in the absolute directories of the
  PATH that the command itself gets, and of no other directory: a relative entry of PATH never
  supplies it.
\<close>

theorem lookPath_first:
  "lookPath pf name env =
     (case filter (\<lambda>p. findExecutable pf p env \<noteq> None) (candidates pf name env) of
        [] \<Rightarrow> None | p # ps \<Rightarrow> findExecutable pf p env)"
  by (simp add: lookPath_def candidates_def lookPath_in_first)

section \<open>Shared output files\<close>

text \<open>
  The holders are the runs that have opened an output file and not released it yet. A run releases
  what it got once, when it ends.
\<close>

datatype out_op = OutOpen "string + unit" string | OutRelease nat

definition remove_nth :: "nat \<Rightarrow> 'a list \<Rightarrow> 'a list" where
  "remove_nth n xs = take n xs @ drop (Suc n) xs"

fun out_step :: "out_op \<Rightarrow> (string \<times> int) list \<times> out_files \<Rightarrow> (string \<times> int) list \<times> out_files" where
  "out_step (OutOpen opened path) (hs, s) =
     (case openOutput opened path s of
        (Inl e, s') \<Rightarrow> (hs, s') | (Inr h, s') \<Rightarrow> (hs @ [h], s'))"
| "out_step (OutRelease n) (hs, s) =
     (if n < length hs then (remove_nth n hs, releaseOutput (hs ! n) s) else (hs, s))"

definition no_files :: out_files where
  "no_files = \<lparr>of_open = Map.empty, of_refs = (\<lambda>h. 0), of_next = 0, of_closed = []\<rparr>"

definition holders :: "(string \<times> int) list \<Rightarrow> int \<Rightarrow> int" where
  "holders hs h = int (length (filter (\<lambda>x. snd x = h) hs))"

definition files_inv :: "(string \<times> int) list \<times> out_files \<Rightarrow> bool" where
  "files_inv x \<longleftrightarrow> (case x of (hs, s) \<Rightarrow>
     (\<forall>(p, h) \<in> set hs. of_open s p = Some h)
     \<and> (\<forall>p h. of_open s p = Some h \<longrightarrow> h < of_next s \<and> of_refs s h = holders hs h \<and> holders hs h > 0
            \<and> h \<notin> set (of_closed s))
     \<and> (\<forall>p q h. of_open s p = Some h \<longrightarrow> of_open s q = Some h \<longrightarrow> p = q)
     \<and> (\<forall>h \<in> set (of_closed s). h < of_next s) \<and> distinct (of_closed s))"

lemma holders_append [simp]: "holders (hs @ [x]) h = holders hs h + (if snd x = h then 1 else 0)"
  by (simp add: holders_def)

lemma holders_remove:
  assumes "n < length hs"
  shows "holders (remove_nth n hs) h = holders hs h - (if snd (hs ! n) = h then 1 else 0)"
proof -
  have "hs = take n hs @ hs ! n # drop (Suc n) hs" using assms by (simp add: id_take_nth_drop)
  then have "holders hs h = holders (take n hs @ hs ! n # drop (Suc n) hs) h" by simp
  then show ?thesis by (simp add: holders_def remove_nth_def)
qed

lemma set_remove_nth: "set (remove_nth n hs) \<subseteq> set hs"
  by (auto simp: remove_nth_def dest: in_set_takeD in_set_dropD)

lemma holders_pos: "x \<in> set hs \<Longrightarrow> holders hs (snd x) > 0"
  by (auto simp: holders_def filter_empty_conv)

lemma files_inv_open: "files_inv (hs, s) \<Longrightarrow> files_inv (out_step (OutOpen opened path) (hs, s))"
proof -
  assume inv: "files_inv (hs, s)"
  show ?thesis
  proof (cases "of_open s path")
    case (Some h)
    with inv show ?thesis by (fastforce simp: files_inv_def openOutput_def)
  next
    case None
    show ?thesis
    proof (cases opened)
      case (Inl e)
      with inv None show ?thesis by (simp add: openOutput_def)
    next
      case (Inr u)
      have zero: "holders hs (of_next s) = 0"
        using inv by (fastforce simp: files_inv_def holders_def filter_empty_conv)
      have "p \<noteq> path" if "(p, h) \<in> set hs" for p h
        using that inv None by (force simp: files_inv_def)
      with inv None Inr zero show ?thesis
        by (fastforce simp: files_inv_def openOutput_def Let_def split: if_splits)
    qed
  qed
qed

lemma files_inv_release: "files_inv (hs, s) \<Longrightarrow> files_inv (out_step (OutRelease n) (hs, s))"
proof (cases "n < length hs")
  case False
  then show "files_inv (hs, s) \<Longrightarrow> files_inv (out_step (OutRelease n) (hs, s))" by simp
next
  case n: True
  assume inv: "files_inv (hs, s)"
  obtain p h where x: "hs ! n = (p, h)" by (cases "hs ! n")
  from n x have mem: "(p, h) \<in> set hs" by (metis nth_mem)
  with inv have op: "of_open s p = Some h" by (auto simp: files_inv_def)
  with inv have refs: "of_refs s h = holders hs h" "h < of_next s" "h \<notin> set (of_closed s)"
    by (auto simp: files_inv_def)
  let ?hs = "remove_nth n hs"
  have rem: "holders ?hs k = holders hs k - (if k = h then 1 else 0)" for k
    using holders_remove [OF n, of k] x by auto
  have keep: "\<forall>(q, k) \<in> set ?hs. of_open s q = Some k"
    using inv set_remove_nth [of n hs] by (auto simp: files_inv_def)
  show ?thesis
  proof (cases "holders hs h = 1")
    case True
    have "q \<noteq> p" if "(q, k) \<in> set ?hs" for q k
    proof
      assume "q = p"
      with that keep op have "k = h" by auto
      with that rem [of h] True holders_pos [of "(q, k)" ?hs] show False by simp
    qed
    with keep have "\<forall>(q, k) \<in> set ?hs. ((of_open s)(p := None)) q = Some k" by auto
    moreover have "k \<noteq> h" if "((of_open s)(p := None)) q = Some k" for q k
      using that op inv by (auto simp: files_inv_def split: if_splits)
    ultimately show ?thesis
      using inv n x refs True rem
      by (auto simp: files_inv_def releaseOutput_def Let_def split: if_splits)
  next
    case False
    with mem holders_pos [OF mem] have more: "holders hs h > 1" by simp
    with inv n x refs False rem keep show ?thesis
      by (auto simp: files_inv_def releaseOutput_def Let_def)
  qed
qed

lemma files_inv_step: "files_inv x \<Longrightarrow> files_inv (out_step f x)"
  by (cases x; cases f) (simp_all only: files_inv_open files_inv_release)

interpretation shared: machine_invariant "\<lambda>x. x = ([], no_files)" "\<lambda>x y. \<exists>f. y = out_step f x" files_inv
proof unfold_locales
  show "x = ([], no_files) \<Longrightarrow> files_inv x" for x by (simp add: files_inv_def no_files_def)
  show "files_inv x \<Longrightarrow> \<exists>f. y = out_step f x \<Longrightarrow> files_inv y" for x y by (elim exE) (simp add: files_inv_step)
qed

lemma reach_fold: "reach (\<lambda>x. x = s0) (\<lambda>x y. \<exists>f. y = st f x) (fold st fs s0)"
  by (induction fs rule: rev_induct) (auto intro: reach.intros)

text \<open>
  Output files that runs share, over every history of opening and releasing them: a run that
  still writes has the file that is open for its path, and that file is not closed; two runs with
  the same path write to the same file; a file is closed at most once; and it is closed as soon as
  no run writes to it.
\<close>

theorem output_files_shared:
  "case fold out_step ops ([], no_files) of (hs, s) \<Rightarrow>
     list_all (\<lambda>(p, h). of_open s p = Some h \<and> h \<notin> set (of_closed s)) hs
     \<and> distinct (of_closed s)
     \<and> dom (of_open s) = set (map fst hs)"
proof -
  obtain hs s where e: "fold out_step ops ([], no_files) = (hs, s)"
    by (cases "fold out_step ops ([], no_files)")
  from shared.inv_reach [OF reach_fold [of "([], no_files)" out_step ops]]
  have inv: "files_inv (hs, s)" by (simp add: e)
  have "p \<in> fst ` set hs" if "of_open s p = Some h" for p h
  proof -
    from inv that have "holders hs h > 0" by (auto simp: files_inv_def)
    then obtain q where q: "(q, h) \<in> set hs" by (fastforce simp: holders_def filter_empty_conv)
    with inv have "of_open s q = Some h" by (auto simp: files_inv_def)
    with inv that have "q = p" unfolding files_inv_def by blast
    with q show ?thesis by force
  qed
  moreover have "of_open s (fst x) \<noteq> None" if "x \<in> set hs" for x
    using inv that by (auto simp: files_inv_def)
  ultimately have "dom (of_open s) = set (map fst hs)" by (auto simp: dom_def)
  moreover have "list_all (\<lambda>(p, h). of_open s p = Some h \<and> h \<notin> set (of_closed s)) hs"
    unfolding list_all_iff using inv by (fastforce simp: files_inv_def)
  ultimately show ?thesis using inv by (auto simp: e files_inv_def)
qed

end
