(* ===== verification/DispatcherSpecs.thy ===== *)
theory DispatcherSpecs
  imports DispatcherInv RunnerProps
begin

text \<open>
  The operations of the dispatcher one by one: recovery of interrupted runs, recording of outcomes,
  after triggers, restarts with backoff, submissions, replacement, and the rate limit of the errors.
\<close>

section \<open>Recovery\<close>

definition unsettled :: "db \<Rightarrow> int set" where
  "unsettled d = {c_id r | r. r \<in> set (tbl_runs d) \<and> c_status r \<in> {StatusRunning, StatusInterrupted}}"

text \<open>Rows that the recovery has added: the next attempt of an event that allows it.\<close>

definition retries_ok :: "(string \<rightharpoonup> spec) \<Rightarrow> int \<Rightarrow> db \<Rightarrow> bool" where
  "retries_ok specs seq d \<longleftrightarrow> (\<forall>c \<in> set (tbl_runs d). c_id c > seq \<longrightarrow>
     c_status c = StatusQueued \<and> (\<exists>sp. specs (c_event c) = Some sp
       \<and> sp_on_interrupt sp = InterruptRerun \<and> c_attempt c \<le> sp_max_attempts sp))"

lemma unsettled_faults [simp]: "unsettled (d\<lparr>faults := fs\<rparr>) = unsettled d"
  by (simp add: unsettled_def)

lemma retries_ok_faults [simp]: "retries_ok specs seq (d\<lparr>faults := fs\<rparr>) = retries_ok specs seq d"
  by (simp add: retries_ok_def)

lemma unsettled_update:
  assumes "tbl_runs d' = update_where (\<lambda>c. c_id c = i) f (tbl_runs d)"
    and "\<And>c. c_id (f c) = c_id c" and "\<And>c. c_status (f c) \<notin> {StatusRunning, StatusInterrupted}"
  shows "unsettled d' = unsettled d - {i}"
proof -
  have "x \<in> unsettled d'" if "x \<in> unsettled d" "x \<noteq> i" for x
    using that assms(1) by (force simp: unsettled_def set_update_where)
  moreover have "x \<in> unsettled d \<and> x \<noteq> i" if "x \<in> unsettled d'" for x
    using that assms by (auto simp: unsettled_def set_update_where split: if_splits)
  ultimately show ?thesis by blast
qed

lemma retries_ok_update:
  assumes "tbl_runs d' = update_where (\<lambda>c. c_id c = i) f (tbl_runs d)"
    and "i \<le> seq" and "\<And>c. c_id (f c) = c_id c" and "retries_ok specs seq d"
  shows "retries_ok specs seq d'"
  using assms by (auto simp: retries_ok_def ball_update_where)

lemma Abandon_effect:
  assumes "Abandon now i reason d = (Inr u, d')"
  shows "unsettled d' = unsettled d - {i}"
    and "i \<le> seq \<Longrightarrow> retries_ok specs seq d \<Longrightarrow> retries_ok specs seq d'"
proof -
  define f where "f = (\<lambda>c :: row. c\<lparr>c_status := StatusAbandoned, c_reason := reason,
    c_finished_at := (case c_finished_at c of None \<Rightarrow> Some (UnixMilli now) | Some t \<Rightarrow> Some t),
    c_cancel_requested := False\<rparr>)"
  from assms have d': "tbl_runs d' = update_where (\<lambda>c. c_id c = i) f (tbl_runs d)"
    unfolding Abandon_def f_def by (auto elim!: exec_update_elim)
  show "unsettled d' = unsettled d - {i}" by (rule unsettled_update [OF d']) (simp_all add: f_def)
  show "i \<le> seq \<Longrightarrow> retries_ok specs seq d \<Longrightarrow> retries_ok specs seq d'"
    by (rule retries_ok_update [OF d']) (simp_all add: f_def)
qed

lemma Retry_effect:
  assumes "Retry now r pl reason d = (Inr i, d')" and "db_wf d" and "seq \<le> tbl_seq d" and "run_id r \<le> seq"
  shows "unsettled d' = unsettled d - {run_id r}"
    and "retries_ok specs seq d \<Longrightarrow> specs (run_event r) = Some sp \<Longrightarrow> sp_on_interrupt sp = InterruptRerun \<Longrightarrow>
      run_attempt r + 1 \<le> sp_max_attempts sp \<Longrightarrow> retries_ok specs seq d'"
proof -
  define n where "n = fresh_row r pl StatusQueued [] (run_attempt r + 1) (Some (run_id r)) (UnixMilli now) None None"
  define f where "f = (\<lambda>c :: row. c\<lparr>c_status := StatusRetried, c_reason := reason,
           c_detail := ''rerun as run '' @ Itoa i,
           c_finished_at := (case c_finished_at c of None \<Rightarrow> Some (UnixMilli now) | Some t \<Rightarrow> Some t),
           c_cancel_requested := False\<rparr>)"
  let ?e = "snd (insert_row n d)"
  from assms(1) have d': "tbl_runs d' = update_where (\<lambda>c. c_id c = run_id r) f (tbl_runs ?e)"
    unfolding Retry_def
    by (auto simp: db_ret_def n_def [symmetric] f_def insert_row_def Let_def
        dest!: in_tx_Inr db_then_Inr sql_Inr elim!: exec_update_elim)
  have n: "c_status n = StatusQueued" "c_event n = run_event r" "c_attempt n = run_attempt r + 1"
    by (simp_all add: n_def fresh_row_def)
  have "unsettled ?e = unsettled d"
    by (auto simp: unsettled_def insert_row_def Let_def n)
  moreover have "unsettled d' = unsettled ?e - {run_id r}"
    by (rule unsettled_update [OF d']) (simp_all add: f_def)
  ultimately show "unsettled d' = unsettled d - {run_id r}" by simp
  assume "retries_ok specs seq d" "specs (run_event r) = Some sp" "sp_on_interrupt sp = InterruptRerun"
    "run_attempt r + 1 \<le> sp_max_attempts sp"
  then have "retries_ok specs seq ?e"
    using n by (auto simp: retries_ok_def insert_row_def Let_def)
  with assms(4) show "retries_ok specs seq d'"
    by (intro retries_ok_update [OF d']) (simp_all add: f_def)
qed

lemma on_db_elim: "on_db m s = (r, s') \<Longrightarrow> (\<And>db'. m (d_db s) = (r, db') \<Longrightarrow> s' = s\<lparr>d_db := db'\<rparr> \<Longrightarrow> P) \<Longrightarrow> P"
  by (auto simp: on_db_def split: prod.splits)

lemma on_db_query_Inr:
  assumes "on_db (query q) s = (Inr a, s')"
  obtains fs where "s' = s\<lparr>d_db := (d_db s)\<lparr>faults := fs\<rparr>\<rparr>" "a = q ((d_db s)\<lparr>faults := fs\<rparr>)"
proof -
  from assms obtain db' where m: "query q (d_db s) = (Inr a, db')" and s': "s' = s\<lparr>d_db := db'\<rparr>"
    by (rule on_db_elim)
  from m show ?thesis by (cases rule: query_elim) (use s' that in auto)
qed

lemma recover_one_effect:
  assumes "recover_one now r s = (Inr u, s')" and "db_wf (d_db s)" and "seq \<le> tbl_seq (d_db s)"
    and "run_id r \<le> seq" and "retries_ok (d_specs s) seq (d_db s)"
  shows "d_specs s' = d_specs s" "db_wf (d_db s')" "seq \<le> tbl_seq (d_db s')"
    "unsettled (d_db s') = unsettled (d_db s) - {run_id r}" "retries_ok (d_specs s) seq (d_db s')"
proof -
  show "d_specs s' = d_specs s"
    using assms(1) by (auto simp: recover_one_def Let_def elim!: on_db_elim split: recovery.splits prod.splits sum.splits)
  have "keeps_wf (Abandon now i reason)" "keeps_wf (Retry now r p how)"
    "keeps evolves (Abandon now i reason)" "keeps evolves (Retry now r p how)" for i reason p how
    by (simp_all add: inv_intros)
  note ke = this
  have *: "db_wf (d_db s') \<and> evolves (d_db s) (d_db s') \<and> unsettled (d_db s') = unsettled (d_db s) - {run_id r}
      \<and> retries_ok (d_specs s) seq (d_db s')"
  proof (cases "recovery_of (d_specs s) r")
    case (AbandonAs reason)
    with assms(1) obtain x where x: "Abandon now (run_id r) reason (d_db s) = (Inr x, d_db s')"
      by (auto simp: recover_one_def Let_def elim!: on_db_elim split: prod.splits sum.splits)
    from Abandon_effect(1) [OF x] Abandon_effect(2) [OF x assms(4,5)] assms(2) keepsD [OF ke(1) x] keepsD [OF ke(3) x] show ?thesis by auto
  next
    case (Requeue p)
    with assms(1) obtain how i where x: "Retry now r p how (d_db s) = (Inr i, d_db s')"
      by (auto simp: recover_one_def Let_def elim!: on_db_elim split: prod.splits sum.splits)
    from Requeue obtain sp where sp: "d_specs s (run_event r) = Some sp" "sp_on_interrupt sp = InterruptRerun"
      "run_attempt r + 1 \<le> sp_max_attempts sp"
      by (auto simp: recovery_of_def Let_def split: option.splits if_splits)
    from Retry_effect [OF x assms(2-4)] sp assms(2,5) keepsD [OF ke(2) x] keepsD [OF ke(4) x] show ?thesis by auto
  next
    case RequeueFails
    with assms(1) show ?thesis by (simp add: recover_one_def Let_def)
  qed
  then show "db_wf (d_db s')" "unsettled (d_db s') = unsettled (d_db s) - {run_id r}"
    "retries_ok (d_specs s) seq (d_db s')" by auto
  from * assms(3) show "seq \<le> tbl_seq (d_db s')" by (auto simp: evolves_def)
qed

lemma recover_all_effect:
  assumes "recover_all now rs s = (Inr u, s')" and "db_wf (d_db s)" and "seq \<le> tbl_seq (d_db s)"
    and "\<forall>r \<in> set rs. run_id r \<le> seq" and "retries_ok (d_specs s) seq (d_db s)"
  shows "unsettled (d_db s') = unsettled (d_db s) - run_id ` set rs \<and> retries_ok (d_specs s) seq (d_db s')"
  using assms
proof (induction rs arbitrary: s)
  case (Cons r rs)
  then obtain v s1 where 1: "recover_one now r s = (Inr v, s1)" and 2: "recover_all now rs s1 = (Inr u, s')"
    by (auto split: prod.splits sum.splits)
  from recover_one_effect [OF 1, of seq] Cons.prems have s1: "d_specs s1 = d_specs s" "db_wf (d_db s1)"
    "seq \<le> tbl_seq (d_db s1)" "unsettled (d_db s1) = unsettled (d_db s) - {run_id r}"
    "retries_ok (d_specs s1) seq (d_db s1)" by auto
  from Cons.IH [OF 2 s1(2,3) _ s1(5)] Cons.prems(4) s1(1,4) show ?case by auto
qed simp

text \<open>
  C5: Recover, once it succeeds, leaves no run running or interrupted in the database, so that
  every run of the process before is settled; and every run that it adds is the next attempt of an
  event that is still configured with on_interrupt rerun, within its max_attempts.
\<close>

theorem recover_settles:
  assumes "db_wf (d_db s)" and "Recover now s = (Inr (), s')"
  shows "list_all (\<lambda>c. c_status c \<notin> {StatusRunning, StatusInterrupted}) (tbl_runs (d_db s'))
    \<and> retries_ok (d_specs s) (tbl_seq (d_db s)) (d_db s')"
proof -
  from assms(2) obtain runs s1 where 1: "on_db InterruptedRuns s = (Inr runs, s1)"
    and 2: "recover_all now runs s1 = (Inr (), s')"
    by (auto simp: Recover_def split: prod.splits sum.splits)
  from 1 obtain fs where s1: "s1 = s\<lparr>d_db := (d_db s)\<lparr>faults := fs\<rparr>\<rparr>"
    and runs: "runs = map scanRun (rows_by_id (\<lambda>r. c_status r \<in> {StatusRunning, StatusInterrupted}) (d_db s))"
    unfolding InterruptedRuns_def by (rule on_db_query_Inr) (simp only: rows_by_id_faults)
  have ids: "run_id ` set runs = unsettled (d_db s)"
    unfolding runs set_map rows_by_id_set image_image scanRun_fields unsettled_def by blast
  have seq: "\<forall>r \<in> set runs. run_id r \<le> tbl_seq (d_db s)"
    using assms(1) by (auto simp: runs rows_by_id_set db_wf_def)
  have old: "\<forall>c \<in> set (tbl_runs (d_db s)). c_id c \<le> tbl_seq (d_db s)"
    using assms(1) by (auto simp: db_wf_def)
  then have ok: "retries_ok (d_specs s1) (tbl_seq (d_db s)) (d_db s1)"
    unfolding s1 retries_ok_def by fastforce
  have "db_wf (d_db s1)" "tbl_seq (d_db s) \<le> tbl_seq (d_db s1)" "d_specs s1 = d_specs s"
    "unsettled (d_db s1) = unsettled (d_db s)"
    using assms(1) by (simp_all add: s1 wf.inv_faults)
  with recover_all_effect [OF 2 _ _ seq ok] ids
  have "unsettled (d_db s') = {}" "retries_ok (d_specs s) (tbl_seq (d_db s)) (d_db s')"
    by simp_all
  then show ?thesis by (auto simp: unsettled_def list_all_iff)
qed

definition rerun_spec :: spec where
  "rerun_spec = zero_spec\<lparr>sp_name := ''backup'', sp_on_interrupt := InterruptRerun, sp_max_attempts := 3\<rparr>"

definition rerun_demo :: disp where
  "rerun_demo = Configure [rerun_spec] (NewDispatcher 0 (\<lambda>n. ''id'') (demo_db [demo_row 1 ''backup'' StatusRunning]))"

theorem recover_settles_witness:
  "map c_status (tbl_runs (d_db (snd (Recover 0 rerun_demo)))) = [StatusRetried, StatusQueued]
   \<and> list_all (\<lambda>c. c_status c \<notin> {StatusRunning, StatusInterrupted}) (tbl_runs (d_db (snd (Recover 0 rerun_demo))))"
proof
  have w: "db_wf (d_db rerun_demo)"
    by (simp add: rerun_demo_def Configure_def poke_def NewDispatcher_def db_wf_def demo_defs)
  have e: "Recover 0 rerun_demo = (Inr (), snd (Recover 0 rerun_demo))
      \<and> map c_status (tbl_runs (d_db (snd (Recover 0 rerun_demo)))) = [StatusRetried, StatusQueued]"
    by (simp add: rerun_demo_def Configure_def poke_def NewDispatcher_def Recover_def on_db_def InterruptedRuns_def
        rows_by_id_def store_evals demo_defs recover_one_def recovery_of_def rerun_spec_def zero_spec_def
        scanRun_def marshal_event_def json_time_ok_def Retry_def)
  then show "map c_status (tbl_runs (d_db (snd (Recover 0 rerun_demo)))) = [StatusRetried, StatusQueued]" by blast
  from recover_settles [OF w conjunct1 [OF e]] show
    "list_all (\<lambda>c. c_status c \<notin> {StatusRunning, StatusInterrupted}) (tbl_runs (d_db (snd (Recover 0 rerun_demo))))"
    by blast
qed

section \<open>Outcomes\<close>

fun counter_status :: "counter \<Rightarrow> status" where
  "counter_status Count_succeeded = StatusSucceeded"
| "counter_status Count_failed = StatusFailed"
| "counter_status Count_canceled = StatusCanceled"
| "counter_status Count_interrupted = StatusInterrupted"

lemma outcome_status: "outcome_ok (res, e, s') s \<Longrightarrow> finish_status res = counter_status (counter_of res)"
  by (auto simp: outcome_ok_def finish_status_def counter_of_def split: if_splits)

lemma execute_counter:
  assumes "execute pf debug newID d encode_err eventFile os sp ev summary st = (res, log, st')"
  shows "finish_status res = counter_status (counter_of res)" and "st' = count_run (counter_of res) st"
  using execute_ok [OF assms] outcome_status by (auto simp: outcome_ok_def)

text \<open>
  C6: What the database says of a run is what the counters and the result say: when the outcome of
  an execution is recorded, the row gets the status of the one counter that the execution has
  raised, its reason, exit code and signal, and its output only if the event logs output; a pending
  cancel request is taken back; and no other row changes.
\<close>

theorem finish_records_outcome:
  assumes "execute pf debug newID d encode_err eventFile os sp ev summary st = (res, log, st')"
    and "finish_record now r sp res s = s'" and "faults (d_db s) = []"
    and "find_row (run_id r) (d_db s) = Some c"
  shows "st' = count_run (counter_of res) st
    \<and> (\<exists>c'. find_row (run_id r) (d_db s') = Some c' \<and> c_status c' = counter_status (counter_of res)
        \<and> c_reason c' = res_reason res \<and> c_exit_code c' = Some (res_exit_code res)
        \<and> c_signal c' = res_signal res \<and> \<not> c_cancel_requested c'
        \<and> c_output c' = (if sp_log_output sp then res_output res else [])
        \<and> c_output_truncated c' = res_truncated res
        \<and> c_finished_at c' = Some (UnixMilli now) \<and> c_duration_ms c' = Some (Milliseconds (res_duration res)))
    \<and> (\<forall>j. j \<noteq> run_id r \<longrightarrow> find_row j (d_db s') = find_row j (d_db s))"
proof -
  define g where "g = (\<lambda>c :: row. c\<lparr>c_status := finish_status res, c_reason := res_reason res, c_detail := [],
     c_exit_code := Some (res_exit_code res), c_signal := res_signal res,
     c_output := (if sp_log_output sp then res_output res else []), c_output_truncated := res_truncated res,
     c_finished_at := Some (UnixMilli now), c_duration_ms := Some (Milliseconds (res_duration res)),
     c_cancel_requested := False\<rparr>)"
  have "tbl_runs (d_db s') = update_where (\<lambda>c. c_id c = run_id r) g (tbl_runs (d_db s))"
    using assms(2,3)
    by (auto simp: finish_record_def on_db_def FinishRun_def exec_update_def db_then_def sql_def update_rows_def
        db_ret_def finish_of_def IsZero_def g_def)
  from find_row_updated [OF this] have f: "find_row j (d_db s') =
      (if j = run_id r then map_option g (find_row j (d_db s)) else find_row j (d_db s))" for j
    by (simp add: g_def)
  show ?thesis
    using execute_counter [OF assms(1)] assms(4) by (simp add: f g_def)
qed

definition demo_child :: child where
  "demo_child = \<lparr>ch_file_open = True, ch_start_error = None, ch_writes = [(Stdout, ''done'')],
     ch_wait_error = Some ''exit status 3'', ch_ctx = None, ch_exit_code = 3, ch_signal = []\<rparr>"

definition demo_exec :: "result \<times> log_entry list \<times> stats" where
  "demo_exec = execute demo_platform False ''id'' 0 [] (Inr ''/tmp/p'') (\<lambda>la. demo_child)
     (zero_spec\<lparr>sp_shell := ''exit 3''\<rparr>) (demo_event ''backup'') [] zero_stats"

lemma demo_exec_result: "counter_of (fst demo_exec) = Count_failed"
  by (simp add: demo_exec_def execute_def run_event_record_def launch_of_def buildCommand_def run_child_def
      start_error_def demo_child_def completed_def classify_def counter_of_def Let_def marshal_event_def json_time_ok_def
      demo_event_def zero_event_def zero_spec_def)

theorem finish_records_outcome_witness:
  "\<exists>c'. find_row 1 (d_db (finish_record 0 (scanRun (demo_row 1 ''backup'' StatusRunning)) (zero_spec\<lparr>sp_shell := ''exit 3''\<rparr>)
      (fst demo_exec) rerun_demo)) = Some c' \<and> c_status c' = StatusFailed"
proof -
  obtain res log st' where e: "demo_exec = (res, log, st')" by (cases demo_exec)
  have f: "faults (d_db rerun_demo) = []"
    by (simp add: rerun_demo_def Configure_def poke_def NewDispatcher_def demo_defs)
  have i: "run_id (scanRun (demo_row 1 ''backup'' StatusRunning)) = 1" by (simp add: demo_row_def)
  have r: "find_row (run_id (scanRun (demo_row 1 ''backup'' StatusRunning))) (d_db rerun_demo) = Some (demo_row 1 ''backup'' StatusRunning)"
    by (simp add: i find_row_def rerun_demo_def Configure_def poke_def NewDispatcher_def demo_db_def demo_row_def)
  from finish_records_outcome [OF e [unfolded demo_exec_def] refl f r, of 0] demo_exec_result show ?thesis
    by (auto simp: e i simp del: scanRun_fields)
qed

section \<open>Restarts\<close>

text \<open>The delay before each restart of an event whose runs took the given times.\<close>

definition restart_delays :: "spec \<Rightarrow> duration list \<Rightarrow> duration option" where
  "restart_delays sp spans = fold (\<lambda>t seen. Some (next_delay sp seen t)) spans None"

lemma next_delay_step:
  assumes "0 \<le> sp_restart_delay sp" "sp_restart_delay sp \<le> sp_restart_max_delay sp" "sp_restart_max_delay sp < 2 ^ 62"
    and "t < sp_restart_max_delay sp" and "d = min (sp_restart_delay sp * 2 ^ n) (sp_restart_max_delay sp)"
  shows "next_delay sp (Some d) t = min (sp_restart_delay sp * 2 ^ Suc n) (sp_restart_max_delay sp)"
proof -
  have "0 \<le> d" "d \<le> sp_restart_max_delay sp" using assms(1,2,5) by auto
  with assms(3) have "i64 (2 * d) = 2 * d" by (intro i64_id) simp_all
  with assms(4,5) \<open>0 \<le> d\<close> assms(1,2) show ?thesis
    by (auto simp: next_delay_def min_def)
qed


definition backoff_spec :: spec where
  "backoff_spec = zero_spec\<lparr>sp_restart_delay := 1 * second, sp_restart_max_delay := 60 * second\<rparr>"


section \<open>Logged database failures\<close>

definition log_errors :: "(gotime \<times> string \<times> db_error) list \<Rightarrow> disp \<Rightarrow> disp" where
  "log_errors calls s = fold (\<lambda>(now, op, e). queueError now op e) calls s"

definition apart :: "gotime \<times> string \<times> db_error \<Rightarrow> gotime \<times> string \<times> db_error \<Rightarrow> bool" where
  "apart a b \<longleftrightarrow> (fst (snd a) = fst (snd b) \<longrightarrow> fst b - fst a \<ge> minute)"

definition errors_inv :: "disp \<Rightarrow> bool" where
  "errors_inv s \<longleftrightarrow> sorted_wrt apart (d_errors s)
     \<and> (\<forall>x \<in> set (d_errors s). snd (snd x) \<noteq> ContextCanceled
          \<and> (\<exists>t. d_err_limit_at s (fst (snd x)) = Some t \<and> fst x \<le> t))"

lemma errors_inv_queueError: "errors_inv s \<Longrightarrow> errors_inv (queueError now op e s)"
proof -
  assume inv: "errors_inv s"
  have "minute > 0" by (simp add: minute_def)
  show ?thesis
  proof (cases "d_err_limit_at s op")
    case None
    with inv have "\<forall>x \<in> set (d_errors s). fst (snd x) \<noteq> op" by (auto simp: errors_inv_def)
    with inv None show ?thesis
      by (auto simp: errors_inv_def queueError_def Let_def sorted_wrt_append apart_def)
  next
    case (Some t)
    with inv have "\<forall>x \<in> set (d_errors s). fst (snd x) = op \<longrightarrow> fst x \<le> t" by (auto simp: errors_inv_def)
    with inv Some \<open>minute > 0\<close> show ?thesis
      by (fastforce simp: errors_inv_def queueError_def Let_def sorted_wrt_append apart_def)
  qed
qed

text \<open>
  A broken disk does not flood the log: whatever database failures are reported and when, two
  logged failures of the same operation are at least a minute apart, and the failures that only say
  that kickd is stopping are never logged.
\<close>

theorem error_log_rate:
  "sorted_wrt apart (d_errors (log_errors calls (NewDispatcher retention newID db)))
   \<and> list_all (\<lambda>x. snd (snd x) \<noteq> ContextCanceled) (d_errors (log_errors calls (NewDispatcher retention newID db)))"
proof -
  have "errors_inv s \<Longrightarrow> errors_inv (log_errors calls s)" for s
    unfolding log_errors_def by (induction calls arbitrary: s) (auto simp: errors_inv_queueError)
  moreover have "errors_inv (NewDispatcher retention newID db)" by (simp add: errors_inv_def NewDispatcher_def)
  ultimately have "errors_inv (log_errors calls (NewDispatcher retention newID db))" by blast
  then show ?thesis by (auto simp: errors_inv_def list_all_iff)
qed

section \<open>After triggers\<close>

definition fires :: "disp \<Rightarrow> ended \<Rightarrow> follower \<Rightarrow> bool" where
  "fires s r f \<longleftrightarrow> d_specs s (fo_event f) \<noteq> None \<and> status_name (en_status r) \<in> set (fo_statuses f)"

definition after_info_of :: "ended \<Rightarrow> after_info" where
  "after_info_of r = \<lparr>ai_event = en_event r, ai_run_id = en_id r,
     ai_status = status_name (en_status r), ai_exit_code = en_exit_code r\<rparr>"

definition fired_for :: "ended \<Rightarrow> run \<Rightarrow> bool" where
  "fired_for r x \<longleftrightarrow> run_trigger x = KindAfter
     \<and> (case run_payload x of EventJson ev \<Rightarrow> ev_name ev = run_event x \<and> ev_after ev = Some (after_info_of r)
          | OtherText t \<Rightarrow> False)"

lemma follow_runs_spec:
  assumes "json_time_ok now" and "follow_runs now r fs s = (rs, s')"
  shows "map (\<lambda>x. run_event (fst x)) rs = map fo_event (filter (fires s r) fs)
    \<and> d_db s' = d_db s \<and> (\<forall>x \<in> set rs. fired_for r (fst x))"
  using assms
proof (induction now r fs s arbitrary: rs s' rule: follow_runs.induct)
  case (2 now r f fs s)
  show ?case
  proof (cases "fires s r f")
    case False
    with 2 show ?thesis by (auto simp: fires_def split: option.splits if_splits)
  next
    case True
    then obtain sp where sp: "d_specs s (fo_event f) = Some sp" "status_name (en_status r) \<in> set (fo_statuses f)"
      by (auto simp: fires_def)
    define s1 where "s1 = s\<lparr>d_ids := d_ids s + 1\<rparr>"
    have n: "NewID s = (d_new_id s (d_ids s), s1)" by (simp add: NewID_def s1_def)
    let ?ev = "after_event now (d_new_id s (d_ids s)) (fo_event f) sp r"
    have m: "marshal_event ?ev = Some (EventJson ?ev)"
      using "2.prems"(1) by (simp add: marshal_event_def after_event_def zero_event_def)
    obtain rs1 s2 where rec: "follow_runs now r fs s1 = (rs1, s2)" by fastforce
    with "2.prems"(2) sp n m have rs: "rs = (after_run now (d_new_id s (d_ids s)) (fo_event f) (EventJson ?ev) r, max_queued sp) # rs1"
      "s' = s2" by simp_all
    have f: "fires s1 r = fires s r" by (simp add: fires_def s1_def fun_eq_iff)
    from "2.IH"(4) [OF sp(1) _ n [symmetric] m "2.prems"(1) rec] sp(2)
    have IH: "map (\<lambda>x. run_event (fst x)) rs1 = map fo_event (filter (fires s1 r) fs)" "d_db s2 = d_db s1"
      "\<forall>x \<in> set rs1. fired_for r (fst x)" by auto
    have "fired_for r (after_run now (d_new_id s (d_ids s)) (fo_event f) (EventJson ?ev) r)"
      "run_event (after_run now (d_new_id s (d_ids s)) (fo_event f) (EventJson ?ev) r) = fo_event f"
      by (simp_all add: fired_for_def after_run_def new_run_def after_event_def after_info_of_def)
    with IH True show ?thesis by (simp add: rs f) (simp add: s1_def)
  qed
qed simp

lemma fold_count_dropped_db: "d_db (fold (\<lambda>x s. if snd x then count_dropped s else s) ids s) = d_db s"
  by (induction ids arbitrary: s) (simp_all add: count_dropped_def)

lemma list_all2_zip_rows:
  assumes "list_all2 (\<lambda>((r, m), dropped) c. row_for r dropped c) (zip runs ds) new" and "length ds = length runs"
  shows "map c_event new = map (\<lambda>x. run_event (fst x)) runs"
    and "(\<exists>c \<in> set new. c_status c = StatusQueued) \<longleftrightarrow> (\<exists>d \<in> set ds. \<not> d)"
    and "(\<forall>x \<in> set runs. fired_for r (fst x)) \<Longrightarrow> \<forall>c \<in> set new. c_trigger c = KindAfter
      \<and> c_status c \<in> {StatusQueued, StatusDropped}
      \<and> (\<exists>ev. c_payload c = EventJson ev \<and> ev_name ev = c_event c \<and> ev_after ev = Some (after_info_of r))"
  using assms
proof (induction runs arbitrary: ds new)
  case (Cons x runs)
  case 1
  with Cons(1) show ?case by (cases ds; cases new) (auto simp: row_for_def split: prod.splits)
next
  case (Cons x runs)
  case 2
  with Cons(2) show ?case by (cases ds; cases new) (auto simp: row_for_def split: prod.splits if_splits)
next
  case (Cons x runs)
  case 3
  with Cons(3) show ?case
    by (cases ds; cases new) (auto simp: row_for_def fired_for_def split: prod.splits if_splits payload.splits)
qed simp_all

text \<open>
  C12: After triggers: handing an ended run over queues one run for each configured follower of its
  event whose statuses contain the status of the run, in the order of the configuration, and none
  for others; a run that was retried fires nothing, for its next attempt is still to come; each run
  fired tells in its payload which run fired it; the ended run is marked in the same transaction;
  and the loop is woken exactly when one of the fired runs was queued and not dropped.
\<close>

theorem after_triggers_fire:
  assumes "json_time_ok now" and "follow_one now r s = (Some fired, s')"
  shows "\<exists>new. map c_event new =
        (if en_status r = StatusRetried then [] else map fo_event (filter (fires s r) (d_follows s (en_event r))))
      \<and> list_all (\<lambda>c. c_trigger c = KindAfter \<and> c_status c \<in> {StatusQueued, StatusDropped}
          \<and> (\<exists>ev. c_payload c = EventJson ev \<and> ev_name ev = c_event c \<and> ev_after ev = Some (after_info_of r))) new
      \<and> tbl_runs (d_db s') = update_where (\<lambda>c. c_id c = en_id r) (\<lambda>c. c\<lparr>c_followed := True\<rparr>) (tbl_runs (d_db s) @ new)
      \<and> fired = (\<exists>c \<in> set new. c_status c = StatusQueued)"
proof -
  obtain rs s1 where 1: "(if en_status r = StatusRetried then ([], s)
      else follow_runs now r (d_follows s (en_event r)) s) = (rs, s1)" by fastforce
  with follow_runs_spec [OF assms(1), of r "d_follows s (en_event r)" s rs s1]
  have rs: "map (\<lambda>x. run_event (fst x)) rs =
      (if en_status r = StatusRetried then [] else map fo_event (filter (fires s r) (d_follows s (en_event r))))"
    "d_db s1 = d_db s" "\<forall>x \<in> set rs. fired_for r (fst x)"
    by (auto split: if_splits)
  from assms(2) 1 obtain ids s2 where 2: "on_db (Follow now (en_id r) rs) s1 = (Inr ids, s2)"
    and s': "s' = fold (\<lambda>x s. if snd x then count_dropped s else s) ids s2"
    and fired: "fired = (\<exists>x \<in> set ids. \<not> snd x)"
    by (auto simp: follow_one_def split: prod.splits sum.splits)
  from 2 have "Follow now (en_id r) rs (d_db s) = (Inr ids, d_db s2)"
    by (auto simp: rs(2) elim: on_db_elim)
  then obtain new where new: "length ids = length rs"
    "list_all2 (\<lambda>((r, m), dropped) c. row_for r dropped c) (zip rs (map snd ids)) new"
    "tbl_runs (d_db s2) = update_where (\<lambda>c. c_id c = en_id r) (\<lambda>c. c\<lparr>c_followed := True\<rparr>) (tbl_runs (d_db s) @ new)"
    by (rule Follow_Inr) blast
  note z = list_all2_zip_rows [OF new(2)]
  have "length (map snd ids) = length rs" using new(1) by simp
  with z rs new(3) show ?thesis
    by (intro exI [of _ new]) (simp add: s' fold_count_dropped_db fired list_all_iff)
qed

definition notify_spec :: spec where
  "notify_spec = zero_spec\<lparr>sp_name := ''notify'',
     sp_after := [\<lparr>at_event = ''backup'', at_statuses = [''failed'', ''canceled'']\<rparr>]\<rparr>"

definition follow_demo :: disp where
  "follow_demo = Configure [notify_spec] (NewDispatcher 0 (\<lambda>n. ''id'') (demo_db [demo_row 1 ''backup'' StatusFailed]))"

theorem after_triggers_fire_witness:
  "map c_event (tbl_runs (d_db (snd (follow_one 0 (to_ended (demo_row 1 ''backup'' StatusFailed)) follow_demo))))
     = [''backup'', ''notify'']"
proof -
  let ?r = "to_ended (demo_row 1 ''backup'' StatusFailed)"
  let ?s' = "snd (follow_one 0 ?r follow_demo)"
  have sp: "sp_after notify_spec = [\<lparr>at_event = ''backup'', at_statuses = [''failed'', ''canceled'']\<rparr>]"
    "sp_name notify_spec = ''notify''" "sp_defaults notify_spec = []" "sp_concurrency notify_spec = []"
    by (simp_all add: notify_spec_def zero_spec_def)
  have r: "en_id ?r = 1" "en_event ?r = ''backup''" "en_status ?r = StatusFailed"
    by (simp_all add: to_ended_def demo_row_def fresh_row_def demo_firing_def new_run_def)
  have d: "d_specs follow_demo ''notify'' = Some notify_spec" "d_db follow_demo = demo_db [demo_row 1 ''backup'' StatusFailed]"
    "d_follows follow_demo ''backup'' = [\<lparr>fo_event = ''notify'', fo_statuses = [''failed'', ''canceled'']\<rparr>]"
    by (simp_all add: follow_demo_def Configure_def poke_def NewDispatcher_def sp)
  have j: "json_time_ok 0" by (simp add: json_time_ok_def)
  have "fst (follow_one 0 ?r follow_demo) \<noteq> None"
    by (simp add: follow_one_def r d NewID_def marshal_event_def after_event_def zero_event_def json_time_ok_def
        on_db_def Follow_def store_evals demo_db_def empty_db_def max_queued_def sp)
  then obtain x where e: "follow_one 0 ?r follow_demo = (Some x, ?s')"
    by (cases "follow_one 0 ?r follow_demo") auto
  from after_triggers_fire [OF j e] obtain new where
    "map c_event new = (if en_status ?r = StatusRetried then []
        else map fo_event (filter (fires follow_demo ?r) (d_follows follow_demo (en_event ?r))))"
    and n: "tbl_runs (d_db ?s') = update_where (\<lambda>c. c_id c = en_id ?r) (\<lambda>c. c\<lparr>c_followed := True\<rparr>)
        (tbl_runs (d_db follow_demo) @ new)"
    by blast
  then have new: "map c_event new = [''notify'']" by (simp add: r d fires_def)
  have "map c_event (tbl_runs (d_db ?s')) = map c_event (tbl_runs (d_db follow_demo) @ new)"
    unfolding n by (rule map_update_where) simp
  then show ?thesis using new by (simp add: d demo_db_def demo_row_def fresh_row_def demo_firing_def new_run_def)
qed

section \<open>Submitting a firing\<close>

lemma submit_cases:
  assumes "submit now name ev wait s = (r, s')"
  shows "case su_err r of
      Some e \<Rightarrow> same_tables (d_db s) (d_db s') \<and> d_waiters s' = d_waiters s \<and> su_status r = Dispatch_Dropped
        \<and> (e = UnknownEvent name \<longleftrightarrow> d_specs s name = None)
    | None \<Rightarrow> (\<exists>sp rid pl. d_specs s name = Some sp
        \<and> (ev_request_id ev \<noteq> [] \<longrightarrow> rid = ev_request_id ev)
        \<and> marshal_event (ev\<lparr>ev_request_id := rid, ev_time := (if IsZero (ev_time ev) then now else ev_time ev),
             ev_name := name, ev_data := WithDefaults (ev_data ev) (sp_defaults sp)\<rparr>) = Some pl
        \<and> su_id r = tbl_seq (d_db s) + 1
        \<and> (su_status r = Dispatch_Dropped \<longleftrightarrow> sp_concurrency sp = PolicyQueue \<and> count_queued name (d_db s) \<ge> 1000)
        \<and> (\<exists>c. tbl_runs (d_db s') = tbl_runs (d_db s) @ [c] \<and> c_id c = su_id r \<and> c_event c = name
             \<and> c_request_id c = rid \<and> c_payload c = pl \<and> c_trigger c = ev_trigger ev \<and> c_attempt c = 1
             \<and> c_status c = (if su_status r = Dispatch_Dropped then StatusDropped else StatusQueued))
        \<and> d_waiters s' = (if wait \<and> su_status r = Dispatch_Queued then insert (su_id r) (d_waiters s) else d_waiters s))"
proof -
  define rid where "rid = fst (if ev_request_id ev = [] then NewID s else (ev_request_id ev, s))"
  define s0 where "s0 = snd (if ev_request_id ev = [] then NewID s else (ev_request_id ev, s))"
  have s0: "d_specs s0 = d_specs s" "d_db s0 = d_db s" "d_waiters s0 = d_waiters s"
    by (simp_all add: s0_def NewID_def)
  have pair: "(if ev_request_id ev = [] then NewID s else (ev_request_id ev, s)) = (rid, s0)"
    by (simp add: rid_def s0_def)
  show ?thesis
  proof (cases "d_specs s name")
    case None
    with assms pair s0 show ?thesis by (auto simp: submit_def)
  next
    case (Some sp)
    let ?ev = "ev\<lparr>ev_request_id := rid, ev_time := (if IsZero (ev_time ev) then now else ev_time ev),
             ev_name := name, ev_data := WithDefaults (ev_data ev) (sp_defaults sp)\<rparr>"
    show ?thesis
    proof (cases "marshal_event ?ev")
      case None
      with assms pair s0 Some show ?thesis by (auto simp: submit_def Let_def)
    next
      case m: (Some pl)
      let ?time = "if IsZero (ev_time ev) then now else ev_time ev"
      let ?run = "new_run rid name (ev_trigger ev) (ev_trigger_id ev) (ev_source ev) pl ?time zero_time"
      obtain x t where e: "on_db (Enqueue now ?run (max_queued sp)) s0 = (x, t)" by fastforce
      then obtain db' where db: "Enqueue now ?run (max_queued sp) (d_db s) = (x, db')" and t: "t = s0\<lparr>d_db := db'\<rparr>"
        by (auto simp: s0 elim: on_db_elim)
      have run: "run_event ?run = name" "run_request_id ?run = rid" "run_payload ?run = pl" "run_attempt ?run = 1"
        "run_trigger ?run = ev_trigger ev" by (simp_all add: new_run_def)
      have full: "full_for ?run (max_queued sp) (d_db s) \<longleftrightarrow>
          sp_concurrency sp = PolicyQueue \<and> count_queued name (d_db s) \<ge> 1000"
        by (simp add: full_for_def run max_queued_def MaxQueuedPerEvent_def)
      from db show ?thesis
      proof (cases rule: Enqueue_elim)
        case (error er fs)
        with assms pair s0 Some m e t show ?thesis
          by (auto simp: submit_def Let_def queueError_def)
      next
        case (ok fs)
        define c where "c = (enqueued_row now ?run (full_for ?run (max_queued sp) (d_db s)))\<lparr>c_id := tbl_seq (d_db s) + 1\<rparr>"
        have c: "c_id c = tbl_seq (d_db s) + 1" "c_event c = name" "c_request_id c = rid" "c_payload c = pl"
          "c_trigger c = ev_trigger ev" "c_attempt c = 1"
          "c_status c = (if full_for ?run (max_queued sp) (d_db s) then StatusDropped else StatusQueued)"
          by (simp_all add: c_def run)
        have rows: "tbl_runs db' = tbl_runs (d_db s) @ [c]"
          using ok by (simp add: insert_row_def Let_def c_def)
        let ?full = "full_for ?run (max_queued sp) (d_db s)" and ?i = "tbl_seq (d_db s) + 1"
        have sub: "submit now name ev wait s = (if ?full
            then (\<lparr>su_status = Dispatch_Dropped, su_id = ?i, su_wait = False, su_err = None\<rparr>, count_dropped t)
            else (\<lparr>su_status = Dispatch_Queued, su_id = ?i, su_wait = wait, su_err = None\<rparr>,
                  poke (if wait then t\<lparr>d_waiters := insert ?i (d_waiters t)\<rparr> else t)))"
          unfolding submit_def pair Let_def prod.case s0 Some option.case m e ok(1) by simp
        have req: "ev_request_id ev \<noteq> [] \<longrightarrow> rid = ev_request_id ev" by (simp add: rid_def)
        have R: "su_err r = None" "su_id r = ?i" "d_db s' = db'"
            "su_status r = (if ?full then Dispatch_Dropped else Dispatch_Queued)"
            "d_waiters s' = (if wait \<and> \<not> ?full then insert ?i (d_waiters s) else d_waiters s)"
          using sub assms by (cases ?full; auto simp: count_dropped_def poke_def t s0)+
        have F1: "su_status r = Dispatch_Dropped \<longleftrightarrow> sp_concurrency sp = PolicyQueue \<and> count_queued name (d_db s) \<ge> 1000"
          unfolding full [symmetric] by (simp add: R)
        have F2: "\<exists>c. tbl_runs (d_db s') = tbl_runs (d_db s) @ [c] \<and> c_id c = su_id r \<and> c_event c = name
             \<and> c_request_id c = rid \<and> c_payload c = pl \<and> c_trigger c = ev_trigger ev \<and> c_attempt c = 1
             \<and> c_status c = (if su_status r = Dispatch_Dropped then StatusDropped else StatusQueued)"
          by (intro exI [of _ c]) (simp add: rows c R)
        have F3: "d_waiters s' = (if wait \<and> su_status r = Dispatch_Queued then insert (su_id r) (d_waiters s) else d_waiters s)"
          by (simp add: R)
        show ?thesis unfolding R(1) option.case
          by (intro exI [of _ sp] exI [of _ rid] exI [of _ pl] conjI Some req m R(2) F1 F2 F3)
      qed
    qed
  qed
qed

text \<open>
  C7: Submitting a firing: an unknown event, a payload that cannot be encoded and a database error
  are reported and leave every table and the waiting callers as they were; otherwise the firing is
  one new row with the next id and the defaults of the event filled in, dropped exactly when its
  event runs under the queue policy and has 1000 queued runs already; and a caller waits for the
  run exactly when it asked to and the firing was queued.
\<close>

theorem submit_behaviour:
  assumes "submit now name ev wait s = (r, s')"
  shows "case su_err r of
      Some e \<Rightarrow> same_tables (d_db s) (d_db s') \<and> d_waiters s' = d_waiters s \<and> su_status r = Dispatch_Dropped
        \<and> (e = UnknownEvent name \<longleftrightarrow> d_specs s name = None)
    | None \<Rightarrow> (\<exists>sp rid pl. d_specs s name = Some sp
        \<and> (ev_request_id ev \<noteq> [] \<longrightarrow> rid = ev_request_id ev)
        \<and> marshal_event (ev\<lparr>ev_request_id := rid, ev_time := (if IsZero (ev_time ev) then now else ev_time ev),
             ev_name := name, ev_data := WithDefaults (ev_data ev) (sp_defaults sp)\<rparr>) = Some pl
        \<and> su_id r = tbl_seq (d_db s) + 1
        \<and> (su_status r = Dispatch_Dropped \<longleftrightarrow> sp_concurrency sp = PolicyQueue \<and> count_queued name (d_db s) \<ge> 1000)
        \<and> (\<exists>c. tbl_runs (d_db s') = tbl_runs (d_db s) @ [c] \<and> c_id c = su_id r \<and> c_event c = name
             \<and> c_request_id c = rid \<and> c_payload c = pl \<and> c_trigger c = ev_trigger ev \<and> c_attempt c = 1
             \<and> c_status c = (if su_status r = Dispatch_Dropped then StatusDropped else StatusQueued))
        \<and> d_waiters s' = (if wait \<and> su_status r = Dispatch_Queued then insert (su_id r) (d_waiters s) else d_waiters s))"
  using assms by (rule submit_cases)

theorem submit_behaviour_witness:
  "su_status (fst (submit 0 ''backup'' (demo_event ''backup'') True rerun_demo)) = Dispatch_Queued
   \<and> d_waiters (snd (submit 0 ''backup'' (demo_event ''backup'') True rerun_demo)) = {2}"
proof
  let ?x = "submit 0 ''backup'' (demo_event ''backup'') True rerun_demo"
  have d: "d_specs rerun_demo ''backup'' = Some rerun_spec" "d_waiters rerun_demo = {}"
    "d_db rerun_demo = demo_db [demo_row 1 ''backup'' StatusRunning]"
    by (simp_all add: rerun_demo_def Configure_def poke_def NewDispatcher_def rerun_spec_def)
  have f: "fst ?x = \<lparr>su_status = Dispatch_Queued, su_id = 2, su_wait = True, su_err = None\<rparr>"
    by (simp add: submit_def d demo_event_def rerun_spec_def zero_spec_def WithDefaults_def Let_def marshal_event_def
        json_time_ok_def zero_event_def IsZero_def zero_time_def on_db_def Enqueue_def store_evals max_queued_def
        demo_db_def empty_db_def new_run_def poke_def)
  then show "su_status (fst ?x) = Dispatch_Queued" by simp
  have e: "?x = (fst ?x, snd ?x)" by simp
  from submit_behaviour [OF e] show "d_waiters (snd ?x) = {2}" by (auto simp: f d)
qed

section \<open>Replacement\<close>

lemma newest_of_snoc:
  "newest_of s (rs @ [r]) = (if sp_concurrency (spec_of s (run_event r)) = PolicyReplace
     then (newest_of s rs)(run_event r \<mapsto> run_id r) else newest_of s rs)"
  by (simp add: newest_of_def)

lemma newest_of_eq:
  "newest_of s rs e = (if sp_concurrency (spec_of s e) = PolicyReplace \<and> (\<exists>r \<in> set rs. run_event r = e)
     then Some (run_id (last (filter (\<lambda>r. run_event r = e) rs))) else None)"
proof (induction rs rule: rev_induct)
  case Nil
  then show ?case by (simp add: newest_of_def)
next
  case (snoc r rs)
  then show ?case by (auto simp: newest_of_snoc filter_empty_conv)
qed


definition replace_demo :: disp where
  "replace_demo = Configure [zero_spec\<lparr>sp_name := ''deploy'', sp_concurrency := PolicyReplace\<rparr>]
     (NewDispatcher 0 (\<lambda>n. ''id'') (demo_db [demo_row 1 ''deploy'' StatusQueued, demo_row 2 ''deploy'' StatusQueued]))"


end
