(* ===== verification/DispatcherRace.thy ===== *)
theory DispatcherRace
  imports DispatcherInv
begin

text \<open>
  Properties of every interleaving of the dispatcher, and one interleaving in full: a cancel
  request that is read while its run is about to end overwrites the outcome of the run.
\<close>

section \<open>An interleaving\<close>

definition demo_runner_spec :: spec where
  "demo_runner_spec = zero_spec\<lparr>sp_name := ''backup'', sp_command := [''backup''],
     sp_concurrency := PolicySkip, sp_restart := RestartNever\<rparr>"

definition demo_queued :: row where
  "demo_queued = demo_row 1 ''backup'' StatusQueued"

definition race_start :: sys where
  "race_start = \<lparr>sy_d = Configure [demo_runner_spec] (NewDispatcher 0 (\<lambda>n. ''id'') (demo_db [demo_queued])),
     sy_live = [], sy_loop = AtRest, sy_restarts = [], sy_started = []\<rparr>"

lemma race_start: "reach sys_start sys_step race_start"
  by (rule reach_start)
    (simp add: sys_start_def race_start_def Configure_def NewDispatcher_def poke_def db_wf_def demo_defs
      demo_queued_def)

lemma reach_loop: "reach sys_start sys_step S \<Longrightarrow> loop_step S T \<Longrightarrow> reach sys_start sys_step T"
  and reach_run: "reach sys_start sys_step S \<Longrightarrow> run_step S T \<Longrightarrow> reach sys_start sys_step T"
  and reach_env: "reach sys_start sys_step S \<Longrightarrow> env_step S T \<Longrightarrow> reach sys_start sys_step T"
  by (auto intro: reach_step simp: sys_step_def)

text \<open>The row of the run while it is running, and when a cancel of it was requested.\<close>

definition demo_running :: row where
  "demo_running = demo_queued\<lparr>c_status := StatusRunning, c_started_at := Some 0\<rparr>"

definition demo_done :: result where
  "demo_done = zero_result"

definition quiet_at :: "loop_pc \<Rightarrow> row \<Rightarrow> sys \<Rightarrow> bool" where
  "quiet_at pc row S \<longleftrightarrow> reach sys_start sys_step S \<and> sy_loop S = pc \<and> d_db (sy_d S) = demo_db [row]
     \<and> d_specs (sy_d S) ''backup'' = Some demo_runner_spec \<and> \<not> d_stopping (sy_d S)"

lemma on_db_query: "faults (d_db s) = [] \<Longrightarrow> on_db (query q) s = (Inr (q (d_db s)), s)"
  by (simp add: on_db_def query_def sql_def)

lemma demo_db_faults [simp]: "faults (demo_db rs) = []"
  by (simp add: demo_db_def empty_db_def)

lemma demo_db_runs [simp]: "tbl_runs (demo_db rs) = rs"
  by (simp add: demo_db_def)

lemma demo_db_update [simp]: "length rs = length rs' \<Longrightarrow> (demo_db rs)\<lparr>tbl_runs := rs'\<rparr> = demo_db rs'"
  by (simp add: demo_db_def)

lemma demo_db_inj [simp]: "demo_db rs = demo_db rs' \<longleftrightarrow> rs = rs'"
  by (metis demo_db_runs)

lemma demo_row_fields [simp]:
  "c_id demo_queued = 1" "c_status demo_queued = StatusQueued" "c_event demo_queued = ''backup''"
 "c_trigger demo_queued = KindManual" "c_payload demo_queued = EventJson (demo_event ''backup'')"
  "c_cancel_requested demo_queued = False" "c_not_before demo_queued = None" "c_followed demo_queued = False"
  by (simp_all add: demo_queued_def demo_defs)

lemma race_1: "\<exists>S. quiet_at (Following []) demo_queued S \<and> sy_live S = [] \<and> d_running (sy_d S) = []
    \<and> d_cancels (sy_d S) = {} \<and> sy_restarts S = []"
proof -
  let ?d = "sy_d race_start"
  have db: "d_db ?d = demo_db [demo_queued]"
    by (simp add: race_start_def Configure_def NewDispatcher_def poke_def)
  have c: "on_db CancelRequests ?d = (Inr [], ?d)"
    by (simp add: CancelRequests_def on_db_query db)
  let ?S1 = "race_start\<lparr>sy_d := ?d, sy_loop := Canceling []\<rparr>"
  have 1: "reach sys_start sys_step ?S1"
    by (rule reach_loop [OF race_start], rule read_cancels [OF _ c]) (simp add: race_start_def)
  have u: "on_db (UnfollowedRuns followBatch) (sy_d ?S1) = (Inr [], ?d)"
    by (simp add: UnfollowedRuns_def on_db_query db rows_by_id_def unfollowed_def sql_limit_def followBatch_def)
  have "reach sys_start sys_step (?S1\<lparr>sy_d := ?d, sy_loop := Following []\<rparr>)"
    by (rule reach_loop [OF 1], rule read_ended [OF _ u]) simp
  then show ?thesis
    by (intro exI [of _ "?S1\<lparr>sy_d := ?d, sy_loop := Following []\<rparr>"])
      (simp add: quiet_at_def race_start_def Configure_def NewDispatcher_def poke_def demo_runner_spec_def zero_spec_def)
qed

abbreviation demo_run :: run where
  "demo_run \<equiv> scanRun demo_queued"

lemma demo_spec_fields [simp]:
  "sp_concurrency demo_runner_spec = PolicySkip" "sp_restart demo_runner_spec = RestartNever"
  "sp_log_output demo_runner_spec = False"
  by (simp_all add: demo_runner_spec_def zero_spec_def)

lemma race_2: "\<exists>S. quiet_at (Scanning Map.empty [demo_run]) demo_queued S \<and> sy_live S = []
    \<and> d_running (sy_d S) = [] \<and> d_cancels (sy_d S) = {} \<and> sy_restarts S = []"
proof -
  from race_1 obtain S where S: "reach sys_start sys_step S" "sy_loop S = Following []"
    "d_db (sy_d S) = demo_db [demo_queued]" "d_specs (sy_d S) ''backup'' = Some demo_runner_spec"
    "\<not> d_stopping (sy_d S)" "sy_live S = []" "d_running (sy_d S) = []" "d_cancels (sy_d S) = {}" "sy_restarts S = []"
    by (auto simp: quiet_at_def)
  let ?S1 = "S\<lparr>sy_loop := Waiting []\<rparr>"
  have 1: "reach sys_start sys_step ?S1"
    using reach_loop [OF S(1) read_waiting_quiet [OF S(2)]] S(7) by (simp add: waiting_events_def)
  have q: "on_db (QueuedRuns 0 scheduleBatch []) (sy_d ?S1) = (Inr [demo_run], sy_d S)"
    by (simp add: QueuedRuns_def on_db_query S rows_by_id_def due_def sql_limit_def scheduleBatch_def)
  let ?S2 = "?S1\<lparr>sy_d := sy_d S, sy_loop := GotRows [demo_run]\<rparr>"
  have 2: "reach sys_start sys_step ?S2"
    by (rule reach_loop [OF 1], rule read_rows [OF _ q]) simp
  have n: "newest_of (sy_d S) [demo_run] = Map.empty"
    by (simp add: newest_of_def spec_of_def S)
  have "reach sys_start sys_step (?S2\<lparr>sy_loop := Scanning Map.empty [demo_run]\<rparr>)"
    using reach_loop [OF 2 read_newest [of ?S2 "[demo_run]"]] n by simp
  then show ?thesis
    by (intro exI [of _ "?S2\<lparr>sy_loop := Scanning Map.empty [demo_run]\<rparr>"]) (simp add: quiet_at_def S)
qed

text \<open>After the start the run is live, its row is running, and its cancel function is known.\<close>

lemma race_3: "\<exists>S. quiet_at (Decided demo_run (Started demo_runner_spec) Map.empty []) demo_running S
    \<and> sy_live S = [\<lparr>lv_run = demo_run, lv_spec = demo_runner_spec, lv_phase = Claimed\<rparr>]
    \<and> d_cancels (sy_d S) = {1} \<and> sy_restarts S = []"
proof -
  from race_2 obtain S where S: "reach sys_start sys_step S" "sy_loop S = Scanning Map.empty [demo_run]"
    "d_db (sy_d S) = demo_db [demo_queued]" "d_specs (sy_d S) ''backup'' = Some demo_runner_spec"
    "\<not> d_stopping (sy_d S)" "sy_live S = []" "d_running (sy_d S) = []" "d_cancels (sy_d S) = {}" "sy_restarts S = []"
    by (auto simp: quiet_at_def)
  have st: "StartRun 1 0 (demo_db [demo_queued]) = (Inr True, demo_db [demo_running])"
    by (simp add: StartRun_def change_def update_rows_def sql_def db_then_def db_ret_def demo_running_def UnixMilli_def)
  obtain d where d: "decide 0 Map.empty demo_run (sy_d S) = (Started demo_runner_spec, d)"
    "d_db d = demo_db [demo_running]" "d_cancels d = {1}" "d_specs d = d_specs (sy_d S)" "\<not> d_stopping d"
    by (simp add: decide_def decide_locked_def S running_of_def start_row_def on_db_def st Let_def)
  have "reach sys_start sys_step (S\<lparr>sy_d := d, sy_loop := Decided demo_run (Started demo_runner_spec) Map.empty [],
      sy_live := [\<lparr>lv_run = demo_run, lv_spec = demo_runner_spec, lv_phase = Claimed\<rparr>],
      sy_started := sy_started S @ [run_id demo_run]\<rparr>)"
    using reach_loop [OF S(1) starts [OF S(2) d(1)]] S(6) by simp
  then show ?thesis using d S by (fastforce simp: quiet_at_def)
qed

definition demo_cancel_asked :: row where
  "demo_cancel_asked = demo_running\<lparr>c_cancel_requested := True\<rparr>"

lemma demo_running_fields [simp]:
  "c_id demo_running = 1" "c_status demo_running = StatusRunning" "c_id demo_cancel_asked = 1"
  "c_status demo_cancel_asked = StatusRunning" "c_cancel_requested demo_cancel_asked"
  "c_cancel_requested demo_running = False"
  by (simp_all add: demo_running_def demo_cancel_asked_def)

lemma race_4: "\<exists>S. quiet_at (Canceling [1]) demo_cancel_asked S
    \<and> sy_live S = [\<lparr>lv_run = demo_run, lv_spec = demo_runner_spec, lv_phase = Executing\<rparr>]
    \<and> d_cancels (sy_d S) = {1}"
proof -
  let ?l = "\<lparr>lv_run = demo_run, lv_spec = demo_runner_spec, lv_phase = Claimed\<rparr>"
  from race_3 obtain S where S: "reach sys_start sys_step S"
    "sy_loop S = Decided demo_run (Started demo_runner_spec) Map.empty []"
    "d_db (sy_d S) = demo_db [demo_running]" "d_specs (sy_d S) ''backup'' = Some demo_runner_spec"
    "\<not> d_stopping (sy_d S)" "sy_live S = [?l]" "d_cancels (sy_d S) = {1}"
    by (auto simp: quiet_at_def)
  have ev: "unmarshal_event (run_payload demo_run) = Some (demo_event ''backup'')" by simp
  define d where "d = snd (act 0 demo_run (Started demo_runner_spec) (sy_d S))"
  have d: "d_db d = demo_db [demo_running]" "d_specs d = d_specs (sy_d S)" "d_stopping d = d_stopping (sy_d S)"
    "d_cancels d = {1}"
    by (simp_all add: d_def S)
  let ?S1 = "S\<lparr>sy_d := d, sy_loop := Scanning Map.empty [], sy_live := [set_phase Executing ?l]\<rparr>"
  have 1: "reach sys_start sys_step ?S1"
    using reach_loop [OF S(1) hands_over [OF S(2) ev, of "[]" ?l "[]" 0]] S(6) by (simp add: d_def)
  let ?S2 = "?S1\<lparr>sy_loop := AtRest\<rparr>"
  have 2: "reach sys_start sys_step ?S2"
    by (rule reach_loop [OF 1], rule scan_ends) simp
  have rc: "snd (run_op (OpRequestCancel 0 1) (demo_db [demo_running])) = demo_db [demo_cancel_asked]"
    by (simp add: quiet_def RequestCancel_def in_tx_def end_tx_def nothing_def db_then_def sql_def query_def
        cancel_one_def find_row_def exec_update_def update_rows_def db_ret_def demo_cancel_asked_def)
  let ?e = "d\<lparr>d_db := demo_db [demo_cancel_asked]\<rparr>"
  let ?S3 = "?S2\<lparr>sy_d := ?e\<rparr>"
  have 3: "reach sys_start sys_step ?S3"
    using reach_env [OF 2 other_process [of "OpRequestCancel 0 1" ?S2]] rc d by simp
  have c: "on_db CancelRequests (sy_d ?S3) = (Inr [1], ?e)"
    by (simp add: CancelRequests_def on_db_query)
  have "reach sys_start sys_step (?S3\<lparr>sy_d := ?e, sy_loop := Canceling [1]\<rparr>)"
    by (rule reach_loop [OF 3], rule read_cancels [OF _ c]) simp
  then show ?thesis
    by (intro exI [of _ "?S3\<lparr>sy_d := ?e, sy_loop := Canceling [1]\<rparr>"])
      (simp add: quiet_at_def S d set_phase_def)
qed

lemma run_fields_of_demo [simp]: "run_id demo_run = 1" "run_event demo_run = ''backup''"
  by simp_all

lemma race_5: "\<exists>S row. reach sys_start sys_step S \<and> sy_loop S = CancelLocked 1 (False, False) []
    \<and> d_db (sy_d S) = demo_db [row] \<and> c_id row = 1 \<and> c_status row = StatusSucceeded"
proof -
  let ?l = "\<lparr>lv_run = demo_run, lv_spec = demo_runner_spec, lv_phase = Executing\<rparr>"
  from race_4 obtain S where S: "reach sys_start sys_step S" "sy_loop S = Canceling [1]"
    "d_db (sy_d S) = demo_db [demo_cancel_asked]" "sy_live S = [?l]" "d_cancels (sy_d S) = {1}"
    by (auto simp: quiet_at_def)
  let ?S1 = "S\<lparr>sy_live := [set_phase (Exited demo_done) ?l]\<rparr>"
  have 1: "reach sys_start sys_step ?S1"
    using reach_run [OF S(1) exits [of S "[]" ?l "[]" demo_done]] S(4) by simp
  let ?l1 = "set_phase (Exited demo_done) ?l"
  define d where "d = finish_record 0 demo_run demo_runner_spec demo_done (sy_d S)"
  have fin: "fin_status (finish_of demo_runner_spec demo_done) = StatusSucceeded"
    "IsZero (fin_at (finish_of demo_runner_spec demo_done))"
    by (simp_all add: finish_of_def finish_status_def demo_done_def zero_result_def IsZero_def)
  have "\<exists>row. d_db d = demo_db [row] \<and> c_id row = 1 \<and> c_status row = StatusSucceeded"
    by (simp add: d_def finish_record_def on_db_def S FinishRun_def exec_update_def db_then_def sql_def
        update_rows_def db_ret_def fin)
  then obtain row where row: "d_db d = demo_db [row]" "c_id row = 1" "c_status row = StatusSucceeded" by blast
  have "d_cancels d = {1}" using quietly_finish_record [of "sy_d S" 0 demo_run] S(5) by (simp add: d_def quietly_def)
  let ?S2 = "S\<lparr>sy_d := d, sy_live := [set_phase (Recorded demo_done) ?l1]\<rparr>"
  have 2: "reach sys_start sys_step ?S2"
    using reach_run [OF 1 records [of ?S1 "[]" ?l1 "[]" demo_done 0]] by (simp add: set_phase_def d_def)
  define e where "e = finish_memory demo_run demo_done d"
  have e: "d_db e = demo_db [row]" "1 \<notin> d_cancels e" "1 \<notin> d_cancel_sent e"
    using row by (simp_all add: e_def finish_memory_def Let_def take_waiter_def)
  let ?S3 = "?S2\<lparr>sy_d := e, sy_live := [], sy_restarts := sy_restarts S @
    [RestartCheck demo_run (finish_status demo_done) (res_duration demo_done)]\<rparr>"
  have 3: "reach sys_start sys_step ?S3"
    using reach_run [OF 2 counts_out [of ?S2 "[]" "set_phase (Recorded demo_done) ?l1" "[]" demo_done]]
    by (simp add: set_phase_def e_def)
  have c: "cancel_lock 1 (sy_d ?S3) = ((False, False), e)"
    using e by (simp add: cancel_lock_def Let_def)
  have "reach sys_start sys_step (?S3\<lparr>sy_d := e, sy_loop := CancelLocked 1 (False, False) []\<rparr>)"
    by (rule reach_loop [OF 3], rule cancel_locks [OF _ c]) (simp add: S)
  then show ?thesis
    by (intro exI [of _ "?S3\<lparr>sy_d := e, sy_loop := CancelLocked 1 (False, False) []\<rparr>"] exI [of _ row])
      (simp add: e row)
qed

text \<open>
  C39: A cancel request can overwrite the outcome of a run that ended by itself: when the command
  exits and its goroutine records the outcome and forgets the run after processCancels has read the
  request and before it looks the run up, processCancels takes the row for one without a command
  and records a succeeded run as canceled, because FinishRun does not check that the row still runs.
\<close>

theorem cancel_overwrites_outcome:
  "\<exists>S T. reach sys_start sys_step S \<and> loop_step S T
     \<and> map_option c_status (find_row 1 (d_db (sy_d S))) = Some StatusSucceeded
     \<and> map_option c_status (find_row 1 (d_db (sy_d T))) = Some StatusCanceled"
proof -
  from race_5 obtain S row where S: "reach sys_start sys_step S" "sy_loop S = CancelLocked 1 (False, False) []"
    "d_db (sy_d S) = demo_db [row]" "c_id row = 1" "c_status row = StatusSucceeded" by blast
  let ?T = "S\<lparr>sy_d := cancel_act 0 1 (False, False) (sy_d S), sy_loop := Canceling []\<rparr>"
  have "loop_step S ?T" by (rule cancel_acts [OF S(2)])
  moreover have "map_option c_status (find_row 1 (d_db (sy_d S))) = Some StatusSucceeded"
    by (simp add: find_row_def S)
  moreover have "map_option c_status (find_row 1 (d_db (sy_d ?T))) = Some StatusCanceled"
    by (simp add: cancel_act_def on_db_def S FinishRun_def exec_update_def db_then_def sql_def update_rows_def
        db_ret_def find_row_def canceled_finish_def)
  ultimately show ?thesis using S(1) by blast
qed

section \<open>Every interleaving\<close>

text \<open>
  C1: In every interleaving of the loop, the goroutines of the runs, the triggers, reloads of the
  configuration and other processes, whatever fails: d.running counts exactly the live runs of each
  event, the cancel functions are those of the live runs, no run starts twice, and a run that starts
  under the skip, queue or replace policy starts only while no run of its event is live. So an event
  whose live runs all started under such a policy has at most one.
\<close>

theorem mutual_exclusion:
  assumes "reach sys_start sys_step S"
  shows "(\<forall>e. running_of (sy_d S) e = live_count (lives S) e)
    \<and> d_cancels (sy_d S) = set (live_ids (lives S))
    \<and> distinct (sy_started S) \<and> distinct (live_ids (lives S)) \<and> set (live_ids (lives S)) \<subseteq> set (sy_started S)
    \<and> sorted_wrt exclusive_pair (lives S)
    \<and> (\<forall>e. list_all (\<lambda>(r, sp). run_event r = e \<longrightarrow> exclusive sp) (lives S) \<longrightarrow> live_count (lives S) e \<le> 1)"
proof -
  from assms have inv: "sys_inv S" by (rule disp.inv_reach)
  then have co: "counts_ok (lives S) (sy_d S)" by (simp add: sys_inv_def)
  have one: "live_count ls e \<le> 1"
    if "sorted_wrt exclusive_pair ls" "list_all (\<lambda>(r, sp). run_event r = e \<longrightarrow> exclusive sp) ls" for ls e
    using that
  proof (induction ls)
    case (Cons x ls)
    show ?case
    proof (cases "run_event (fst x) = e")
      case True
      with Cons.prems have "live_count ls e = 0"
        by (fastforce simp: live_count_0 exclusive_pair_def list_all_iff)
      with True show ?thesis by simp
    next
      case False
      with Cons show ?thesis by simp
    qed
  qed simp
  from inv co counts_running [OF co] one show ?thesis
    by (auto simp: sys_inv_def counts_ok_def)
qed

theorem mutual_exclusion_witness:
  "\<exists>S. live_count (lives S) ''backup'' = 1 \<and> running_of (sy_d S) ''backup'' = 1 \<and> 1 \<in> d_cancels (sy_d S)"
proof -
  from race_4 obtain S where S: "reach sys_start sys_step S"
    "sy_live S = [\<lparr>lv_run = demo_run, lv_spec = demo_runner_spec, lv_phase = Executing\<rparr>]"
    by (auto simp: quiet_at_def)
  then have "live_count (lives S) ''backup'' = 1" "live_ids (lives S) = [1]" by (simp_all add: lives_def)
  with mutual_exclusion [OF S(1)] show ?thesis by (intro exI [of _ S]) simp
qed

end
