(* ===== verification/Cron.thy ===== *)
theory Cron
  imports Events Store
begin

text \<open>
  Cron triggers (\<^verbatim>\<open>internal/trigger/cron.go\<close>): the entries of a scheduler, the state that tells
  after a start which times passed while kickd was stopped, the look at the clock that fires what
  is due, and the wait until the next look.

  A schedule of the package gocron is its function \<open>Next\<close>; parsing it and loading a time zone are
  arguments. The state is the database, or nothing (\<open>False\<close>, a nil \<open>CronState\<close>). The lines that
  \<open>check\<close> logs about missed times are values of \<open>cron_out\<close>; the other lines are left out.
\<close>

section \<open>Schedules\<close>

abbreviation MissedRun :: string where "MissedRun \<equiv> ''run''"
abbreviation MissedSkip :: string where "MissedSkip \<equiv> ''skip''"

definition MissedAfter :: duration where "MissedAfter = minute"
definition maxCronWait :: duration where "maxCronWait = second"
definition maxCatchUpSteps :: nat where "maxCatchUpSteps = 1000000"

type_synonym cron_schedule = "gotime \<Rightarrow> gotime"

text \<open>\<open>LoadLocation\<close> and \<open>ParseInLocation\<close> give a message or a value; \<open>loc0\<close> is \<open>time.Local\<close>.\<close>

definition ParseSchedule ::
  "'loc \<Rightarrow> (string \<Rightarrow> string + 'loc) \<Rightarrow> (string \<Rightarrow> 'loc \<Rightarrow> string + cron_schedule) \<Rightarrow> string \<Rightarrow> string
    \<Rightarrow> string + cron_schedule" where
  "ParseSchedule loc0 LoadLocation ParseInLocation spec tz =
     (if tz \<noteq> [] then
        (case LoadLocation tz of
           Inl e \<Rightarrow> Inl (''timezone '' @ json_string tz @ '': '' @ e)
         | Inr l \<Rightarrow> ParseInLocation spec l)
      else ParseInLocation spec loc0)"

record cron_trigger =
  ct_event :: string
  ct_index :: int
  ct_schedule :: string
  ct_timezone :: string
  ct_missed :: string

definition CronStateKey :: "cron_trigger \<Rightarrow> string" where
  "CronStateKey t =
     ct_event t @ ''|'' @ Itoa (ct_index t) @ ''|'' @ ct_timezone t @ ''|'' @ TrimSpace (ct_schedule t)"

record cron_entry =
  ce_trigger :: cron_trigger
  ce_key :: string
  ce_next :: cron_schedule
  ce_last :: gotime

definition Add_cron :: "(string \<Rightarrow> string \<Rightarrow> string + cron_schedule) \<Rightarrow> cron_trigger \<Rightarrow> cron_entry list
    \<Rightarrow> string option \<times> cron_entry list" where
  "Add_cron parse t es =
     (case parse (ct_schedule t) (ct_timezone t) of
        Inl e \<Rightarrow> (Some (''cron '' @ json_string (ct_schedule t) @ '': '' @ e), es)
      | Inr sched \<Rightarrow>
          (let t = (if ct_missed t = [] then t\<lparr>ct_missed := MissedRun\<rparr> else t)
           in (None, es @ [\<lparr>ce_trigger = t, ce_key = CronStateKey t, ce_next = sched,
                                  ce_last = zero_time\<rparr>])))"

section \<open>The state of the triggers\<close>

definition save_cron :: "bool \<Rightarrow> string \<Rightarrow> gotime \<Rightarrow> db \<Rightarrow> db" where
  "save_cron has_state key at d = (if has_state then snd (SetLastCron key at d) else d)"

definition load_cron :: "bool \<Rightarrow> gotime \<Rightarrow> cron_entry \<Rightarrow> db \<Rightarrow> cron_entry \<times> db" where
  "load_cron has_state now e d =
     (let e = e\<lparr>ce_last := now\<rparr> in
      if \<not> has_state then (e, d)
      else (case LastCron (ce_key e) d of
              (Inl err, d) \<Rightarrow> (e, d)
            | (Inr (Some since), d) \<Rightarrow>
                (if since < now then (e\<lparr>ce_last := since\<rparr>, d) else (e, save_cron has_state (ce_key e) now d))
            | (Inr None, d) \<Rightarrow> (e, save_cron has_state (ce_key e) now d)))"

fun load_all :: "bool \<Rightarrow> gotime \<Rightarrow> cron_entry list \<Rightarrow> db \<Rightarrow> cron_entry list \<times> db" where
  "load_all has_state now [] d = ([], d)"
| "load_all has_state now (e # es) d =
     (case load_cron has_state now e d of (e', d') \<Rightarrow>
      case load_all has_state now es d' of (es', d'') \<Rightarrow> (e' # es', d''))"

section \<open>The look at the clock\<close>

datatype cron_out =
    Cron_fired event
  | Missed_skipped string gotime nat gotime
  | Caught_up string gotime nat

text \<open>The loop over the due times: the latest one, and the number of the missed ones with the last.\<close>

partial_function (option) due_times ::
  "cron_schedule \<Rightarrow> gotime \<Rightarrow> gotime \<Rightarrow> gotime \<times> nat \<times> gotime \<Rightarrow> (gotime \<times> nat \<times> gotime) option" where
  "due_times next now t acc =
     (if IsZero t \<or> t > now then Some acc
      else (case acc of (latest, missed, lastMissed) \<Rightarrow>
        (let late = now - t > MissedAfter;
             acc' = (t, if late then missed + 1 else missed, if late then t else lastMissed)
         in if fst (snd acc') \<ge> maxCatchUpSteps then Some acc'
            else due_times next now (next t) acc')))"

definition cron_event :: "string \<Rightarrow> gotime \<Rightarrow> cron_entry \<Rightarrow> gotime \<Rightarrow> bool \<Rightarrow> event" where
  "cron_event request_id at e scheduled missed =
     zero_event\<lparr>ev_request_id := request_id, ev_name := ct_event (ce_trigger e), ev_trigger := KindCron,
       ev_trigger_id := ''cron:'' @ ct_schedule (ce_trigger e), ev_time := at,
       ev_cron := Some \<lparr>ci_schedule = ct_schedule (ce_trigger e), ci_scheduled_at = scheduled,
                         ci_missed = missed\<rparr>\<rparr>"

text \<open>
  One trigger of \<open>check\<close>. \<open>request_id\<close> and \<open>at\<close> are what \<open>NewID\<close> and the clock give when it fires.
  \<open>None\<close> means that the loop over the due times does not end.
\<close>

definition check_entry :: "bool \<Rightarrow> string \<Rightarrow> gotime \<Rightarrow> gotime \<Rightarrow> cron_entry \<Rightarrow> db
    \<Rightarrow> (cron_entry \<times> db \<times> cron_out list) option" where
  "check_entry has_state request_id at now e d =
     (let next = ce_next e; first = next (ce_last e) in
      if IsZero first \<or> first > now then Some (e, d, [])
      else (case due_times next now first (first, 0, zero_time) of
              None \<Rightarrow> None
            | Some (latest, missed, lastMissed) \<Rightarrow>
                (let onTime = now - latest \<le> MissedAfter;
                     e' = e\<lparr>ce_last := now\<rparr>;
                     d' = save_cron has_state (ce_key e) now d;
                     skip = ct_missed (ce_trigger e) = MissedSkip;
                     name = ct_event (ce_trigger e);
                     logs = (if missed = 0 then []
                             else if skip then [Missed_skipped name lastMissed missed (next now)]
                             else [Caught_up name lastMissed missed]);
                     fires = (if onTime then [Cron_fired (cron_event request_id at e latest False)]
                              else if \<not> skip then [Cron_fired (cron_event request_id at e latest True)]
                              else [])
                 in Some (e', d', logs @ fires))))"

text \<open>All triggers, in their order; \<open>ids\<close> and \<open>clock\<close> give the readings of the i-th entry.\<close>

fun check_cron :: "bool \<Rightarrow> (nat \<Rightarrow> string) \<Rightarrow> (nat \<Rightarrow> gotime) \<Rightarrow> gotime \<Rightarrow> nat \<Rightarrow> cron_entry list \<Rightarrow> db
    \<Rightarrow> (cron_entry list \<times> db \<times> cron_out list) option" where
  "check_cron has_state ids clock now i [] d = Some ([], d, [])"
| "check_cron has_state ids clock now i (e # es) d =
     (case check_entry has_state (ids i) (clock i) now e d of
        None \<Rightarrow> None
      | Some (e', d', out) \<Rightarrow>
          (case check_cron has_state ids clock now (Suc i) es d' of
             None \<Rightarrow> None
           | Some (es', d'', out') \<Rightarrow> Some (e' # es', d'', out @ out')))"

definition wait_cron :: "gotime \<Rightarrow> cron_entry list \<Rightarrow> duration" where
  "wait_cron now es =
     max (foldl (\<lambda>d e. let next = ce_next e (ce_last e) in
            if IsZero next then d else if next - now < d then next - now else d) maxCronWait es)
       millisecond"

section \<open>Activation times\<close>

text \<open>
  What gocron documents of \<open>Next\<close>: the first activation time later than the given one, or the
  zero time when there is none.
\<close>

definition next_of :: "gotime set \<Rightarrow> cron_schedule \<Rightarrow> bool" where
  "next_of A next \<longleftrightarrow> (\<forall>t. if IsZero (next t) then (\<forall>a \<in> A. a \<le> t)
      else next t \<in> A \<and> t < next t \<and> (\<forall>a \<in> A. t < a \<longrightarrow> next t \<le> a))"

lemma next_of_zero: "next_of A next \<Longrightarrow> IsZero (next t) \<Longrightarrow> a \<in> A \<Longrightarrow> a \<le> t"
  unfolding next_of_def by meson

lemma next_of_mem: "next_of A next \<Longrightarrow> \<not> IsZero (next t) \<Longrightarrow> next t \<in> A \<and> t < next t"
  unfolding next_of_def by meson

lemma next_of_least: "next_of A next \<Longrightarrow> a \<in> A \<Longrightarrow> t < a \<Longrightarrow> next t \<le> a"
  unfolding next_of_def by (metis linorder_not_less)

definition due_set :: "gotime set \<Rightarrow> gotime \<Rightarrow> gotime \<Rightarrow> gotime set" where
  "due_set A since now = {a \<in> A. since < a \<and> a \<le> now}"

definition late_set :: "gotime set \<Rightarrow> gotime \<Rightarrow> gotime \<Rightarrow> gotime set" where
  "late_set A since now = {a \<in> A. since < a \<and> now - a > MissedAfter}"

lemma finite_due [simp]: "finite (due_set A since now)"
  by (rule finite_subset [of _ "{since<..now}"]) (auto simp: due_set_def)

lemma finite_late [simp]: "finite (late_set A since now)"
  by (rule finite_subset [of _ "{since<..now}"]) (auto simp: late_set_def MissedAfter_def minute_def)

lemma due_step:
  assumes n: "next_of A next" and nz: "\<not> IsZero (next since)" and le: "next since \<le> now"
  shows "due_set A since now = insert (next since) (due_set A (next since) now)"
proof (intro set_eqI iffI)
  fix a
  assume "a \<in> due_set A since now"
  then have a: "a \<in> A" "since < a" "a \<le> now" by (auto simp: due_set_def)
  from next_of_least [OF n a(1,2)] have "next since = a \<or> next since < a" by auto
  with a show "a \<in> insert (next since) (due_set A (next since) now)" by (auto simp: due_set_def)
next
  fix a
  assume "a \<in> insert (next since) (due_set A (next since) now)"
  with next_of_mem [OF n nz] le show "a \<in> due_set A since now" by (auto simp: due_set_def)
qed

lemma late_step:
  assumes n: "next_of A next" and nz: "\<not> IsZero (next since)"
  shows "late_set A since now =
    (if now - next since > MissedAfter then insert (next since) (late_set A (next since) now)
     else {})"
proof (cases "now - next since > MissedAfter")
  case True
  have "late_set A since now = insert (next since) (late_set A (next since) now)"
  proof (intro set_eqI iffI)
    fix a
    assume "a \<in> late_set A since now"
    then have a: "a \<in> A" "since < a" "now - a > MissedAfter" by (auto simp: late_set_def)
    from next_of_least [OF n a(1,2)] have "next since = a \<or> next since < a" by auto
    with a show "a \<in> insert (next since) (late_set A (next since) now)" by (auto simp: late_set_def)
  next
    fix a
    assume "a \<in> insert (next since) (late_set A (next since) now)"
    with next_of_mem [OF n nz] True show "a \<in> late_set A since now" by (auto simp: late_set_def)
  qed
  with True show ?thesis by simp
next
  case False
  have "a \<notin> late_set A since now" for a
    using next_of_least [OF n, of a since] False by (auto simp: late_set_def)
  with False show ?thesis by auto
qed

lemma due_none: "next_of A next \<Longrightarrow> IsZero (next since) \<or> next since > now \<Longrightarrow> due_set A since now = {}"
  using next_of_zero [of A "next" since] next_of_least [of A "next" _ since]
  by (fastforce simp: due_set_def)

lemma due_some: "next_of A next \<Longrightarrow> \<not> IsZero (next since) \<Longrightarrow> next since \<le> now \<Longrightarrow> due_set A since now \<noteq> {}"
  by (simp add: due_step)

lemma due_times_spec:
  assumes n: "next_of A next"
  shows "\<not> IsZero (next t) \<Longrightarrow> next t \<le> now \<Longrightarrow> card (late_set A t now) + m < maxCatchUpSteps \<Longrightarrow>
    due_times next now (next t) (l, m, lm) =
      Some (Max (due_set A t now), m + card (late_set A t now),
            if late_set A t now = {} then lm else Max (late_set A t now))"
proof (induction "nat (now - t)" arbitrary: t l m lm rule: less_induct)
  case less
  let ?t = "next t"
  have tA: "?t \<in> A" "t < ?t" using next_of_mem [OF n less.prems(1)] by auto
  let ?late = "now - ?t > MissedAfter"
  let ?m = "if ?late then m + 1 else m" and ?lm = "if ?late then ?t else lm"
  note ds = due_step [OF n less.prems(1,2)] and ls = late_step [OF n less.prems(1), of now]
  have notin: "?t \<notin> late_set A ?t now" by (simp add: late_set_def)
  have rest0: "\<not> ?late \<Longrightarrow> late_set A ?t now = {}"
    using tA by (auto simp: late_set_def)
  have cardeq: "card (late_set A t now) + m = card (late_set A ?t now) + ?m"
    using ls notin rest0 by simp
  have notfull: "\<not> ?m \<ge> maxCatchUpSteps"
    using cardeq less.prems(3) by linarith
  have unfold: "due_times next now ?t (l, m, lm) = due_times next now (next ?t) (?t, ?m, ?lm)"
    using less.prems(1,2) notfull by (subst due_times.simps) (simp add: Let_def)
  show ?case
  proof (cases "IsZero (next ?t) \<or> next ?t > now")
    case True
    from due_none [OF n True] have d0: "due_set A ?t now = {}" .
    have l0: "late_set A ?t now = {}"
    proof -
      have "0 < MissedAfter" by (simp add: MissedAfter_def minute_def)
      then have "late_set A ?t now \<subseteq> due_set A ?t now" by (auto simp: late_set_def due_set_def)
      with d0 show ?thesis by simp
    qed
    have "due_times next now (next ?t) (?t, ?m, ?lm) = Some (?t, ?m, ?lm)"
      using True by (subst due_times.simps) auto
    with unfold show ?thesis using ds ls d0 l0 by simp
  next
    case False
    then have nz: "\<not> IsZero (next ?t)" and le: "next ?t \<le> now" by auto
    have dec: "nat (now - ?t) < nat (now - t)" using tA less.prems(2) by simp
    have ne: "due_set A ?t now \<noteq> {}" by (rule due_some [OF n nz le])
    have maxd: "Max (due_set A t now) = Max (due_set A ?t now)"
    proof -
      have "Max (due_set A ?t now) \<in> due_set A ?t now" using ne by (intro Max_in) auto
      then have "?t \<le> Max (due_set A ?t now)" by (simp add: due_set_def)
      then show ?thesis unfolding ds using ne by (simp add: Max_insert)
    qed
    have IH: "due_times next now (next ?t) (?t, ?m, ?lm) =
      Some (Max (due_set A ?t now), ?m + card (late_set A ?t now),
            if late_set A ?t now = {} then ?lm else Max (late_set A ?t now))"
      by (rule less.hyps [OF dec nz le]) (use cardeq less.prems(3) in linarith)
    have lmeq: "(if late_set A ?t now = {} then ?lm else Max (late_set A ?t now)) =
      (if late_set A t now = {} then lm else Max (late_set A t now))"
    proof (cases "late_set A ?t now = {}")
      case True
      then show ?thesis using ls by simp
    next
      case False
      then have "Max (late_set A ?t now) \<in> late_set A ?t now" by (intro Max_in) auto
      then have "?t \<le> Max (late_set A ?t now)" by (simp add: late_set_def)
      moreover have "?late" using rest0 False by blast
      ultimately show ?thesis using False ls by (simp add: Max_insert)
    qed
    show ?thesis unfolding unfold IH lmeq maxd using cardeq by simp
  qed
qed

end
