(* ===== verification/CronProps.thy ===== *)
theory CronProps
  imports Cron StoreSpecs
begin

text \<open>
  What a cron trigger promises, against the set of the activation times of its schedule: what
  one look at the clock fires, that it ends, that over any history of looks and restarts no
  scheduled time fires twice and the latest one is never forgotten, and how long it waits.
\<close>

section \<open>The loop over the due times ends\<close>

lemma due_times_ends:
  assumes n: "next_of A next"
  shows "\<exists>latest missed lm. due_times next now t (l, m, lm0) = Some (latest, missed, lm)"
proof (induction "nat (now - t)" arbitrary: t l m lm0 rule: less_induct)
  case less
  show ?case
  proof (cases "IsZero t \<or> t > now")
    case True
    then show ?thesis by (subst due_times.simps) auto
  next
    case False
    show ?thesis
    proof (cases "IsZero (next t)")
      case True
      with False show ?thesis
        by (subst due_times.simps) (auto simp: Let_def due_times.simps [of _ _ "next t"])
    next
      case nz: False
      have lt: "t < next t" using next_of_mem [OF n nz] by simp
      have IH: "\<exists>latest missed lm. due_times next now (next t) (l', m', lm') = Some (latest, missed, lm)"
        for l' m' lm'
      proof (cases "next t > now")
        case True
        then show ?thesis by (subst due_times.simps) auto
      next
        case False
        with lt have "nat (now - next t) < nat (now - t)" by simp
        from less.hyps [OF this] show ?thesis .
      qed
      from False show ?thesis
        by (subst due_times.simps) (auto simp: Let_def IH)
    qed
  qed
qed

section \<open>One look at the clock\<close>

text \<open>\<open>firing_of\<close> is what a look owes for the due times that it finds.\<close>

definition firing_of :: "string \<Rightarrow> gotime \<Rightarrow> gotime \<Rightarrow> cron_entry \<Rightarrow> gotime set \<Rightarrow> cron_out list" where
  "firing_of request_id at now e D =
     (if now - Max D \<le> MissedAfter then [Cron_fired (cron_event request_id at e (Max D) False)]
      else if ct_missed (ce_trigger e) = MissedSkip then []
      else [Cron_fired (cron_event request_id at e (Max D) True)])"

definition missed_of :: "gotime \<Rightarrow> cron_entry \<Rightarrow> gotime set \<Rightarrow> cron_out list" where
  "missed_of now e L =
     (if L = {} then []
      else if ct_missed (ce_trigger e) = MissedSkip
        then [Missed_skipped (ct_event (ce_trigger e)) (Max L) (card L) (ce_next e now)]
      else [Caught_up (ct_event (ce_trigger e)) (Max L) (card L)])"

lemma check_entry_spec:
  assumes n: "next_of A (ce_next e)" and few: "card (late_set A (ce_last e) now) < maxCatchUpSteps"
  shows "check_entry has_state request_id at now e d =
    (if due_set A (ce_last e) now = {} then Some (e, d, [])
     else Some (e\<lparr>ce_last := now\<rparr>, save_cron has_state (ce_key e) now d,
       missed_of now e (late_set A (ce_last e) now)
       @ firing_of request_id at now e (due_set A (ce_last e) now)))"
proof (cases "IsZero (ce_next e (ce_last e)) \<or> ce_next e (ce_last e) > now")
  case True
  from due_none [OF n True] True show ?thesis by (simp add: check_entry_def Let_def)
next
  case False
  then have nz: "\<not> IsZero (ce_next e (ce_last e))" and le: "ce_next e (ce_last e) \<le> now" by auto
  from due_some [OF n nz le] have ne: "due_set A (ce_last e) now \<noteq> {}" .
  note scan = due_times_spec [OF n nz le, of 0 "ce_next e (ce_last e)" zero_time]
  from False ne few show ?thesis
    by (simp add: check_entry_def Let_def scan missed_of_def firing_of_def)
qed

text \<open>
  A look of a cron trigger at the clock does nothing when no scheduled time lies between the
  last look that found one and now. Otherwise it records now as handled, and all the due times
  become one firing for the latest of them: on time when kickd notices it at most a minute late,
  as a missed one when \<open>missed\<close> is not \<open>skip\<close>, and not at all when it is; the line
  about missed times counts exactly those that are more than a minute old. The loop ends for
  every schedule whose \<open>Next\<close> keeps its documented contract, and the bound of a million missed
  times is the only case in which the count stops early.\<close>
theorem cron_look:
  assumes "next_of A (ce_next e)"
  shows "check_entry has_state request_id at now e d \<noteq> None \<and>
    (card (late_set A (ce_last e) now) < maxCatchUpSteps \<longrightarrow>
      check_entry has_state request_id at now e d =
      (if due_set A (ce_last e) now = {} then Some (e, d, [])
       else Some (e\<lparr>ce_last := now\<rparr>, save_cron has_state (ce_key e) now d,
         missed_of now e (late_set A (ce_last e) now)
         @ firing_of request_id at now e (due_set A (ce_last e) now))))"
proof (intro conjI impI)
  show "check_entry has_state request_id at now e d \<noteq> None"
    using due_times_ends [OF assms, of now "ce_next e (ce_last e)" "ce_next e (ce_last e)" 0 zero_time]
    by (auto simp: check_entry_def Let_def)
qed (rule check_entry_spec [OF assms])

text \<open>A schedule with an activation at every full hour after the epoch.\<close>

definition hourly :: cron_schedule where
  "hourly t = (max t 0 div hour + 1) * hour"

definition full_hours :: "gotime set" where
  "full_hours = {a. 0 < a \<and> a mod hour = 0}"

lemma full_hours_iff: "a \<in> full_hours \<longleftrightarrow> (\<exists>k>0. a = k * hour)"
proof
  assume "a \<in> full_hours"
  then have "0 < a" "a = (a div hour) * hour" by (auto simp: full_hours_def mod_eq_0_iff_dvd)
  moreover from this have "0 < a div hour" by (smt (verit) zero_less_mult_iff hour_def)
  ultimately show "\<exists>k>0. a = k * hour" by blast
qed (auto simp: full_hours_def hour_def)

lemma hourly_next_of: "next_of full_hours hourly"
proof -
  have H: "0 < hour" by (simp add: hour_def)
  have k: "0 < max t 0 div hour + 1" for t
    using H by (simp add: pos_imp_zdiv_nonneg_iff add_pos_nonneg add.commute)
  then have mem: "hourly t \<in> full_hours" for t
    unfolding full_hours_iff hourly_def by blast
  have pos: "0 < hourly t" for t using mem [of t] by (simp add: full_hours_def)
  have split: "max t 0 div hour * hour + max t 0 mod hour = max t 0" and rest: "0 \<le> max t 0 mod hour"
    and less: "max t 0 mod hour < hour" for t
    using H by simp_all
  have later: "t < hourly t" for t
  proof -
    have "max t 0 < max t 0 div hour * hour + hour" using split [of t] less [of t] by linarith
    then show ?thesis by (simp only: hourly_def distrib_right mult_1_left)
  qed
  have least: "hourly t \<le> a" if a: "a \<in> full_hours" and lt: "t < a" for a t
  proof -
    from a obtain k where k: "0 < k" "a = k * hour" by (auto simp: full_hours_iff)
    have "max t 0 < k * hour" using k lt H by auto
    with split [of t] rest [of t] have "max t 0 div hour * hour < k * hour" by linarith
    with H have "max t 0 div hour + 1 \<le> k" by simp
    then show ?thesis using k H by (simp only: hourly_def mult_right_mono)
  qed
  have nz: "\<not> IsZero (hourly t)" for t
    using pos [of t] by (simp add: IsZero_def zero_time_def)
  show ?thesis unfolding next_of_def using nz mem later least by auto
qed

definition demo_cron :: "string \<Rightarrow> gotime \<Rightarrow> cron_entry" where
  "demo_cron missed since =
     \<lparr>ce_trigger = \<lparr>ct_event = ''backup'', ct_index = 0, ct_schedule = ''0 * * * *'', ct_timezone = [],
                    ct_missed = missed\<rparr>,
      ce_key = ''backup|0||0 * * * *'', ce_next = hourly, ce_last = since\<rparr>"

lemma demo_due: "due_set full_hours (10 * hour) (12 * hour + second) = {11 * hour, 12 * hour}"
proof (intro set_eqI iffI)
  fix a
  assume "a \<in> due_set full_hours (10 * hour) (12 * hour + second)"
  then obtain k where "a = k * hour" "10 * hour < a" "a \<le> 12 * hour + second"
    by (auto simp: due_set_def full_hours_iff)
  then have "10 < k" "k < 13" by (simp_all add: duration_defs)
  then have "k = 11 \<or> k = 12" by auto
  with \<open>a = k * hour\<close> show "a \<in> {11 * hour, 12 * hour}" by auto
next
  fix a
  assume "a \<in> {11 * hour, 12 * hour}"
  then show "a \<in> due_set full_hours (10 * hour) (12 * hour + second)"
    by (auto simp: due_set_def full_hours_def duration_defs)
qed

lemma demo_late: "late_set full_hours (10 * hour) (12 * hour + second) = {11 * hour}"
proof -
  have "late_set full_hours (10 * hour) (12 * hour + second) =
    {a \<in> due_set full_hours (10 * hour) (12 * hour + second). 12 * hour + second - a > MissedAfter}"
    by (auto simp: late_set_def due_set_def MissedAfter_def duration_defs)
  also have "\<dots> = {11 * hour}" unfolding demo_due by (auto simp: MissedAfter_def duration_defs)
  finally show ?thesis .
qed

theorem cron_look_witness:
  "check_entry False ''r1'' (12 * hour + second) (12 * hour + second) (demo_cron MissedRun (10 * hour)) empty_db =
    Some (demo_cron MissedRun (12 * hour + second), empty_db,
      [Caught_up ''backup'' (11 * hour) 1,
       Cron_fired (cron_event ''r1'' (12 * hour + second) (demo_cron MissedRun (10 * hour)) (12 * hour) False)])"
proof -
  have n: "next_of full_hours (ce_next (demo_cron MissedRun (10 * hour)))"
    by (simp add: demo_cron_def hourly_next_of)
  have last: "ce_last (demo_cron MissedRun (10 * hour)) = 10 * hour" by (simp add: demo_cron_def)
  have few: "card {11 * hour} < maxCatchUpSteps" by (simp add: maxCatchUpSteps_def)
  have max: "Max {11 * hour, 12 * hour} = 12 * hour" by (simp add: hour_def)
  show ?thesis
    using cron_look [OF n, of False "''r1''" "12 * hour + second" "12 * hour + second" empty_db] few
    unfolding last demo_due demo_late
    by (simp add: firing_of_def missed_of_def max save_cron_def)
       (simp add: demo_cron_def MissedAfter_def duration_defs)
qed

section \<open>A history of looks and restarts\<close>

datatype cron_op = Look gotime | Restart gotime

fun op_time :: "cron_op \<Rightarrow> gotime" where
  "op_time (Look t) = t"
| "op_time (Restart t) = t"

fun cron_history :: "string \<Rightarrow> gotime \<Rightarrow> cron_op list \<Rightarrow> cron_entry \<Rightarrow> db
    \<Rightarrow> (cron_entry \<times> db \<times> cron_out list) option" where
  "cron_history request_id at [] e d = Some (e, d, [])"
| "cron_history request_id at (Look t # ops) e d =
     (case check_entry True request_id at t e d of
        None \<Rightarrow> None
      | Some (e', d', out) \<Rightarrow>
          map_option (\<lambda>(e'', d'', out'). (e'', d'', out @ out')) (cron_history request_id at ops e' d'))"
| "cron_history request_id at (Restart t # ops) e d =
     (case load_cron True t e d of (e', d') \<Rightarrow> cron_history request_id at ops e' d')"

fun fired_at :: "cron_out \<Rightarrow> gotime list" where
  "fired_at (Cron_fired ev) = (case ev_cron ev of None \<Rightarrow> [] | Some c \<Rightarrow> [ci_scheduled_at c])"
| "fired_at _ = []"

definition fired_times :: "cron_out list \<Rightarrow> gotime list" where
  "fired_times out = concat (map fired_at out)"

lemma fired_times_append [simp]: "fired_times (a @ b) = fired_times a @ fired_times b"
  by (simp add: fired_times_def)

lemma fired_times_missed [simp]: "fired_times (missed_of now e L) = []"
  by (simp add: fired_times_def missed_of_def)

lemma fired_times_firing:
  "fired_times (firing_of request_id at now e D) =
    (if now - Max D \<le> MissedAfter \<or> ct_missed (ce_trigger e) \<noteq> MissedSkip then [Max D] else [])"
  by (simp add: fired_times_def firing_of_def cron_event_def)

lemma save_cron_ok:
  "faults d = [] \<Longrightarrow> save_cron True key at d = d\<lparr>tbl_cron := (tbl_cron d)(key \<mapsto> UnixMilli at)\<rparr>"
  by (simp add: save_cron_def SetLastCron_def sql_def)

lemma load_cron_ok:
  "faults d = [] \<Longrightarrow> load_cron True now e d =
    (case tbl_cron d (ce_key e) of
       Some r \<Rightarrow> (if from_UnixMilli r < now then (e\<lparr>ce_last := from_UnixMilli r\<rparr>, d)
                   else (e\<lparr>ce_last := now\<rparr>, save_cron True (ce_key e) now d))
     | None \<Rightarrow> (e\<lparr>ce_last := now\<rparr>, save_cron True (ce_key e) now d))"
  by (simp add: load_cron_def LastCron_def query_def sql_def Let_def split: option.split)

lemma whole_ms_le: "a mod millisecond = 0 \<Longrightarrow> a \<le> t \<Longrightarrow> a \<le> from_UnixMilli (UnixMilli t)"
proof -
  assume "a mod millisecond = 0" and le: "a \<le> t"
  then obtain k where k: "a = k * 1000000" by (auto simp: millisecond_def mod_eq_0_iff_dvd dvd_def)
  with le have "k \<le> t div 1000000" using zdiv_mono1 [of a t 1000000] by simp
  with k show ?thesis by (simp add: from_UnixMilli_def UnixMilli_def)
qed

text \<open>
  The state after a history that covers the times up to \<open>c\<close>: the entry and its record lie at
  or before \<open>c\<close> with no activation in between, and the times fired so far are in order.
\<close>

definition covers :: "gotime set \<Rightarrow> gotime \<Rightarrow> gotime \<Rightarrow> cron_entry \<Rightarrow> db \<Rightarrow> bool" where
  "covers A t0 c e d \<longleftrightarrow>
     t0 \<le> c \<and> ce_last e \<le> c \<and> (\<forall>a \<in> A. a \<le> c \<longrightarrow> a \<le> ce_last e) \<and> faults d = [] \<and>
     (\<exists>r. tbl_cron d (ce_key e) = Some r \<and> from_UnixMilli r \<le> c \<and> (\<forall>a \<in> A. a \<le> c \<longrightarrow> a \<le> from_UnixMilli r))"

definition fired_ok :: "gotime set \<Rightarrow> gotime \<Rightarrow> gotime \<Rightarrow> bool \<Rightarrow> gotime list \<Rightarrow> bool" where
  "fired_ok A t0 c skip F \<longleftrightarrow>
     sorted_wrt (<) F \<and> set F \<subseteq> due_set A t0 c \<and>
     (\<not> skip \<longrightarrow> due_set A t0 c \<noteq> {} \<longrightarrow> Max (due_set A t0 c) \<in> set F)"

lemma covers_due: "covers A t0 c e d \<Longrightarrow> due_set A (ce_last e) now = due_set A c now"
  unfolding covers_def due_set_def by force

lemma covers_late: "covers A t0 c e d \<Longrightarrow> late_set A (ce_last e) now = late_set A c now"
  unfolding covers_def late_set_def by force

lemma due_set_split: "t0 \<le> c \<Longrightarrow> c \<le> t \<Longrightarrow> due_set A t0 t = due_set A t0 c \<union> due_set A c t"
  unfolding due_set_def by fastforce

lemma due_set_before: "a \<in> due_set A t0 c \<Longrightarrow> b \<in> due_set A c t \<Longrightarrow> a < b"
  by (auto simp: due_set_def)

lemma fired_ok_extend:
  assumes F: "fired_ok A t0 c skip F" and le: "t0 \<le> c" "c \<le> t" and D: "due_set A c t \<noteq> {}"
    and G: "G = [Max (due_set A c t)] \<or> (skip \<and> G = [])"
  shows "fired_ok A t0 t skip (F @ G)"
proof -
  note split = due_set_split [OF le, of A]
  have Mx: "Max (due_set A c t) \<in> due_set A c t" using D by (intro Max_in) auto
  have top: "Max (due_set A t0 t) = Max (due_set A c t)"
  proof (cases "due_set A t0 c = {}")
    case True
    then show ?thesis by (simp add: split)
  next
    case False
    have "Max (due_set A t0 c) \<in> due_set A t0 c" using False by (intro Max_in) auto
    from due_set_before [OF this Mx] show ?thesis
      unfolding split using False D by (simp add: Max_Un)
  qed
  show ?thesis
    using F G Mx due_set_before [OF _ Mx] unfolding fired_ok_def top
    by (auto simp: split sorted_wrt_append)
qed

lemma fired_ok_idle:
  "fired_ok A t0 c skip F \<Longrightarrow> t0 \<le> c \<Longrightarrow> c \<le> t \<Longrightarrow> due_set A c t = {} \<Longrightarrow> fired_ok A t0 t skip F"
  by (simp add: fired_ok_def due_set_split [of t0 c t])

lemma look_step:
  assumes n: "next_of A (ce_next e)" and ms: "\<forall>a \<in> A. a mod millisecond = 0"
    and cov: "covers A t0 c e d" and F: "fired_ok A t0 c (ct_missed (ce_trigger e) = MissedSkip) F"
    and le: "c \<le> t" and few: "card (late_set A t0 t) < maxCatchUpSteps"
  shows "\<exists>e' d' out. check_entry True request_id at t e d = Some (e', d', out) \<and>
    ce_trigger e' = ce_trigger e \<and> ce_next e' = ce_next e \<and> covers A t0 t e' d' \<and>
    fired_ok A t0 t (ct_missed (ce_trigger e) = MissedSkip) (F @ fired_times out)"
proof -
  have t0: "t0 \<le> c" and fl: "faults d = []" using cov by (auto simp: covers_def)
  have "late_set A (ce_last e) t \<subseteq> late_set A t0 t"
    unfolding covers_late [OF cov] using t0 by (auto simp: late_set_def)
  with few have few': "card (late_set A (ce_last e) t) < maxCatchUpSteps"
    using card_mono [OF finite_late] by (meson order_le_less_trans)
  note run = check_entry_spec [OF n few', of True request_id at d, unfolded covers_due [OF cov]]
  show ?thesis
  proof (cases "due_set A c t = {}")
    case True
    have none: "a \<le> c" if "a \<in> A" "a \<le> t" for a
      using True that unfolding due_set_def by (metis (mono_tags, lifting) empty_Collect_eq linorder_not_le)
    have cov': "covers A t0 t e d"
      using cov le none unfolding covers_def by (meson order_trans)
    from fired_ok_idle [OF F t0 le True] cov' True show ?thesis
      by (simp add: run fired_times_def)
  next
    case False
    have r: "from_UnixMilli (UnixMilli t) \<le> t" by (rule from_UnixMilli_le)
    have cov': "covers A t0 t (e\<lparr>ce_last := t\<rparr>) (save_cron True (ce_key e) t d)"
      using t0 le fl r ms whole_ms_le by (auto simp: covers_def save_cron_ok)
    have "fired_ok A t0 t (ct_missed (ce_trigger e) = MissedSkip)
        (F @ fired_times (firing_of request_id at t e (due_set A c t)))"
      by (rule fired_ok_extend [OF F t0 le False]) (auto simp: fired_times_firing)
    with cov' False show ?thesis by (simp add: run)
  qed
qed

lemma restart_step:
  assumes ms: "\<forall>a \<in> A. a mod millisecond = 0" and cov: "covers A t0 c e d" and le: "c \<le> t"
  shows "\<exists>e' d'. load_cron True t e d = (e', d') \<and> ce_trigger e' = ce_trigger e \<and>
    ce_next e' = ce_next e \<and> covers A t0 c e' d'"
proof -
  from cov obtain r where fl: "faults d = []" and t0: "t0 \<le> c"
    and r: "tbl_cron d (ce_key e) = Some r" "from_UnixMilli r \<le> c" "\<forall>a \<in> A. a \<le> c \<longrightarrow> a \<le> from_UnixMilli r"
    by (auto simp: covers_def)
  show ?thesis
  proof (cases "from_UnixMilli r < t")
    case True
    with r fl t0 show ?thesis by (auto simp: load_cron_ok covers_def)
  next
    case False
    with r(2) le have "t = c" by simp
    have "from_UnixMilli (UnixMilli t) \<le> t" by (rule from_UnixMilli_le)
    with False r fl t0 \<open>t = c\<close> ms whole_ms_le show ?thesis
      by (auto simp: load_cron_ok covers_def save_cron_ok)
  qed
qed

lemma cron_history_ok:
  assumes ms: "\<forall>a \<in> A. a mod millisecond = 0"
  shows "next_of A (ce_next e) \<Longrightarrow> covers A t0 c e d \<Longrightarrow>
    fired_ok A t0 c (ct_missed (ce_trigger e) = MissedSkip) F \<Longrightarrow>
    sorted (c # map op_time ops) \<Longrightarrow> card (late_set A t0 (op_time (last (Look c # ops)))) < maxCatchUpSteps \<Longrightarrow>
    \<exists>e' d' out c'. cron_history request_id at ops e d = Some (e', d', out) \<and>
      c \<le> c' \<and> c' \<le> op_time (last (Look c # ops)) \<and>
      fired_ok A t0 c' (ct_missed (ce_trigger e) = MissedSkip) (F @ fired_times out) \<and>
      (\<forall>t. last (Look c # ops) = Look t \<longrightarrow> c' = t)"
proof (induction ops arbitrary: e d c F)
  case Nil
  then show ?case by (auto simp: fired_times_def)
next
  case (Cons op ops)
  have late_mono: "card (late_set A t0 s) \<le> card (late_set A t0 t)" if "s \<le> t" for s t
    by (rule card_mono [OF finite_late]) (use that in \<open>auto simp: late_set_def\<close>)
  have final: "op_time op \<le> op_time (last (Look c # op # ops))"
    using Cons.prems(4) by (cases ops rule: rev_cases) auto
  show ?case
  proof (cases op)
    case (Look t)
    have le: "c \<le> t" using Cons.prems(4) Look by simp
    have few: "card (late_set A t0 t) < maxCatchUpSteps"
      using late_mono [OF final] Cons.prems(5) Look by simp
    from look_step [OF Cons.prems(1) ms Cons.prems(2,3) le few, of request_id at]
    obtain e' d' out where 1: "check_entry True request_id at t e d = Some (e', d', out)"
      "ce_trigger e' = ce_trigger e" "ce_next e' = ce_next e" "covers A t0 t e' d'"
      "fired_ok A t0 t (ct_missed (ce_trigger e) = MissedSkip) (F @ fired_times out)" by blast
    have lst: "last (Look t # ops) = last (Look c # op # ops)" using Look by simp
    have n': "next_of A (ce_next e')" using Cons.prems(1) 1(3) by simp
    have F': "fired_ok A t0 t (ct_missed (ce_trigger e') = MissedSkip) (F @ fired_times out)"
      using 1(2,5) by simp
    have srt: "sorted (t # map op_time ops)" using Cons.prems(4) Look by simp
    have few': "card (late_set A t0 (op_time (last (Look t # ops)))) < maxCatchUpSteps"
      unfolding lst by (rule Cons.prems(5))
    from Cons.IH [OF n' 1(4) F' srt few', unfolded lst] obtain e'' d'' out' c' where
      h: "cron_history request_id at ops e' d' = Some (e'', d'', out')" "t \<le> c'"
        "c' \<le> op_time (last (Look c # op # ops))"
        "fired_ok A t0 c' (ct_missed (ce_trigger e') = MissedSkip) ((F @ fired_times out) @ fired_times out')"
        "\<forall>t. last (Look c # op # ops) = Look t \<longrightarrow> c' = t" by blast
    have "cron_history request_id at (op # ops) e d = Some (e'', d'', out @ out')"
      by (simp add: Look 1(1) h(1))
    moreover have "fired_ok A t0 c' (ct_missed (ce_trigger e) = MissedSkip) (F @ fired_times (out @ out'))"
      using h(4) 1(2) by simp
    ultimately show ?thesis using le h(2,3,5) by (meson order_trans)
  next
    case (Restart t)
    have le: "c \<le> t" using Cons.prems(4) Restart by simp
    from restart_step [OF ms Cons.prems(2) le] obtain e' d' where
      1: "load_cron True t e d = (e', d')" "ce_trigger e' = ce_trigger e" "ce_next e' = ce_next e"
        "covers A t0 c e' d'" by blast
    show ?thesis
    proof (cases ops)
      case Nil
      with 1 Restart Cons.prems le show ?thesis by (auto simp: fired_times_def)
    next
      case (Cons o' ops')
      then have lst: "last (Look c # ops) = last (Look c # op # ops)" by simp
      have srt: "sorted (c # map op_time ops)" using Cons.prems(4) by simp
      from Cons.IH [of e' c d' F] Cons.prems 1 Restart lst srt show ?thesis by simp
    qed
  qed
qed

text \<open>
  C10: Take any history of looks at the clock and restarts of kickd, over a clock that does not go
  back and a database that does not fail, that begins with a first start: the looks of a cron
  trigger end, the scheduled times that fire are activation times after the first start, each
  later than the one before, so none fires twice, restarts included; and when the last operation
  is a look and \<open>missed\<close> is not \<open>skip\<close>, the latest activation time up to it has
  fired, so that no stop of kickd loses it.\<close>
theorem cron_history_fires_once:
  assumes "next_of A (ce_next e)" and "\<forall>a \<in> A. a mod millisecond = 0"
    and "tbl_cron d (ce_key e) = None" and "faults d = []"
    and "sorted (t0 # map op_time ops)" and "ops \<noteq> []"
    and "card (late_set A t0 (op_time (last ops))) < maxCatchUpSteps"
  shows "\<exists>e' d' out. cron_history request_id at (Restart t0 # ops) e d = Some (e', d', out) \<and>
    sorted_wrt (<) (fired_times out) \<and>
    set (fired_times out) \<subseteq> due_set A t0 (op_time (last ops)) \<and>
    (\<forall>t. last ops = Look t \<longrightarrow> ct_missed (ce_trigger e) \<noteq> MissedSkip \<longrightarrow> due_set A t0 t \<noteq> {} \<longrightarrow>
      Max (due_set A t0 t) \<in> set (fired_times out))"
proof -
  define e0 where "e0 = e\<lparr>ce_last := t0\<rparr>"
  define d0 where "d0 = save_cron True (ce_key e) t0 d"
  have load: "load_cron True t0 e d = (e0, d0)"
    using assms(3,4) by (simp add: load_cron_ok e0_def d0_def)
  have cov: "covers A t0 t0 e0 d0"
    using assms(2,4) whole_ms_le from_UnixMilli_le [of t0]
    by (auto simp: covers_def e0_def d0_def save_cron_ok)
  have F: "fired_ok A t0 t0 (ct_missed (ce_trigger e0) = MissedSkip) []"
    by (simp add: fired_ok_def due_set_def)
  have lst: "last (Look t0 # ops) = last ops" using assms(6) by simp
  from cron_history_ok [OF assms(2) _ cov F assms(5), of request_id at] assms(1,7)
  obtain e' d' out c' where h: "cron_history request_id at ops e0 d0 = Some (e', d', out)"
    "t0 \<le> c'" "c' \<le> op_time (last ops)"
    "fired_ok A t0 c' (ct_missed (ce_trigger e) = MissedSkip) (fired_times out)"
    "\<forall>t. last ops = Look t \<longrightarrow> c' = t"
    unfolding lst by (auto simp: e0_def)
  have "due_set A t0 c' \<subseteq> due_set A t0 (op_time (last ops))"
    using h(3) by (auto simp: due_set_def)
  with h load show ?thesis by (fastforce simp: fired_ok_def)
qed

theorem cron_history_fires_once_witness:
  "\<exists>e' d' out. cron_history ''r1'' 0 [Restart (10 * hour), Look (12 * hour + second)]
      (demo_cron MissedRun 0) empty_db = Some (e', d', out) \<and>
    12 * hour \<in> set (fired_times out)"
proof -
  let ?e = "demo_cron MissedRun 0" and ?ops = "[Look (12 * hour + second)]"
  have n: "next_of full_hours (ce_next ?e)" by (simp add: demo_cron_def hourly_next_of)
  have ms: "\<forall>a \<in> full_hours. a mod millisecond = 0"
    by (auto simp: full_hours_iff duration_defs)
  have db: "tbl_cron empty_db (ce_key ?e) = None" "faults empty_db = []"
    by (simp_all add: empty_db_def)
  have srt: "sorted (10 * hour # map op_time ?ops)" by (simp add: duration_defs)
  have few: "card (late_set full_hours (10 * hour) (op_time (last ?ops))) < maxCatchUpSteps"
    by (simp add: demo_late maxCatchUpSteps_def)
  have "Max {11 * hour, 12 * hour} = 12 * hour" by (simp add: hour_def)
  with cron_history_fires_once [OF n ms db srt _ few, of "''r1''" 0] show ?thesis
    by (auto simp: demo_due demo_cron_def)
qed

end
