(* ===== verification/FileWatch.thy ===== *)
theory FileWatch
  imports Events
begin

text \<open>
  File triggers (\<^verbatim>\<open>internal/trigger/file.go\<close>): the patterns of a watcher, the translation of a
  file system notification into changes, the scan of a directory tree, and the loop that collects
  changes for one debounce window and dispatches them as one event.

  \<open>path.Match\<close> and \<open>filepath.WalkDir\<close> are written out from their definition in the Go library, on
  bytes (a pattern character other than a byte below 128 is outside the model). The notifications,
  the clock, \<open>filepath.Rel\<close>, \<open>os.Lstat\<close>, the file tree and the result of \<open>Watcher.Add\<close> are arguments.
\<close>

definition ValidFileOps :: "string list" where
  "ValidFileOps = [''create'', ''write'', ''remove'', ''rename'', ''chmod'']"

definition DefaultFileOps :: "string list" where
  "DefaultFileOps = [''create'', ''write'', ''remove'', ''rename'']"

definition maxPendingChanges :: nat where "maxPendingChanges = 10000"

section \<open>Shell patterns\<close>

abbreviation backslash :: char where "backslash \<equiv> CHR 0x5C"
abbreviation slash :: char where "slash \<equiv> CHR ''/''"

text \<open>The first byte of a class or the end of a range; \<open>None\<close> is \<open>ErrBadPattern\<close>.\<close>

definition getEsc :: "string \<Rightarrow> (char \<times> string) option" where
  "getEsc chunk =
     (let one = (\<lambda>s. case s of [] \<Rightarrow> None | c # r \<Rightarrow> if r = [] then None else Some (c, r))
      in case chunk of
           [] \<Rightarrow> None
         | c # r \<Rightarrow> if c = CHR ''-'' \<or> c = CHR '']'' then None
                     else if c = backslash then one r else one chunk)"

lemma getEsc_shorter: "getEsc s = Some (c, r) \<Longrightarrow> length r < length s"
  by (auto simp: getEsc_def Let_def split: list.splits if_splits)

function class_ranges :: "char \<Rightarrow> string \<Rightarrow> bool \<Rightarrow> bool \<Rightarrow> (bool \<times> string) option" where
  "class_ranges r chunk matched some_range =
     (if chunk \<noteq> [] \<and> hd chunk = CHR '']'' \<and> some_range then Some (matched, tl chunk)
      else (case getEsc chunk of
              None \<Rightarrow> None
            | Some (lo, c1) \<Rightarrow>
                (if c1 \<noteq> [] \<and> hd c1 = CHR ''-''
                 then (case getEsc (tl c1) of
                         None \<Rightarrow> None
                       | Some (hi, c2) \<Rightarrow> class_ranges r c2 (matched \<or> lo \<le> r \<and> r \<le> hi) True)
                 else class_ranges r c1 (matched \<or> r = lo) True)))"
  by pat_completeness auto
termination
  by (relation "measure (\<lambda>(r, chunk, m, s). length chunk)")
     (auto dest!: getEsc_shorter simp: Suc_less_eq less_imp_le_nat
       intro: order_less_trans [of _ "length (tl x)" for x])

lemma class_ranges_shorter:
  "class_ranges r chunk m s = Some (m', rest) \<Longrightarrow> length rest < length chunk"
proof (induction r chunk m s rule: class_ranges.induct)
  case (1 r chunk matched some_range)
  show ?case
  proof (cases "chunk \<noteq> [] \<and> hd chunk = CHR '']'' \<and> some_range")
    case True
    with "1.prems" show ?thesis by (subst (asm) class_ranges.simps) (auto split: if_splits)
  next
    case False
    with "1.prems" obtain lo c1 where g: "getEsc chunk = Some (lo, c1)"
      by (subst (asm) class_ranges.simps) (auto split: option.splits)
    from getEsc_shorter [OF g] have c1: "length c1 < length chunk" .
    show ?thesis
    proof (cases "c1 \<noteq> [] \<and> hd c1 = CHR ''-''")
      case True
      with "1.prems" False g obtain hi c2 where h: "getEsc (tl c1) = Some (hi, c2)"
        by (subst (asm) class_ranges.simps) (auto split: option.splits)
      with "1.prems" False g True have "class_ranges r c2 (matched \<or> lo \<le> r \<and> r \<le> hi) True = Some (m', rest)"
        by (subst (asm) class_ranges.simps) simp
      from "1.IH"(1) [OF False g refl True h refl this] getEsc_shorter [OF h] c1 show ?thesis by simp
    next
      case F2: False
      with "1.prems" False g have "class_ranges r c1 (matched \<or> r = lo) True = Some (m', rest)"
        by (subst (asm) class_ranges.simps) (simp split: if_splits)
      from "1.IH"(2) [OF False g refl F2 this] c1 show ?thesis by simp
    qed
  qed
qed

text \<open>
  \<open>matchChunk\<close>: the rest of the name after the chunk, and whether the chunk matched at its start.
  After a mismatch the chunk is still read, so that a malformed one gives \<open>None\<close>.
\<close>

definition chunk_byte :: "char \<Rightarrow> string \<Rightarrow> bool \<Rightarrow> string \<times> bool" where
  "chunk_byte c s failed = (if failed then (s, True) else (tl s, hd s \<noteq> c))"

declare class_ranges.simps [simp del]

definition class_chunk :: "char \<Rightarrow> string \<Rightarrow> (bool \<times> string) option" where
  "class_chunk r chunk =
     (let negated = (chunk \<noteq> [] \<and> hd chunk = CHR 0x5E)
      in map_option (\<lambda>(m, rest). (m = negated, rest))
           (class_ranges r (if negated then tl chunk else chunk) False False))"

lemma class_chunk_shorter: "class_chunk r chunk = Some (m, rest) \<Longrightarrow> length rest < Suc (length chunk)"
  unfolding class_chunk_def Let_def
  by (auto dest!: class_ranges_shorter split: if_splits)

function matchChunk :: "string \<Rightarrow> string \<Rightarrow> bool \<Rightarrow> (string \<times> bool) option" where
  "matchChunk [] s failed = Some (if failed then ([], False) else (s, True))"
| "matchChunk (c # chunk) s failed =
     (let failed = (failed \<or> s = []) in
      if c = CHR ''['' then
        (case class_chunk (if failed then CHR 0x00 else hd s) chunk of
           None \<Rightarrow> None
         | Some (mismatch, rest) \<Rightarrow> matchChunk rest (if failed then s else tl s) (failed \<or> mismatch))
      else if c = CHR ''?'' then
        matchChunk chunk (if failed then s else tl s) (failed \<or> hd s = slash)
      else if c = backslash then
        (case chunk of
           [] \<Rightarrow> None
         | c' # chunk' \<Rightarrow> (case chunk_byte c' s failed of (s', f) \<Rightarrow> matchChunk chunk' s' f))
      else (case chunk_byte c s failed of (s', f) \<Rightarrow> matchChunk chunk s' f))"
  by pat_completeness auto
termination
  by (relation "measure (\<lambda>(chunk, s, f). length chunk)") (auto dest: class_chunk_shorter)

fun chunk_length :: "string \<Rightarrow> bool \<Rightarrow> nat" where
  "chunk_length [] inrange = 0"
| "chunk_length (c # s) inrange =
     (if c = backslash then (case s of [] \<Rightarrow> 1 | d # s' \<Rightarrow> 2 + chunk_length s' inrange)
      else if c = CHR ''['' then 1 + chunk_length s True
      else if c = CHR '']'' then 1 + chunk_length s False
      else if c = CHR ''*'' \<and> \<not> inrange then 0
      else 1 + chunk_length s inrange)"

definition scanChunk :: "string \<Rightarrow> bool \<times> string \<times> string" where
  "scanChunk pattern =
     (let p = dropWhile (\<lambda>c. c = CHR ''*'') pattern; n = chunk_length p False
      in (pattern \<noteq> [] \<and> hd pattern = CHR ''*'', take n p, drop n p))"

text \<open>The positions to which a star may skip, in their order; it cannot skip a slash.\<close>

fun star_match :: "string \<Rightarrow> bool \<Rightarrow> string \<Rightarrow> string option option" where
  "star_match chunk is_last [] = Some None"
| "star_match chunk is_last (c # name) =
     (if c = slash then Some None
      else (case matchChunk chunk name False of
              None \<Rightarrow> None
            | Some (t, ok) \<Rightarrow> if ok \<and> \<not> (is_last \<and> t \<noteq> []) then Some (Some t)
                              else star_match chunk is_last name))"

text \<open>\<open>path.Match\<close>; an error counts as no match, as its callers here take it.\<close>

function path_match :: "string \<Rightarrow> string \<Rightarrow> bool" where
  "path_match pattern name =
     (if pattern = [] then name = []
      else (case scanChunk pattern of (star, chunk, rest) \<Rightarrow>
        if star \<and> chunk = [] then slash \<notin> set name
        else if \<not> length rest < length pattern then False
        else (case matchChunk chunk name False of
                None \<Rightarrow> False
              | Some (t, ok) \<Rightarrow>
                  (if ok \<and> (t = [] \<or> rest \<noteq> []) then path_match rest t
                   else if star then
                     (case star_match chunk (rest = []) name of
                        Some (Some t) \<Rightarrow> path_match rest t
                      | _ \<Rightarrow> False)
                   else False))))"
  by pat_completeness auto
termination by (relation "measure (\<lambda>(p, n). length p)") auto

text \<open>The check that the scan always consumes something never decides.\<close>

lemma chunk_length_pos: "p \<noteq> [] \<Longrightarrow> hd p \<noteq> CHR ''*'' \<Longrightarrow> 0 < chunk_length p False"
  by (cases p) (auto split: list.splits)

lemma scanChunk_shorter: "pattern \<noteq> [] \<Longrightarrow> scanChunk pattern = (star, chunk, rest) \<Longrightarrow> length rest < length pattern"
proof -
  assume ne: "pattern \<noteq> []" and s: "scanChunk pattern = (star, chunk, rest)"
  define p where "p = dropWhile (\<lambda>c. c = CHR ''*'') pattern"
  have rest: "rest = drop (chunk_length p False) p" using s by (simp add: scanChunk_def Let_def p_def)
  show ?thesis
  proof (cases "hd pattern = CHR ''*''")
    case True
    with ne have "length p < length pattern"
      by (cases pattern) (auto simp: p_def intro: le_imp_less_Suc length_dropWhile_le)
    with rest show ?thesis by simp
  next
    case False
    with ne have "p = pattern" by (cases pattern) (auto simp: p_def)
    with rest ne False chunk_length_pos [of p] show ?thesis by (simp add: Suc_le_eq)
  qed
qed

declare path_match.simps [simp del]

section \<open>Which paths a watcher reports\<close>

record file_watcher =
  fw_event :: string
  fw_root :: string
  fw_recursive :: bool
  fw_include :: "string list"
  fw_exclude :: "string list"
  fw_ops :: "string list"
  fw_debounce :: duration

text \<open>What the library and the system say about paths.\<close>

datatype lstat_result = Lstat_missing | Lstat_failed | Lstat_dir | Lstat_other

text \<open>
  A tree as \<open>WalkDir\<close> meets it: each entry with its path; a directory has its entries in order, or
  cannot be listed. \<open>Fs_error\<close> is a root that cannot be inspected.
\<close>

datatype fs_tree =
    Fs_file string
  | Fs_dir string "fs_tree list"
  | Fs_unreadable string
  | Fs_error string

record fs_view =
  fv_rel :: "string \<Rightarrow> string \<Rightarrow> string option"
  fv_to_slash :: "string \<Rightarrow> string"
  fv_lstat :: "string \<Rightarrow> lstat_result"
  fv_tree :: "string \<Rightarrow> fs_tree"
  fv_add :: "string \<Rightarrow> bool"

definition rel :: "fs_view \<Rightarrow> file_watcher \<Rightarrow> string \<Rightarrow> string" where
  "rel fv w p =
     (case fv_rel fv (fw_root w) p of
        None \<Rightarrow> []
      | Some r \<Rightarrow>
          if r = ''.'' then []
          else (let r = fv_to_slash fv r
                in if r = ''..'' \<or> HasPrefix r ''../'' then [] else r))"

text \<open>\<open>path.Base\<close>\<close>

definition path_base :: "string \<Rightarrow> string" where
  "path_base p =
     (if p = [] then ''.''
      else (let q = TrimRight p slash
            in if q = [] then ''/'' else last (Split q slash)))"

fun pattern_matches :: "bool \<Rightarrow> string \<Rightarrow> string \<Rightarrow> bool" where
  "pattern_matches components r p =
     (if slash \<in> set p then path_match (TrimPrefix p ''/'') r
      else if components then list_ex (path_match p) (Split r slash)
      else path_match p (path_base r))"

definition matchAny :: "string list \<Rightarrow> string \<Rightarrow> bool \<Rightarrow> bool" where
  "matchAny patterns r components = list_ex (pattern_matches components r) patterns"

definition excluded :: "file_watcher \<Rightarrow> string \<Rightarrow> bool" where
  "excluded w r = matchAny (fw_exclude w) r True"

definition match_path :: "file_watcher \<Rightarrow> string \<Rightarrow> bool" where
  "match_path w r =
     (if r = [] \<or> excluded w r then False
      else fw_include w = [] \<or> matchAny (fw_include w) r False)"

definition opSet :: "file_watcher \<Rightarrow> string \<Rightarrow> bool" where
  "opSet w op = (op \<in> set (if fw_ops w = [] then DefaultFileOps else fw_ops w))"

text \<open>The bits of \<open>fsnotify.Op\<close> by name; a notification can have several.\<close>

record fs_event =
  fe_name :: string
  fe_create :: bool
  fe_write :: bool
  fe_remove :: bool
  fe_rename :: bool
  fe_chmod :: bool

definition opName :: "fs_event \<Rightarrow> string" where
  "opName fe =
     (if fe_create fe then ''create''
      else if fe_remove fe then ''remove''
      else if fe_rename fe then ''rename''
      else if fe_write fe then ''write''
      else if fe_chmod fe then ''chmod''
      else ''unknown'')"

section \<open>Watching a tree\<close>

text \<open>
  What a scan has done: the directories watched, the ones that could not be, and the files
  found. \<open>walk\<close> is \<open>WalkDir\<close> with the callback of \<open>addTree\<close>; its flag tells whether the callback
  returned an error, which ends the walk and happens at the root only.
\<close>

record scan =
  sc_watched :: "string list"
  sc_failed :: "string list"
  sc_files :: "string list"

definition no_scan :: scan where
  "no_scan = \<lparr>sc_watched = [], sc_failed = [], sc_files = []\<rparr>"

text \<open>The callback on a directory: \<open>Some True\<close> enters it, \<open>Some False\<close> skips it, \<open>None\<close> fails.\<close>

definition visit_dir :: "fs_view \<Rightarrow> file_watcher \<Rightarrow> string \<Rightarrow> string \<Rightarrow> scan \<Rightarrow> bool option \<times> scan" where
  "visit_dir fv w root p sc =
     (if p \<noteq> root \<and> excluded w (rel fv w p) then (Some False, sc)
      else if \<not> fv_add fv p then
        (if p = root then (None, sc) else (Some True, sc\<lparr>sc_failed := sc_failed sc @ [p]\<rparr>))
      else (Some True, sc\<lparr>sc_watched := sc_watched sc @ [p]\<rparr>))"

fun walk :: "fs_view \<Rightarrow> file_watcher \<Rightarrow> string \<Rightarrow> fs_tree \<Rightarrow> scan \<Rightarrow> bool \<times> scan"
  and walk_all :: "fs_view \<Rightarrow> file_watcher \<Rightarrow> string \<Rightarrow> fs_tree list \<Rightarrow> scan \<Rightarrow> bool \<times> scan" where
  "walk fv w root (Fs_error p) sc = (p \<noteq> root, sc)"
| "walk fv w root (Fs_file p) sc = (True, sc\<lparr>sc_files := sc_files sc @ [p]\<rparr>)"
| "walk fv w root (Fs_unreadable p) sc =
     (case visit_dir fv w root p sc of
        (None, sc) \<Rightarrow> (False, sc)
      | (Some False, sc) \<Rightarrow> (True, sc)
      | (Some True, sc) \<Rightarrow> (p \<noteq> root, sc))"
| "walk fv w root (Fs_dir p ts) sc =
     (case visit_dir fv w root p sc of
        (None, sc) \<Rightarrow> (False, sc)
      | (Some False, sc) \<Rightarrow> (True, sc)
      | (Some True, sc) \<Rightarrow> walk_all fv w root ts sc)"
| "walk_all fv w root [] sc = (True, sc)"
| "walk_all fv w root (t # ts) sc =
     (case walk fv w root t sc of
        (False, sc) \<Rightarrow> (False, sc)
      | (True, sc) \<Rightarrow> walk_all fv w root ts sc)"

text \<open>\<open>addTree\<close>: success, and what the scan did.\<close>

definition addTree :: "fs_view \<Rightarrow> file_watcher \<Rightarrow> string \<Rightarrow> bool \<times> scan" where
  "addTree fv w root =
     (if \<not> fw_recursive w then
        (if fv_add fv root then (True, no_scan\<lparr>sc_watched := [root]\<rparr>) else (False, no_scan))
      else walk fv w root (fv_tree fv root) no_scan)"

definition translate :: "fs_view \<Rightarrow> file_watcher \<Rightarrow> fs_event \<Rightarrow> file_change list" where
  "translate fv w fe =
     (let r = rel fv w (fe_name fe) in
      if r = [] then []
      else (let op = opName fe;
                out = (if opSet w op \<and> match_path w r
                       then [\<lparr>fc_path = fe_name fe, fc_op = op\<rparr>] else [])
            in if fw_recursive w \<and> fe_create fe \<and> \<not> excluded w r
                  \<and> fv_lstat fv (fe_name fe) = Lstat_dir
               then out @ map (\<lambda>p. \<lparr>fc_path = p, fc_op = ''create''\<rparr>)
                      (filter (\<lambda>p. opSet w ''create'' \<and> match_path w (rel fv w p))
                        (sc_files (snd (addTree fv w (fe_name fe)))))
               else out))"

section \<open>The loop\<close>

record limiter =
  li_every :: duration
  li_last :: gotime
  li_suppressed :: int

definition allow :: "gotime \<Rightarrow> limiter \<Rightarrow> (int \<times> bool) \<times> limiter" where
  "allow now l =
     (if \<not> IsZero (li_last l) \<and> now - li_last l < li_every l
      then ((0, False), l\<lparr>li_suppressed := li_suppressed l + 1\<rparr>)
      else ((li_suppressed l, True), l\<lparr>li_suppressed := 0, li_last := now\<rparr>))"

text \<open>\<open>fl_timer\<close> tells whether the debounce timer is set; \<open>fl_seen\<close> holds the keys of the changes.\<close>

record file_loop =
  fl_pending :: "file_change list"
  fl_seen :: "string list"
  fl_dropped :: nat
  fl_timer :: bool
  fl_errs :: limiter

definition file_loop_start :: file_loop where
  "file_loop_start = \<lparr>fl_pending = [], fl_seen = [], fl_dropped = 0, fl_timer = False,
     fl_errs = \<lparr>li_every = minute, li_last = zero_time, li_suppressed = 0\<rparr>\<rparr>"

datatype file_out = Files_dropped nat | Files_fired event | File_watch_error int

definition change_key :: "file_change \<Rightarrow> string" where
  "change_key c = fc_op c @ CHR 0x00 # fc_path c"

definition collect :: "file_change \<Rightarrow> file_loop \<Rightarrow> file_loop" where
  "collect c s =
     (if change_key c \<in> set (fl_seen s) then s
      else if length (fl_pending s) \<ge> maxPendingChanges then s\<lparr>fl_dropped := fl_dropped s + 1\<rparr>
      else s\<lparr>fl_seen := change_key c # fl_seen s, fl_pending := fl_pending s @ [c]\<rparr>)"

definition file_event :: "string \<Rightarrow> gotime \<Rightarrow> file_watcher \<Rightarrow> file_change list \<Rightarrow> event" where
  "file_event request_id at w files =
     zero_event\<lparr>ev_request_id := request_id, ev_name := fw_event w, ev_trigger := KindFile,
       ev_trigger_id := ''file:'' @ fw_root w, ev_time := at, ev_files := files\<rparr>"

definition flush_files :: "string \<Rightarrow> gotime \<Rightarrow> file_watcher \<Rightarrow> file_loop \<Rightarrow> file_loop \<times> file_out list" where
  "flush_files request_id at w s =
     (let warn = (if fl_dropped s > 0 then [Files_dropped (fl_dropped s)] else []);
          s = s\<lparr>fl_dropped := 0\<rparr>
      in if fl_pending s = [] then (s, warn)
         else (s\<lparr>fl_pending := [], fl_seen := []\<rparr>,
               warn @ [Files_fired (file_event request_id at w (fl_pending s))]))"

datatype file_input = Notified fs_event | Timer_fired | Watch_error

text \<open>One turn of the \<open>select\<close>; \<open>at\<close> is the reading of the clock in it.\<close>

fun file_turn :: "fs_view \<Rightarrow> string \<Rightarrow> gotime \<Rightarrow> file_watcher \<Rightarrow> file_input \<Rightarrow> file_loop
    \<Rightarrow> file_loop \<times> file_out list" where
  "file_turn fv request_id at w (Notified fe) s =
     (let changes = translate fv w fe in
      if changes = [] then (s, [])
      else (let s = fold collect changes s in
            if fw_debounce w \<le> 0 then flush_files request_id at w s
            else (s\<lparr>fl_timer := True\<rparr>, [])))"
| "file_turn fv request_id at w Timer_fired s =
     (if fl_timer s then flush_files request_id at w (s\<lparr>fl_timer := False\<rparr>) else (s, []))"
| "file_turn fv request_id at w Watch_error s =
     (case allow at (fl_errs s) of
        ((n, ok), l) \<Rightarrow> (s\<lparr>fl_errs := l\<rparr>, if ok then [File_watch_error n] else []))"

end
