(* ===== verification/FileProps.thy ===== *)
theory FileProps
  imports FileWatch
begin

text \<open>
  What a file trigger promises: the patterns \<open>literal\<close> and \<open>*suffix\<close> mean what the documentation
  says, only paths that the patterns admit are reported, and the loop collects every change of a
  debounce window once.
\<close>

section \<open>Patterns\<close>

definition plain :: "string \<Rightarrow> bool" where
  "plain p \<longleftrightarrow> (\<forall>c \<in> set p. c \<noteq> CHR ''*'' \<and> c \<noteq> CHR ''?'' \<and> c \<noteq> CHR ''['' \<and> c \<noteq> CHR '']'' \<and> c \<noteq> backslash)"

lemma plain_Cons [simp]: "plain (c # p) \<longleftrightarrow>
    c \<noteq> CHR ''*'' \<and> c \<noteq> CHR ''?'' \<and> c \<noteq> CHR ''['' \<and> c \<noteq> CHR '']'' \<and> c \<noteq> backslash \<and> plain p"
  by (auto simp: plain_def)

lemma chunk_length_plain: "plain p \<Longrightarrow> chunk_length p False = length p"
  by (induction p) auto

lemma scanChunk_plain: "plain p \<Longrightarrow> p \<noteq> [] \<Longrightarrow> scanChunk p = (False, p, [])"
  by (cases p) (auto simp: scanChunk_def Let_def chunk_length_plain)

lemma scanChunk_star: "plain p \<Longrightarrow> scanChunk (CHR ''*'' # p) = (True, p, [])"
proof -
  assume p: "plain p"
  then have "dropWhile (\<lambda>c. c = CHR ''*'') p = p" by (cases p) auto
  with p show ?thesis by (simp add: scanChunk_def Let_def chunk_length_plain)
qed

lemma matchChunk_failed: "plain p \<Longrightarrow> matchChunk p s True = Some ([], False)"
  by (induction p arbitrary: s) (auto simp: chunk_byte_def)

lemma matchChunk_plain:
  "plain p \<Longrightarrow> matchChunk p s False = Some (if HasPrefix s p then (drop (length p) s, True) else ([], False))"
proof (induction p arbitrary: s)
  case Nil
  then show ?case by (simp add: HasPrefix_def)
next
  case (Cons c p)
  show ?case
  proof (cases s)
    case Nil
    with Cons show ?thesis by (simp add: HasPrefix_def chunk_byte_def matchChunk_failed)
  next
    case (Cons d s')
    with Cons.prems Cons.IH [of s'] show ?thesis
      by (cases "c = d") (auto simp: HasPrefix_def chunk_byte_def matchChunk_failed)
  qed
qed

lemma path_match_plain: "plain p \<Longrightarrow> path_match p name \<longleftrightarrow> name = p"
proof (cases "p = []")
  case True
  then show ?thesis by (simp add: path_match.simps)
next
  case False
  assume p: "plain p"
  with False show ?thesis
    by (subst path_match.simps)
       (auto simp: scanChunk_plain matchChunk_plain HasPrefix_def path_match.simps [of "[]"])
qed

lemma star_match_plain:
  assumes "plain p"
  shows "star_match p True name =
    (if \<exists>a b. name = a @ b \<and> a \<noteq> [] \<and> slash \<notin> set a \<and> b = p then Some (Some []) else Some None)"
proof (induction name)
  case (Cons c name)
  show ?case
  proof (cases "c = slash")
    case True
    then show ?thesis by (auto simp: Cons_eq_append_conv)
  next
    case c: False
    show ?thesis
    proof (cases "name = p")
      case True
      have "\<exists>a b. c # name = a @ b \<and> a \<noteq> [] \<and> slash \<notin> set a \<and> b = p"
        using c True by (intro exI [of _ "[c]"] exI [of _ p]) simp
      with c True assms show ?thesis by (simp add: matchChunk_plain HasPrefix_def)
    next
      case False
      have no: "\<not> (HasPrefix name p \<and> drop (length p) name = [])"
        using False by (auto simp: HasPrefix_def)
      have "(\<exists>a b. c # name = a @ b \<and> a \<noteq> [] \<and> slash \<notin> set a \<and> b = p)
        = (\<exists>a b. name = a @ b \<and> a \<noteq> [] \<and> slash \<notin> set a \<and> b = p)" (is "?L = ?R")
      proof
        assume ?L
        then obtain a where a: "c # name = a @ p" "a \<noteq> []" "slash \<notin> set a" by auto
        then obtain a' where "a = c # a'" by (cases a) auto
        with a False show ?R by (intro exI [of _ a'] exI [of _ p]) auto
      next
        assume ?R
        then obtain a where "name = a @ p" "slash \<notin> set a" by auto
        with c show ?L by (intro exI [of _ "c # a"] exI [of _ p]) auto
      qed
      with c no assms Cons.IH show ?thesis by (auto simp: matchChunk_plain)
    qed
  qed
qed simp

lemma path_match_suffix:
  assumes "plain p"
  shows "path_match (CHR ''*'' # p) name \<longleftrightarrow> (\<exists>a. name = a @ p \<and> slash \<notin> set a)"
proof (cases "p = []")
  case True
  then show ?thesis by (subst path_match.simps) (simp add: scanChunk_star plain_def)
next
  case False
  show ?thesis
  proof (cases "name = p")
    case True
    with assms show ?thesis
      by (subst path_match.simps) (simp add: scanChunk_star matchChunk_plain HasPrefix_def path_match.simps [of "[]"])
  next
    case ne: False
    have no: "\<not> (HasPrefix name p \<and> drop (length p) name = [])"
      using ne by (auto simp: HasPrefix_def)
    have "(\<exists>a b. name = a @ b \<and> a \<noteq> [] \<and> slash \<notin> set a \<and> b = p) \<longleftrightarrow> (\<exists>a. name = a @ p \<and> slash \<notin> set a)"
      using ne by auto
    with no False assms show ?thesis
      by (subst path_match.simps)
         (auto simp: scanChunk_star matchChunk_plain star_match_plain path_match.simps [of "[]"])
  qed
qed

text \<open>
  For a pattern \<open>p\<close> without special characters: without a slash it excludes exactly the paths with
  a component \<open>p\<close> and includes exactly those with the base name \<open>p\<close>, and \<open>*p\<close>
  includes the base names that end in \<open>p\<close>; with a slash it matches the whole relative path, its
  leading slash left out.\<close>
theorem pattern_meaning:
  assumes "plain p"
  shows "if slash \<in> set p then matchAny [p] r components = (r = TrimPrefix p ''/'')
    else matchAny [p] r True = (p \<in> set (Split r slash)) \<and> matchAny [p] r False = (path_base r = p) \<and>
      matchAny [CHR ''*'' # p] r False = (\<exists>a. path_base r = a @ p \<and> slash \<notin> set a)"
proof -
  have t: "plain (TrimPrefix p ''/'')"
    using assms by (auto simp: plain_def TrimPrefix_def dest: in_set_dropD)
  show ?thesis
    using path_match_plain [OF assms] path_match_plain [OF t] path_match_suffix [OF assms]
    by (auto simp: matchAny_def list_ex_iff)
qed

theorem pattern_meaning_witness:
  "matchAny [''node_modules''] ''web/node_modules/x.js'' True = True \<and>
   matchAny [''*.go''] ''internal/config.go'' False = True"
proof -
  have n: "plain ''node_modules''" "slash \<notin> set ''node_modules''" by (simp_all add: plain_def)
  have g: "plain ''.go''" "slash \<notin> set ''.go''" by (simp_all add: plain_def)
  have "path_base ''internal/config.go'' = ''config'' @ ''.go'' \<and> slash \<notin> set ''config''"
    by (simp add: path_base_def TrimRight_def)
  then have "\<exists>a. path_base ''internal/config.go'' = a @ ''.go'' \<and> slash \<notin> set a" by blast
  with pattern_meaning [OF n(1), of "''web/node_modules/x.js''"] n(2)
    pattern_meaning [OF g(1), of "''internal/config.go''"] g(2)
  show ?thesis by simp
qed

section \<open>What is reported and watched\<close>

definition dir_ok :: "fs_view \<Rightarrow> file_watcher \<Rightarrow> string \<Rightarrow> string \<Rightarrow> bool" where
  "dir_ok fv w root p \<longleftrightarrow> p = root \<or> \<not> excluded w (rel fv w p)"

lemma visit_dir_ok:
  "visit_dir fv w root p sc = (r, sc') \<Longrightarrow> list_all (dir_ok fv w root) (sc_watched sc) \<Longrightarrow>
    list_all (dir_ok fv w root) (sc_watched sc')"
  by (auto simp: visit_dir_def dir_ok_def split: if_splits)

lemma walk_ok:
  "list_all (dir_ok fv w root) (sc_watched sc) \<Longrightarrow>
    list_all (dir_ok fv w root) (sc_watched (snd (walk fv w root t sc)))"
  "list_all (dir_ok fv w root) (sc_watched sc) \<Longrightarrow>
    list_all (dir_ok fv w root) (sc_watched (snd (walk_all fv w root ts sc)))"
proof (induction fv w root t sc and fv w root ts sc rule: walk_walk_all.induct)
  case (3 fv w root p sc)
  then show ?case by (auto split: prod.splits option.splits bool.splits dest: visit_dir_ok)
next
  case (4 fv w root p ts sc)
  obtain r sc' where v: "visit_dir fv w root p sc = (r, sc')" by (cases "visit_dir fv w root p sc")
  have ok: "list_all (dir_ok fv w root) (sc_watched sc')" by (rule visit_dir_ok [OF v 4(2)])
  show ?case
  proof (cases "r = Some True")
    case True
    from 4(1) [OF v [symmetric] True refl ok] v True show ?thesis by simp
  next
    case False
    with v ok show ?thesis by (auto split: option.splits bool.splits)
  qed
next
  case (6 fv w root t ts sc)
  then show ?case by (auto split: prod.splits bool.splits)
qed auto

text \<open>
  Every change that a notification becomes is of an operation that the trigger subscribes to and
  has a path below the watched directory that no exclude pattern and, if there are any, some include
  pattern matches; this holds for the files found in a new directory too. A scan watches only
  directories that are not excluded, the root aside, and a trigger that is not recursive watches the
  root only.\<close>
theorem file_reports:
  "list_all (\<lambda>c. opSet w (fc_op c) \<and> rel fv w (fc_path c) \<noteq> [] \<and> \<not> excluded w (rel fv w (fc_path c)) \<and>
      (fw_include w = [] \<or> matchAny (fw_include w) (rel fv w (fc_path c)) False)) (translate fv w fe) \<and>
   list_all (\<lambda>p. p = root \<or> (fw_recursive w \<and> \<not> excluded w (rel fv w p))) (sc_watched (snd (addTree fv w root)))"
proof
  show "list_all (\<lambda>c. opSet w (fc_op c) \<and> rel fv w (fc_path c) \<noteq> [] \<and> \<not> excluded w (rel fv w (fc_path c)) \<and>
      (fw_include w = [] \<or> matchAny (fw_include w) (rel fv w (fc_path c)) False)) (translate fv w fe)"
    by (auto simp: translate_def Let_def match_path_def list_all_iff split: if_splits)
  have "list_all (dir_ok fv w root) (sc_watched (snd (walk fv w root (fv_tree fv root) no_scan)))"
    by (rule walk_ok(1)) (simp add: no_scan_def)
  then show "list_all (\<lambda>p. p = root \<or> (fw_recursive w \<and> \<not> excluded w (rel fv w p)))
      (sc_watched (snd (addTree fv w root)))"
    by (auto simp: addTree_def dir_ok_def no_scan_def list_all_iff)
qed

section \<open>A debounce window\<close>

fun fired_files :: "file_out \<Rightarrow> file_change list" where
  "fired_files (Files_fired ev) = ev_files ev"
| "fired_files _ = []"

fun out_dropped :: "file_out \<Rightarrow> nat" where
  "out_dropped (Files_dropped n) = n"
| "out_dropped _ = 0"

fun file_run :: "fs_view \<Rightarrow> file_watcher \<Rightarrow> (string \<times> gotime \<times> file_input) list \<Rightarrow> file_loop
    \<Rightarrow> file_loop \<times> file_out list" where
  "file_run fv w [] s = (s, [])"
| "file_run fv w ((request_id, at, i) # is) s =
     (case file_turn fv request_id at w i s of (s', out) \<Rightarrow>
      case file_run fv w is s' of (s'', out') \<Rightarrow> (s'', out @ out'))"

fun changes_of :: "fs_view \<Rightarrow> file_watcher \<Rightarrow> file_input \<Rightarrow> file_change list" where
  "changes_of fv w (Notified fe) = translate fv w fe"
| "changes_of fv w _ = []"

text \<open>The operations that are subscribed to have no zero byte, so two changes share no key.\<close>

lemma opName_no_nul: "CHR 0x00 \<notin> set (opName fe)"
  by (simp add: opName_def)

lemma append_nul_inj: "a @ CHR 0x00 # b = a' @ CHR 0x00 # b' \<Longrightarrow> CHR 0x00 \<notin> set a \<Longrightarrow> CHR 0x00 \<notin> set a' \<Longrightarrow> a = a' \<and> b = b'"
proof (induction a arbitrary: a')
  case Nil
  then show ?case by (cases a') auto
next
  case (Cons x a)
  then show ?case by (cases a') auto
qed

definition clean_op :: "file_change \<Rightarrow> bool" where
  "clean_op c \<longleftrightarrow> CHR 0x00 \<notin> set (fc_op c)"

lemma change_key_inj: "clean_op c \<Longrightarrow> clean_op c' \<Longrightarrow> change_key c = change_key c' \<Longrightarrow> c = c'"
  by (auto simp: change_key_def clean_op_def dest!: append_nul_inj)

lemma translate_clean: "c \<in> set (translate fv w fe) \<Longrightarrow> clean_op c"
  using opName_no_nul [of fe] by (auto simp: translate_def Let_def clean_op_def split: if_splits)

definition window_ok :: "file_loop \<Rightarrow> bool" where
  "window_ok s \<longleftrightarrow> distinct (fl_pending s) \<and> length (fl_pending s) \<le> maxPendingChanges \<and>
     list_all clean_op (fl_pending s) \<and> set (fl_seen s) = change_key ` set (fl_pending s)"

definition loop_ok :: "file_watcher \<Rightarrow> file_loop \<Rightarrow> bool" where
  "loop_ok w s \<longleftrightarrow> window_ok s \<and> (fl_pending s \<noteq> [] \<longrightarrow> fl_timer s \<and> fw_debounce w > 0)"

lemma seen_iff: "window_ok s \<Longrightarrow> clean_op c \<Longrightarrow> change_key c \<in> set (fl_seen s) \<longleftrightarrow> c \<in> set (fl_pending s)"
  using change_key_inj by (auto simp: window_ok_def list_all_iff image_iff)

lemma collect_window:
  assumes s: "window_ok s" and c: "clean_op c"
  shows "window_ok (collect c s) \<and> set (fl_pending s) \<subseteq> set (fl_pending (collect c s)) \<and>
    set (fl_pending (collect c s)) \<subseteq> insert c (set (fl_pending s)) \<and>
    fl_dropped (collect c s) = fl_dropped s + (if c \<in> set (fl_pending (collect c s)) then 0 else 1)"
  using s c seen_iff [OF s c]
  by (auto simp: collect_def window_ok_def)

lemma collect_all_window:
  "window_ok s \<Longrightarrow> list_all clean_op cs \<Longrightarrow>
    window_ok (fold collect cs s) \<and> set (fl_pending s) \<subseteq> set (fl_pending (fold collect cs s)) \<and>
    set (fl_pending (fold collect cs s)) \<subseteq> set cs \<union> set (fl_pending s) \<and>
    fl_dropped s + length (filter (\<lambda>c. c \<notin> set (fl_pending (fold collect cs s))) cs)
      \<le> fl_dropped (fold collect cs s)"
proof (induction cs arbitrary: s)
  case (Cons c cs)
  then have c: "clean_op c" by simp
  note 1 = collect_window [OF Cons.prems(1) c]
  from Cons.IH [of "collect c s"] 1 Cons.prems(2) have 2:
    "window_ok (fold collect cs (collect c s))"
    "set (fl_pending (collect c s)) \<subseteq> set (fl_pending (fold collect cs (collect c s)))"
    "set (fl_pending (fold collect cs (collect c s))) \<subseteq> set cs \<union> set (fl_pending (collect c s))"
    "fl_dropped (collect c s) + length (filter (\<lambda>c'. c' \<notin> set (fl_pending (fold collect cs (collect c s)))) cs)
      \<le> fl_dropped (fold collect cs (collect c s))" by simp_all
  from 1 2 show ?case by (auto split: if_splits)
qed simp

definition fired_fine :: "file_out \<Rightarrow> bool" where
  "fired_fine fo \<longleftrightarrow> (case fo of Files_fired ev \<Rightarrow> ev_files ev \<noteq> [] \<and> distinct (ev_files ev) \<and>
      length (ev_files ev) \<le> maxPendingChanges | _ \<Rightarrow> True)"

text \<open>A flush: everything pending is in the one event, and the count of the dropped is reported.\<close>

lemma flush_ok:
  assumes "window_ok s" and f: "flush_files request_id at w s = (s', out)"
  shows "window_ok s' \<and> fl_pending s' = [] \<and> concat (map fired_files out) = fl_pending s \<and>
    sum_list (map out_dropped out) + fl_dropped s' = fl_dropped s \<and>
    list_all fired_fine out"
  using assms by (auto simp: fired_fine_def flush_files_def Let_def window_ok_def file_event_def split: if_splits)

text \<open>\<open>accounts s C out s'\<close>: the changes \<open>C\<close> are fired, pending or counted as dropped.\<close>

definition kept :: "file_out list \<Rightarrow> file_loop \<Rightarrow> file_change set" where
  "kept out s = set (concat (map fired_files out)) \<union> set (fl_pending s)"

definition accounts :: "file_loop \<Rightarrow> file_change list \<Rightarrow> file_out list \<Rightarrow> file_loop \<Rightarrow> bool" where
  "accounts s C out s' \<longleftrightarrow>
     set (fl_pending s) \<subseteq> kept out s' \<and> kept out s' \<subseteq> set C \<union> set (fl_pending s) \<and>
     fl_dropped s + length (filter (\<lambda>c. c \<notin> kept out s') C)
       \<le> sum_list (map out_dropped out) + fl_dropped s'"

lemma accounts_Nil: "accounts s [] [] s"
  by (simp add: accounts_def kept_def)

lemma length_filter_mono: "(\<And>x. P x \<Longrightarrow> Q x) \<Longrightarrow> length (filter P xs) \<le> length (filter Q xs)"
  by (induction xs) auto

lemma accounts_append:
  assumes 1: "accounts s C out s'" and 2: "accounts s' C' out' s''"
  shows "accounts s (C @ C') (out @ out') s''"
proof -
  have K: "kept out s' \<subseteq> kept (out @ out') s''" "kept out' s'' \<subseteq> kept (out @ out') s''"
    using 2 by (auto simp: accounts_def kept_def)
  have "length (filter (\<lambda>c. c \<notin> kept (out @ out') s'') C) \<le> length (filter (\<lambda>c. c \<notin> kept out s') C)"
    "length (filter (\<lambda>c. c \<notin> kept (out @ out') s'') C') \<le> length (filter (\<lambda>c. c \<notin> kept out' s'') C')"
    using K by (auto intro!: length_filter_mono)
  moreover have "kept (out @ out') s'' \<subseteq> set (C @ C') \<union> set (fl_pending s)"
  proof -
    have "kept (out @ out') s'' \<subseteq> kept out s' \<union> kept out' s''" "set (fl_pending s') \<subseteq> kept out s'"
      by (auto simp: kept_def)
    moreover have "kept out s' \<subseteq> set C \<union> set (fl_pending s)" "kept out' s'' \<subseteq> set C' \<union> set (fl_pending s')"
      using 1 2 by (simp_all add: accounts_def)
    ultimately show ?thesis by (simp add: set_append) blast
  qed
  moreover have "set (fl_pending s) \<subseteq> kept (out @ out') s''"
    using 1 K by (auto simp: accounts_def)
  ultimately show ?thesis using 1 2 by (simp add: accounts_def)
qed

lemma accounts_collect:
  assumes "window_ok s" "list_all clean_op C"
  shows "accounts s C [] (fold collect C s)"
  using collect_all_window [OF assms] by (simp add: accounts_def kept_def)

lemma accounts_flush:
  "window_ok s \<Longrightarrow> flush_files request_id at w s = (s', out) \<Longrightarrow> accounts s [] out s'"
  using flush_ok [of s request_id at w s' out] by (simp add: accounts_def kept_def)

lemma window_ok_timer [simp]: "window_ok (s\<lparr>fl_timer := b\<rparr>) = window_ok s"
  by (simp add: window_ok_def)

lemma accounts_timer [simp]:
  "accounts (s\<lparr>fl_timer := b\<rparr>) C out s' = accounts s C out s'"
  "accounts s C out (s'\<lparr>fl_timer := b\<rparr>) = accounts s C out s'"
  by (simp_all add: accounts_def kept_def)

lemma translate_all_clean: "list_all clean_op (translate fv w fe)"
  by (simp add: list_all_iff translate_clean)

lemma flush_loop_ok:
  "window_ok s \<Longrightarrow> flush_files request_id at w s = (s', out) \<Longrightarrow> loop_ok w s' \<and> list_all fired_fine out"
  using flush_ok [of s request_id at w s' out] by (simp add: loop_ok_def)

lemma notified_ok:
  assumes s: "loop_ok w s" and t: "file_turn fv request_id at w (Notified fe) s = (s', out)"
  shows "loop_ok w s' \<and> list_all fired_fine out \<and> accounts s (translate fv w fe) out s'"
proof (cases "translate fv w fe = []")
  case True
  with s t show ?thesis by (simp add: accounts_Nil)
next
  case False
  define s1 where "s1 = fold collect (translate fv w fe) s"
  have w1: "window_ok s1" and a1: "accounts s (translate fv w fe) [] s1"
    using s collect_all_window [OF _ translate_all_clean] accounts_collect [OF _ translate_all_clean]
    by (auto simp: s1_def loop_ok_def)
  show ?thesis
  proof (cases "fw_debounce w \<le> 0")
    case True
    with t False have f: "flush_files request_id at w s1 = (s', out)" by (simp add: Let_def s1_def)
    from accounts_append [OF a1 accounts_flush [OF w1 f]] flush_loop_ok [OF w1 f] show ?thesis by simp
  next
    case F: False
    with t False have "s' = s1\<lparr>fl_timer := True\<rparr>" "out = []" by (auto simp: Let_def s1_def)
    with w1 a1 F show ?thesis by (simp add: loop_ok_def)
  qed
qed

lemma turn_ok:
  assumes s: "loop_ok w s" and t: "file_turn fv request_id at w i s = (s', out)"
  shows "loop_ok w s' \<and> list_all fired_fine out \<and> accounts s (changes_of fv w i) out s'"
proof (cases i)
  case (Notified fe)
  with notified_ok [OF s] t show ?thesis by simp
next
  case Timer_fired
  show ?thesis
  proof (cases "fl_timer s")
    case True
    with t Timer_fired have f: "flush_files request_id at w (s\<lparr>fl_timer := False\<rparr>) = (s', out)" by simp
    have w: "window_ok (s\<lparr>fl_timer := False\<rparr>)" using s by (simp add: loop_ok_def)
    from flush_loop_ok [OF w f] accounts_flush [OF w f] Timer_fired show ?thesis by simp
  next
    case False
    with s t Timer_fired show ?thesis by (simp add: accounts_Nil)
  qed
next
  case Watch_error
  with s t show ?thesis
    by (auto simp: loop_ok_def window_ok_def accounts_def kept_def fired_fine_def split: prod.splits if_splits)
qed

lemma file_run_ok:
  "loop_ok w s \<Longrightarrow> file_run fv w is s = (s', out) \<Longrightarrow>
    loop_ok w s' \<and> list_all fired_fine out \<and>
    accounts s (concat (map (\<lambda>(r, at, i). changes_of fv w i) is)) out s'"
proof (induction "is" arbitrary: s out)
  case Nil
  then show ?case by (auto simp: accounts_Nil)
next
  case (Cons x "is")
  obtain r at i where x: "x = (r, at, i)" by (cases x)
  obtain s1 out1 where t: "file_turn fv r at w i s = (s1, out1)" by (cases "file_turn fv r at w i s")
  obtain out2 where 2: "file_run fv w is s1 = (s', out2)" and out: "out = out1 @ out2"
    using Cons.prems(2) by (auto simp: x t split: prod.splits)
  from turn_ok [OF Cons.prems(1) t] Cons.IH [OF _ 2] show ?case
    by (auto simp: x out intro: accounts_append)
qed


definition demo_view :: fs_view where
  "demo_view = \<lparr>fv_rel = (\<lambda>root p. Some (drop (length root + 1) p)), fv_to_slash = id,
     fv_lstat = (\<lambda>p. Lstat_other), fv_tree = Fs_file, fv_add = (\<lambda>p. True)\<rparr>"

definition demo_watcher :: file_watcher where
  "demo_watcher = \<lparr>fw_event = ''build'', fw_root = ''/w'', fw_recursive = False, fw_include = [],
     fw_exclude = [], fw_ops = [], fw_debounce = second\<rparr>"

definition demo_write :: fs_event where
  "demo_write = \<lparr>fe_name = ''/w/a'', fe_create = False, fe_write = True, fe_remove = False,
     fe_rename = False, fe_chmod = False\<rparr>"

lemma demo_translate: "translate demo_view demo_watcher demo_write = [\<lparr>fc_path = ''/w/a'', fc_op = ''write''\<rparr>]"
  by (simp add: translate_def demo_view_def demo_watcher_def demo_write_def rel_def HasPrefix_def
      opName_def opSet_def DefaultFileOps_def match_path_def excluded_def matchAny_def)


end
