(* ===== verification/Webhook.thy ===== *)
theory Webhook
  imports Dispatcher
begin

text \<open>
  Webhook triggers (\<^verbatim>\<open>internal/trigger/webhook.go\<close>): the routes of the server, the decisions that
  the handler of a route takes about a request in their order, the authentication by token and by
  signature, the event that an accepted request becomes, and the answer.

  A request is what the HTTP library hands over: header names in their canonical form, query values
  decoded, the body with a flag for a failed read. The HMAC-SHA256 of the library is the argument
  \<open>mac\<close> (secret, body), its hexadecimal text included; the multiplexer that finds the route of a path
  is left out. An answer whose status is \<open>None\<close> is one that the handler never wrote: the library
  then sends 200 with an empty body.
\<close>

definition DefaultMaxBody :: int where "DefaultMaxBody = 1048576"

abbreviation RequestIDHeader :: string where "RequestIDHeader \<equiv> ''X-Request-Id''"

definition statusClientGone :: int where "statusClientGone = 499"

section \<open>Requests, routes and the server\<close>

type_synonym multimap = "(string \<times> string list) list"

record request =
  rq_method :: string
  rq_path :: string
  rq_remote_addr :: string
  rq_headers :: "multimap"
  rq_query :: "multimap"
  rq_body :: string
  rq_body_fails :: bool

text \<open>\<open>Header.Get\<close> and \<open>Values.Get\<close>: the first value or the empty string.\<close>

definition get_value :: "multimap \<Rightarrow> string \<Rightarrow> string" where
  "get_value vs k = (case map_of vs k of Some (v # _) \<Rightarrow> v | _ \<Rightarrow> [])"

record webhook_route =
  wr_event :: string
  wr_path :: string
  wr_methods :: "string list"
  wr_token :: string
  wr_secret :: string
  wr_wait :: bool
  wr_params :: "string list"
  wr_required :: "string list"

record webhook_server =
  ws_addr :: string
  ws_max_body :: int
  ws_routes :: "webhook_route list"

definition NewWebhookServer :: "string \<Rightarrow> int \<Rightarrow> webhook_server" where
  "NewWebhookServer addr maxBody =
     \<lparr>ws_addr = addr, ws_max_body = (if maxBody \<le> 0 then DefaultMaxBody else maxBody), ws_routes = []\<rparr>"

definition Register :: "webhook_route \<Rightarrow> webhook_server \<Rightarrow> string option \<times> webhook_server" where
  "Register r s =
     (if wr_path r \<in> wr_path ` set (ws_routes s)
      then (Some (''webhook path '' @ json_string (wr_path r) @ '' is registered twice''), s)
      else (None, s\<lparr>ws_routes := ws_routes s @ [r]\<rparr>))"

definition id_char :: "char \<Rightarrow> bool" where
  "id_char c \<longleftrightarrow> is_letter c \<or> is_digit c \<or> c = CHR ''-'' \<or> c = CHR ''_'' \<or> c = CHR ''.'' \<or> c = CHR '':''"

definition requestIDFrom :: "string \<Rightarrow> string \<Rightarrow> string" where
  "requestIDFrom new_id h =
     (if h = [] \<or> length h > 128 then new_id
      else if list_all id_char h then h else new_id)"

section \<open>Authentication\<close>

definition checkToken :: "request \<Rightarrow> string \<Rightarrow> string" where
  "checkToken req token =
     (let a = get_value (rq_headers req) ''Authorization'';
          got = (if HasPrefix a ''Bearer '' then TrimPrefix a ''Bearer '' else []);
          got = (if got = [] then get_value (rq_headers req) ''X-Kickd-Token'' else got);
          got = (if got = [] then get_value (rq_query req) ''token'' else got)
      in if got = [] then ''token_missing''
         else if got \<noteq> token then ''token_mismatch''
         else [])"

definition checkSignature :: "(string \<Rightarrow> string \<Rightarrow> string) \<Rightarrow> request \<Rightarrow> string \<Rightarrow> string \<Rightarrow> string \<times> string" where
  "checkSignature mac req body secret =
     (let header = ''X-Hub-Signature-256''; sig = get_value (rq_headers req) header;
          (header, sig) = (if sig = [] then (''X-Kickd-Signature'', get_value (rq_headers req) ''X-Kickd-Signature'')
                           else (header, sig))
      in if sig = [] then (''signature_missing'', [])
         else if ToLower (TrimPrefix sig ''sha256='') \<noteq> mac secret body then (''signature_mismatch'', header)
         else ([], header))"

definition Signature :: "(string \<Rightarrow> string \<Rightarrow> string) \<Rightarrow> string \<Rightarrow> string \<Rightarrow> string" where
  "Signature mac body secret = ''sha256='' @ mac secret body"

section \<open>The event of a request\<close>

definition flatten :: "multimap \<Rightarrow> string list \<Rightarrow> strmap" where
  "flatten vs drops =
     concat (map (\<lambda>(k, v). if list_ex (EqualFold k) drops then []
                            else (case v of [] \<Rightarrow> [] | x # _ \<Rightarrow> [(k, x)])) vs)"

definition query_data :: "webhook_route \<Rightarrow> request \<Rightarrow> strmap" where
  "query_data r req =
     fold (\<lambda>name data. let v = get_value (rq_query req) name
                        in if v \<noteq> [] then AList.update name v data else data) (wr_params r) []"

definition webhook_event :: "string \<Rightarrow> gotime \<Rightarrow> webhook_route \<Rightarrow> request \<Rightarrow> string \<Rightarrow> event" where
  "webhook_event request_id at r req body =
     zero_event\<lparr>ev_request_id := request_id, ev_name := wr_event r, ev_data := Some (query_data r req),
       ev_trigger := KindWebhook, ev_trigger_id := ''webhook:'' @ wr_path r, ev_time := at,
       ev_webhook := Some \<lparr>wh_method = rq_method req, wh_path = rq_path req,
         wh_remote_addr = rq_remote_addr req,
         wh_headers = flatten (rq_headers req) [''Authorization'', ''X-Kickd-Token''],
         wh_query = flatten (rq_query req) [''token''], wh_body = body\<rparr>\<rparr>"

section \<open>Decisions and answers\<close>

datatype json_value = J_str string | J_int int | J_bool bool

record http_answer =
  ha_status :: "int option"
  ha_body :: "(string \<times> json_value) list"
  ha_gone :: bool

definition writeJSON :: "int \<Rightarrow> (string \<times> json_value) list \<Rightarrow> http_answer" where
  "writeJSON status kvs = \<lparr>ha_status = Some status, ha_body = kvs, ha_gone = False\<rparr>"

definition failure :: "string \<Rightarrow> int \<Rightarrow> string \<Rightarrow> http_answer" where
  "failure request_id status msg =
     writeJSON status [(''requestId'', J_str request_id), (''error'', J_str msg)]"

text \<open>The status of the line \<open>Request completed\<close>.\<close>

definition answer_code :: "http_answer \<Rightarrow> int" where
  "answer_code a =
     (if ha_gone a then statusClientGone
      else case ha_status a of None \<Rightarrow> 200 | Some c \<Rightarrow> c)"

text \<open>\<open>io.ReadAll\<close> of a \<open>MaxBytesReader\<close>.\<close>

datatype body_read = Body_ok string | Body_too_large | Body_failed

definition read_body :: "int \<Rightarrow> request \<Rightarrow> body_read" where
  "read_body maxBody req =
     (if int (length (rq_body req)) > maxBody then Body_too_large
      else if rq_body_fails req then Body_failed
      else Body_ok (rq_body req))"

text \<open>The checks of the handler in their order: an answer, or the event to dispatch.\<close>

definition check_request :: "(string \<Rightarrow> string \<Rightarrow> string) \<Rightarrow> int \<Rightarrow> string \<Rightarrow> gotime \<Rightarrow> webhook_route \<Rightarrow> request
    \<Rightarrow> http_answer + event" where
  "check_request mac maxBody request_id at r req =
     (if wr_methods r \<noteq> [] \<and> rq_method req \<notin> set (map ToUpper (wr_methods r))
      then Inl (failure request_id 405 ''method not allowed'')
      else (case read_body maxBody req of
        Body_too_large \<Rightarrow> Inl (failure request_id 413 ''body too large'')
      | Body_failed \<Rightarrow> Inl (failure request_id 400 ''cannot read body'')
      | Body_ok body \<Rightarrow>
          if wr_token r \<noteq> [] \<and> checkToken req (wr_token r) \<noteq> []
          then Inl (failure request_id 401 ''unauthorized'')
          else if wr_secret r \<noteq> [] \<and> fst (checkSignature mac req body (wr_secret r)) \<noteq> []
          then Inl (failure request_id 401 ''unauthorized'')
          else (case find (\<lambda>name. map_of (query_data r req) name = None) (wr_required r) of
                  Some name \<Rightarrow> Inl (failure request_id 400 (''missing parameter '' @ name))
                | None \<Rightarrow> Inr (webhook_event request_id at r req body))))"

text \<open>The answer to a caller that waits, by what \<open>RunSync\<close> gave; \<open>SyncWaits\<close> never is final.\<close>

definition status_body :: "string \<Rightarrow> webhook_route \<Rightarrow> string \<Rightarrow> (string \<times> json_value) list" where
  "status_body request_id r st =
     [(''requestId'', J_str request_id), (''event'', J_str (wr_event r)), (''status'', J_str st)]"

fun wait_answer :: "string \<Rightarrow> webhook_route \<Rightarrow> sync_outcome \<Rightarrow> http_answer" where
  "wait_answer request_id r SyncBusy = writeJSON 409 (status_body request_id r ''skipped'')"
| "wait_answer request_id r SyncQueueFull = writeJSON 409 (status_body request_id r ''dropped'')"
| "wait_answer request_id r (SyncResult res) =
     writeJSON (if res_exit_code res \<noteq> 0 \<or> res_error res \<noteq> [] then 500 else 200)
       [(''requestId'', J_str request_id), (''event'', J_str (wr_event r)),
        (''exitCode'', J_int (res_exit_code res)), (''durationMs'', J_int (Milliseconds (res_duration res))),
        (''output'', J_str (res_output res)), (''outputTruncated'', J_bool (res_truncated res)),
        (''error'', J_str (res_error res))]"
| "wait_answer request_id r _ = \<lparr>ha_status = None, ha_body = [], ha_gone = True\<rparr>"

definition dispatch_answer :: "string \<Rightarrow> webhook_route \<Rightarrow> dispatch_status \<Rightarrow> http_answer" where
  "dispatch_answer request_id r st =
     (case st of
        Dispatch_Dropped \<Rightarrow> writeJSON 409 (status_body request_id r ''dropped'')
      | Dispatch_Queued \<Rightarrow> writeJSON 202 (status_body request_id r ''queued''))"

text \<open>
  The handler over any event handler: \<open>dispatch\<close> and \<open>run_sync\<close> are the two methods of
  \<open>event.Handler\<close> on the state that they change. A caller that has to wait gets its answer later:
  \<open>Inr\<close> is the run that it waits for.
\<close>

definition serve :: "(event \<Rightarrow> 's \<Rightarrow> dispatch_status \<times> 's) \<Rightarrow> (event \<Rightarrow> 's \<Rightarrow> sync_outcome \<times> 's)
    \<Rightarrow> (string \<Rightarrow> string \<Rightarrow> string) \<Rightarrow> int \<Rightarrow> string \<Rightarrow> gotime \<Rightarrow> webhook_route \<Rightarrow> request \<Rightarrow> 's
    \<Rightarrow> (http_answer + int) \<times> 's" where
  "serve dispatch run_sync mac maxBody request_id at r req s =
     (case check_request mac maxBody request_id at r req of
        Inl a \<Rightarrow> (Inl a, s)
      | Inr ev \<Rightarrow>
          if wr_wait r then
            (case run_sync ev s of
               (SyncWaits i, s') \<Rightarrow> (Inr i, s')
             | (out, s') \<Rightarrow> (Inl (wait_answer request_id r out), s'))
          else (case dispatch ev s of (st, s') \<Rightarrow> (Inl (dispatch_answer request_id r st), s')))"

text \<open>A request at the server whose dispatcher is the one of this model.\<close>

definition serve_request :: "(string \<Rightarrow> string \<Rightarrow> string) \<Rightarrow> webhook_server \<Rightarrow> gotime \<Rightarrow> string \<Rightarrow> webhook_route
    \<Rightarrow> request \<Rightarrow> disp \<Rightarrow> (http_answer + int) \<times> disp" where
  "serve_request mac srv now new_id r req s =
     serve (Dispatch now (wr_event r)) (RunSync_submit now (wr_event r)) mac (ws_max_body srv)
       (requestIDFrom new_id (get_value (rq_headers req) RequestIDHeader)) now r req s"

end
