(* ===== verification/WebhookProps.thy ===== *)
theory WebhookProps
  imports Webhook DispatcherSpecs
begin

text \<open>
  What the webhook server promises: which requests it accepts, that the credentials of a request
  do not reach the stored payload, and, through the interface of an event handler, what a request
  does to the queue and how its answer tells.
\<close>

section \<open>Accepted requests\<close>

text \<open>The token of a request: the first of the three places that holds one.\<close>

definition bearer :: "request \<Rightarrow> string" where
  "bearer req = TrimPrefix (get_value (rq_headers req) ''Authorization'') ''Bearer ''"

definition token_of :: "request \<Rightarrow> string" where
  "token_of req =
     (let a = get_value (rq_headers req) ''Authorization''; k = get_value (rq_headers req) ''X-Kickd-Token''
      in if HasPrefix a ''Bearer '' \<and> a \<noteq> ''Bearer '' then drop 7 a
         else if k \<noteq> [] then k else get_value (rq_query req) ''token'')"

lemma checkToken_iff: "t \<noteq> [] \<Longrightarrow> checkToken req t = [] \<longleftrightarrow> token_of req = t"
  by (auto simp: checkToken_def token_of_def Let_def TrimPrefix_def HasPrefix_iff)

text \<open>The signature of a request: GitHub's header, or kickd's when that is absent.\<close>

definition signature_of :: "request \<Rightarrow> string" where
  "signature_of req =
     (let g = get_value (rq_headers req) ''X-Hub-Signature-256''
      in if g \<noteq> [] then g else get_value (rq_headers req) ''X-Kickd-Signature'')"

definition signed :: "(string \<Rightarrow> string \<Rightarrow> string) \<Rightarrow> request \<Rightarrow> string \<Rightarrow> bool" where
  "signed mac req secret \<longleftrightarrow> signature_of req \<noteq> [] \<and>
     ToLower (TrimPrefix (signature_of req) ''sha256='') = mac secret (rq_body req)"

lemma checkSignature_iff:
  "fst (checkSignature mac req (rq_body req) secret) = [] \<longleftrightarrow> signed mac req secret"
  by (auto simp: checkSignature_def signed_def signature_of_def Let_def)

definition acceptable :: "(string \<Rightarrow> string \<Rightarrow> string) \<Rightarrow> int \<Rightarrow> webhook_route \<Rightarrow> request \<Rightarrow> bool" where
  "acceptable mac maxBody r req \<longleftrightarrow>
     (wr_methods r = [] \<or> rq_method req \<in> set (map ToUpper (wr_methods r))) \<and>
     int (length (rq_body req)) \<le> maxBody \<and> \<not> rq_body_fails req \<and>
     (wr_token r = [] \<or> token_of req = wr_token r) \<and>
     (wr_secret r = [] \<or> signed mac req (wr_secret r)) \<and>
     list_all (\<lambda>name. name \<in> set (wr_params r) \<and> get_value (rq_query req) name \<noteq> []) (wr_required r)"

lemma query_data_lookup:
  "map_of (query_data r req) name =
    (if name \<in> set (wr_params r) \<and> get_value (rq_query req) name \<noteq> []
     then Some (get_value (rq_query req) name) else None)"
proof -
  have "map_of (fold (\<lambda>name data. let v = get_value q name in if v \<noteq> [] then AList.update name v data else data) ns m) name
    = (if name \<in> set ns \<and> get_value q name \<noteq> [] then Some (get_value q name) else map_of m name)" for q ns m
    by (induction ns arbitrary: m) (auto simp: Let_def update_conv')
  from this [of "rq_query req" "wr_params r" "[]"] show ?thesis by (simp add: query_data_def)
qed

lemma find_required: "find (\<lambda>name. map_of (query_data r req) name = None) (wr_required r) = None \<longleftrightarrow>
    list_all (\<lambda>name. name \<in> set (wr_params r) \<and> get_value (rq_query req) name \<noteq> []) (wr_required r)"
  by (auto simp: find_None query_data_lookup list_all_iff)

lemma check_request_ok:
  "check_request mac maxBody request_id at r req = Inr ev \<longleftrightarrow>
    acceptable mac maxBody r req \<and> ev = webhook_event request_id at r req (rq_body req)"
  using checkToken_iff [of "wr_token r" req] checkSignature_iff [of mac req "wr_secret r"]
    find_required [of r req]
  by (auto simp: check_request_def acceptable_def read_body_def split: body_read.splits option.splits)

lemma flatten_keys: "k \<in> fst ` set (flatten vs drops) \<Longrightarrow> \<not> list_ex (EqualFold k) drops"
  by (auto simp: flatten_def split: if_splits list.splits)


text \<open>
  A request whose header holds what \<open>Signature\<close> computes for its body and the secret of the
  route passes the check of the signature, when the digest is written in lower case.\<close>
theorem signature_roundtrip:
  assumes "ToLower (mac secret (rq_body req)) = mac secret (rq_body req)"
    and "get_value (rq_headers req) ''X-Hub-Signature-256'' = Signature mac (rq_body req) secret"
  shows "checkSignature mac req (rq_body req) secret = ([], ''X-Hub-Signature-256'')"
  using assms by (simp add: checkSignature_def Signature_def Let_def TrimPrefix_def HasPrefix_def)

definition demo_request :: request where
  "demo_request = \<lparr>rq_method = ''POST'', rq_path = ''/deploy'', rq_remote_addr = ''10.0.0.7:4711'',
     rq_headers = [(''X-Hub-Signature-256'', [''sha256=00ff'']), (''Authorization'', [''Bearer t0k''])],
     rq_query = [(''branch'', [''main''])], rq_body = ''{}'', rq_body_fails = False\<rparr>"

theorem signature_roundtrip_witness:
  "checkSignature (\<lambda>secret body. ''00ff'') demo_request (rq_body demo_request) ''s'' = ([], ''X-Hub-Signature-256'')"
proof (rule signature_roundtrip)
  show "ToLower ''00ff'' = ''00ff''" by (simp add: ToLower_def to_lower_char_def)
qed (simp add: demo_request_def get_value_def Signature_def)

section \<open>What a request does to the queue\<close>

text \<open>The row that a firing adds, by the status under which it was accepted.\<close>

definition one_row :: "string \<Rightarrow> event \<Rightarrow> status \<Rightarrow> row list \<Rightarrow> row list \<Rightarrow> row \<Rightarrow> bool" where
  "one_row name ev st old new c \<longleftrightarrow>
     new = old @ [c] \<and> c_event c = name \<and> c_request_id c = ev_request_id ev \<and>
     c_trigger c = ev_trigger ev \<and> c_status c = st"

text \<open>The interface \<open>event.Handler\<close>: what its two methods promise about the rows of the queue.\<close>

locale event_handler =
  fixes dispatch :: "event \<Rightarrow> 's \<Rightarrow> dispatch_status \<times> 's"
    and run_sync :: "event \<Rightarrow> 's \<Rightarrow> sync_outcome \<times> 's"
    and name :: string
    and rows :: "'s \<Rightarrow> row list"
  assumes dispatch_queued: "ev_request_id ev \<noteq> [] \<Longrightarrow> dispatch ev s = (Dispatch_Queued, s') \<Longrightarrow>
      \<exists>c. one_row name ev StatusQueued (rows s) (rows s') c"
    and dispatch_dropped: "ev_request_id ev \<noteq> [] \<Longrightarrow> dispatch ev s = (Dispatch_Dropped, s') \<Longrightarrow>
      rows s' = rows s \<or> (\<exists>c. one_row name ev StatusDropped (rows s) (rows s') c)"
    and sync_waits: "ev_request_id ev \<noteq> [] \<Longrightarrow> run_sync ev s = (SyncWaits i, s') \<Longrightarrow>
      \<exists>c. one_row name ev StatusQueued (rows s) (rows s') c \<and> c_id c = i"
    and sync_full: "ev_request_id ev \<noteq> [] \<Longrightarrow> run_sync ev s = (SyncQueueFull, s') \<Longrightarrow>
      \<exists>c. one_row name ev StatusDropped (rows s) (rows s') c"
    and sync_error: "ev_request_id ev \<noteq> [] \<Longrightarrow> run_sync ev s = (SyncError e, s') \<Longrightarrow> rows s' = rows s"
    and sync_now: "run_sync ev s = (out, s') \<Longrightarrow>
      (case out of SyncWaits i \<Rightarrow> True | SyncQueueFull \<Rightarrow> True | SyncError e \<Rightarrow> True | _ \<Rightarrow> False)"
begin

lemma serve_wait:
  assumes rid: "request_id \<noteq> []" and ok: "check_request mac maxBody request_id at r req = Inr ev"
    and w: "wr_wait r" and s: "serve dispatch run_sync mac maxBody request_id at r req s = (res, s')"
  shows "(case res of
      Inr i \<Rightarrow> \<exists>c. one_row name ev StatusQueued (rows s) (rows s') c \<and> c_id c = i
    | Inl a \<Rightarrow> (ha_status a = Some 409 \<and> (\<exists>c. one_row name ev StatusDropped (rows s) (rows s') c)) \<or>
               (ha_status a = None \<and> ha_body a = [] \<and> rows s' = rows s))"
proof -
  have id: "ev_request_id ev \<noteq> []" using ok rid by (simp add: check_request_ok webhook_event_def)
  obtain out t where o: "run_sync ev s = (out, t)" by fastforce
  from sync_now [OF o] show ?thesis
  proof (cases out)
    case (SyncError e)
    with s ok w o sync_error [OF id, of s e t] show ?thesis by (auto simp: serve_def)
  next
    case SyncQueueFull
    with s ok w o sync_full [OF id, of s t] show ?thesis by (auto simp: serve_def writeJSON_def)
  next
    case (SyncWaits i)
    with s ok w o sync_waits [OF id, of s i t] show ?thesis by (auto simp: serve_def)
  qed simp_all
qed

lemma serve_dispatch:
  assumes rid: "request_id \<noteq> []" and ok: "check_request mac maxBody request_id at r req = Inr ev"
    and w: "\<not> wr_wait r" and s: "serve dispatch run_sync mac maxBody request_id at r req s = (res, s')"
  shows "\<exists>a. res = Inl a \<and>
     (ha_status a = Some 202 \<and> (\<exists>c. one_row name ev StatusQueued (rows s) (rows s') c) \<or>
      ha_status a = Some 409 \<and> (rows s' = rows s \<or> (\<exists>c. one_row name ev StatusDropped (rows s) (rows s') c)))"
proof -
  have id: "ev_request_id ev \<noteq> []" using ok rid by (simp add: check_request_ok webhook_event_def)
  obtain st t where d: "dispatch ev s = (st, t)" by fastforce
  with s ok w have res: "res = Inl (dispatch_answer request_id r st)" "s' = t" by (simp_all add: serve_def)
  show ?thesis
  proof (cases st)
    case Dispatch_Queued
    with dispatch_queued [OF id, of s t] d res show ?thesis by (auto simp: dispatch_answer_def writeJSON_def)
  next
    case Dispatch_Dropped
    with dispatch_dropped [OF id, of s t] d res show ?thesis by (auto simp: dispatch_answer_def writeJSON_def)
  qed
qed

lemma serve_rejected:
  "check_request mac maxBody request_id at r req = Inl a \<Longrightarrow>
    serve dispatch run_sync mac maxBody request_id at r req s = (Inl a, s)"
  by (simp add: serve_def)

end

lemma same_tables_runs: "same_tables d d' \<Longrightarrow> tbl_runs d' = tbl_runs d"
  by (simp add: same_tables_fields)

lemma submit_rows:
  assumes "submit now name ev wait s = (r, s')" and "ev_request_id ev \<noteq> []"
  shows "case su_err r of
      Some e \<Rightarrow> su_status r = Dispatch_Dropped \<and> tbl_runs (d_db s') = tbl_runs (d_db s)
    | None \<Rightarrow> \<exists>c. one_row name ev (if su_status r = Dispatch_Dropped then StatusDropped else StatusQueued)
          (tbl_runs (d_db s)) (tbl_runs (d_db s')) c \<and> c_id c = su_id r"
  using submit_cases [OF assms(1)] assms(2)
  by (auto simp: one_row_def dest: same_tables_runs split: option.splits)

interpretation hk: event_handler "Dispatch now name" "RunSync_submit now name" name "\<lambda>s. tbl_runs (d_db s)"
  for now name
proof
  fix ev s s' i e out
  show "\<exists>c. one_row name ev StatusQueued (tbl_runs (d_db s)) (tbl_runs (d_db s')) c"
    if "ev_request_id ev \<noteq> []" "Dispatch now name ev s = (Dispatch_Queued, s')"
    using that submit_rows [of now name ev False s]
    by (auto simp: Dispatch_def split: prod.splits option.splits)
  show "tbl_runs (d_db s') = tbl_runs (d_db s) \<or>
      (\<exists>c. one_row name ev StatusDropped (tbl_runs (d_db s)) (tbl_runs (d_db s')) c)"
    if "ev_request_id ev \<noteq> []" "Dispatch now name ev s = (Dispatch_Dropped, s')"
    using that submit_rows [of now name ev False s]
    by (auto simp: Dispatch_def split: prod.splits option.splits)
  show "\<exists>c. one_row name ev StatusQueued (tbl_runs (d_db s)) (tbl_runs (d_db s')) c \<and> c_id c = i"
    if "ev_request_id ev \<noteq> []" "RunSync_submit now name ev s = (SyncWaits i, s')"
    using that submit_rows [of now name ev True s]
    by (auto simp: RunSync_submit_def split: prod.splits option.splits if_splits)
  show "\<exists>c. one_row name ev StatusDropped (tbl_runs (d_db s)) (tbl_runs (d_db s')) c"
    if "ev_request_id ev \<noteq> []" "RunSync_submit now name ev s = (SyncQueueFull, s')"
    using that submit_rows [of now name ev True s]
    by (auto simp: RunSync_submit_def split: prod.splits option.splits if_splits)
  show "tbl_runs (d_db s') = tbl_runs (d_db s)" 
    if "ev_request_id ev \<noteq> []" "RunSync_submit now name ev s = (SyncError e, s')"
    using that submit_rows [of now name ev True s]
    by (auto simp: RunSync_submit_def split: prod.splits option.splits if_splits)
  show "case out of SyncWaits i \<Rightarrow> True | SyncQueueFull \<Rightarrow> True | SyncError e \<Rightarrow> True | _ \<Rightarrow> False"
    if "RunSync_submit now name ev s = (out, s')"
    using that by (auto simp: RunSync_submit_def split: prod.splits option.splits if_splits)
qed

lemma requestIDFrom_nonempty: "new_id \<noteq> [] \<Longrightarrow> requestIDFrom new_id h \<noteq> []"
  by (auto simp: requestIDFrom_def)

lemmas serve_defs = serve_request_def requestIDFrom_nonempty

text \<open>
  C14: A request that is not accepted gets an answer of its own and changes nothing, neither queue nor
  waiting callers. An accepted one adds at most one row, a firing of the event of the route with the
  identifier of the request: without \<open>wait\<close> the answer is 202 exactly when the row is queued,
  and 409 when it is dropped or could not be stored; with \<open>wait\<close> the caller waits for the
  queued row, or gets 409 for a dropped one, or, when the firing could not be stored, no answer is
  written.\<close>
theorem webhook_serves:
  assumes "new_id \<noteq> []" and "serve_request mac srv now new_id r req s = (res, s')"
  shows "case check_request mac (ws_max_body srv)
        (requestIDFrom new_id (get_value (rq_headers req) RequestIDHeader)) now r req of
      Inl a \<Rightarrow> res = Inl a \<and> s' = s
    | Inr ev \<Rightarrow>
        if wr_wait r then
          (case res of
             Inr i \<Rightarrow> \<exists>c. one_row (wr_event r) ev StatusQueued (tbl_runs (d_db s)) (tbl_runs (d_db s')) c \<and> c_id c = i
           | Inl a \<Rightarrow>
               (ha_status a = Some 409 \<and>
                 (\<exists>c. one_row (wr_event r) ev StatusDropped (tbl_runs (d_db s)) (tbl_runs (d_db s')) c)) \<or>
               (ha_status a = None \<and> ha_body a = [] \<and> tbl_runs (d_db s') = tbl_runs (d_db s)))
        else (\<exists>a. res = Inl a \<and>
          (ha_status a = Some 202 \<and>
             (\<exists>c. one_row (wr_event r) ev StatusQueued (tbl_runs (d_db s)) (tbl_runs (d_db s')) c) \<or>
           ha_status a = Some 409 \<and> (tbl_runs (d_db s') = tbl_runs (d_db s) \<or>
             (\<exists>c. one_row (wr_event r) ev StatusDropped (tbl_runs (d_db s)) (tbl_runs (d_db s')) c))))"
proof (cases "check_request mac (ws_max_body srv)
    (requestIDFrom new_id (get_value (rq_headers req) RequestIDHeader)) now r req")
  case (Inl a)
  with assms(2) show ?thesis by (simp add: serve_request_def hk.serve_rejected)
next
  case (Inr ev)
  note id = requestIDFrom_nonempty [OF assms(1)]
  note s = assms(2) [unfolded serve_request_def]
  show ?thesis
  proof (cases "wr_wait r")
    case True
    from hk.serve_wait [OF id Inr True s] Inr True show ?thesis by simp
  next
    case False
    from hk.serve_dispatch [OF id Inr False s] Inr False show ?thesis by simp
  qed
qed

definition demo_route :: "bool \<Rightarrow> webhook_route" where
  "demo_route wait = \<lparr>wr_event = ''backup'', wr_path = ''/deploy'', wr_methods = [''post''], wr_token = ''t0k'',
     wr_secret = [], wr_wait = wait, wr_params = [], wr_required = []\<rparr>"

lemma demo_upper: "ToUpper ''post'' = ''POST''"
  by code_simp

lemma demo_accept: "check_request (\<lambda>a b. []) 100 ''r1'' 0 (demo_route w) demo_request =
    Inr (webhook_event ''r1'' 0 (demo_route w) demo_request ''{}'')"
  by (simp add: check_request_ok acceptable_def demo_route_def demo_request_def token_of_def get_value_def
      HasPrefix_def Let_def demo_upper)

lemma demo_id: "requestIDFrom ''r1'' (get_value (rq_headers demo_request) RequestIDHeader) = ''r1''"
  by (simp add: demo_request_def get_value_def requestIDFrom_def)

lemma demo_submit:
  "fst (submit 0 ''backup'' (webhook_event ''r1'' 0 (demo_route True) demo_request ''{}'') True rerun_demo) =
    \<lparr>su_status = Dispatch_Queued, su_id = 2, su_wait = True, su_err = None\<rparr>"
proof -
  have d: "d_specs rerun_demo ''backup'' = Some rerun_spec"
    "d_db rerun_demo = demo_db [demo_row 1 ''backup'' StatusRunning]"
    by (simp_all add: rerun_demo_def Configure_def poke_def NewDispatcher_def rerun_spec_def)
  show ?thesis
    by (simp add: submit_def d webhook_event_def rerun_spec_def zero_spec_def WithDefaults_def Let_def marshal_event_def
        json_time_ok_def zero_event_def IsZero_def zero_time_def on_db_def Enqueue_def store_evals max_queued_def
        demo_db_def empty_db_def new_run_def poke_def)
qed

theorem webhook_serves_witness:
  "\<exists>s'. serve_request (\<lambda>a b. []) (NewWebhookServer ''h'' 100) 0 ''r1'' (demo_route True) demo_request rerun_demo
      = (Inr 2, s') \<and> (\<exists>c \<in> set (tbl_runs (d_db s')). c_id c = 2 \<and> c_request_id c = ''r1'')"
proof -
  have ne: "''r1'' \<noteq> []" by simp
  have mb: "ws_max_body (NewWebhookServer ''h'' 100) = 100" by (simp add: NewWebhookServer_def)
  have w: "wr_wait (demo_route True)" "wr_event (demo_route True) = ''backup''"
    by (simp_all add: demo_route_def)
  let ?ev = "webhook_event ''r1'' 0 (demo_route True) demo_request ''{}''"
  have rid: "ev_request_id ?ev = ''r1''" by (simp add: webhook_event_def)
  obtain s' where sub: "submit 0 ''backup'' ?ev True rerun_demo =
      (\<lparr>su_status = Dispatch_Queued, su_id = 2, su_wait = True, su_err = None\<rparr>, s')"
    using demo_submit by (metis prod.collapse)
  have same: "?ev\<lparr>ev_request_id := ''r1''\<rparr> = ?ev" by (simp add: webhook_event_def)
  have run: "serve_request (\<lambda>a b. []) (NewWebhookServer ''h'' 100) 0 ''r1'' (demo_route True) demo_request rerun_demo
      = (Inr 2, s')"
    by (simp add: serve_request_def serve_def demo_id mb demo_accept w RunSync_submit_def rid same sub)
  from webhook_serves [OF ne run, unfolded demo_id mb demo_accept] w run rid
  show ?thesis by (auto simp: one_row_def)
qed

text \<open>
  A caller with \<open>wait\<close> whose accepted request cannot be stored, because the database fails or the
  event is not configured, gets no written answer: the library sends 200 with an empty body, and the
  completion line says 499 as for a caller who left. Without \<open>wait\<close> the same failure answers
  409.\<close>
theorem webhook_wait_error_unanswered:
  assumes "check_request mac (ws_max_body srv)
        (requestIDFrom new_id (get_value (rq_headers req) RequestIDHeader)) now r req = Inr ev"
    and "ev_request_id ev \<noteq> []"
    and "su_err (fst (submit now (wr_event r) ev (wr_wait r) s)) = Some e"
  shows "\<exists>a s'. serve_request mac srv now new_id r req s = (Inl a, s') \<and>
    (if wr_wait r then ha_status a = None \<and> ha_body a = [] \<and> answer_code a = 499
     else ha_status a = Some 409)"
proof -
  obtain su s' where sub: "submit now (wr_event r) ev (wr_wait r) s = (su, s')" by fastforce
  with assms(3) have e: "su_err su = Some e" by simp
  from submit_rows [OF sub assms(2)] e have dropped: "su_status su = Dispatch_Dropped" by simp
  show ?thesis
  proof (cases "wr_wait r")
    case True
    with assms(1,2) sub e show ?thesis
      by (simp add: serve_request_def serve_def RunSync_submit_def answer_code_def statusClientGone_def)
  next
    case False
    with assms(1) sub e dropped show ?thesis
      by (simp add: serve_request_def serve_def Dispatch_def dispatch_answer_def writeJSON_def)
  qed
qed

theorem webhook_wait_error_unanswered_witness:
  "\<exists>a s'. serve_request (\<lambda>a b. []) (NewWebhookServer ''h'' 100) 0 ''r1'' (demo_route True) demo_request
      (NewDispatcher 0 (\<lambda>n. ''x'') empty_db) = (Inl a, s') \<and> ha_status a = None \<and> answer_code a = 499"
proof -
  have mb: "ws_max_body (NewWebhookServer ''h'' 100) = 100" by (simp add: NewWebhookServer_def)
  have w: "wr_wait (demo_route True)" "wr_event (demo_route True) = ''backup''"
    by (simp_all add: demo_route_def)
  let ?ev = "webhook_event ''r1'' 0 (demo_route True) demo_request ''{}''"
  let ?s = "NewDispatcher 0 (\<lambda>n. ''x'') empty_db"
  have 1: "check_request (\<lambda>a b. []) (ws_max_body (NewWebhookServer ''h'' 100))
      (requestIDFrom ''r1'' (get_value (rq_headers demo_request) RequestIDHeader)) 0 (demo_route True) demo_request = Inr ?ev"
    by (simp only: mb demo_id demo_accept)
  have rid: "ev_request_id ?ev = ''r1''" by (simp add: webhook_event_def)
  then have 2: "ev_request_id ?ev \<noteq> []" by simp
  have 3: "su_err (fst (submit 0 (wr_event (demo_route True)) ?ev (wr_wait (demo_route True)) ?s)) =
      Some (UnknownEvent ''backup'')"
    by (simp add: submit_def w rid NewDispatcher_def Let_def)
  from webhook_wait_error_unanswered [OF 1 2 3] w show ?thesis by auto
qed

end
