(* ===== verification/Config.thy ===== *)
theory Config
  imports Cron FileWatch Webhook
begin

text \<open>
  The configuration (\<^verbatim>\<open>internal/config/config.go\<close>): the structs of the file, the defaults that
  \<open>applyDefaults\<close> fills in, the checks of \<open>validate\<close> with all their messages, the search for a cycle
  of after triggers, the parameters of an event, the warnings, and the composition of the config
  file with the other files of its directory.

  Decoding YAML into the structs is an argument. A message of a check is its format with the
  arguments, each as it is printed by \<open>%s\<close> or \<open>%d\<close>; \<open>%q\<close> has the text that it quotes.
\<close>

section \<open>Settings\<close>

abbreviation ConcurrencySkip :: string where "ConcurrencySkip \<equiv> ''skip''"
abbreviation ConcurrencyQueue :: string where "ConcurrencyQueue \<equiv> ''queue''"
abbreviation ConcurrencyParallel :: string where "ConcurrencyParallel \<equiv> ''parallel''"
abbreviation ConcurrencyReplace :: string where "ConcurrencyReplace \<equiv> ''replace''"

abbreviation TriggerManual :: string where "TriggerManual \<equiv> ''manual''"
abbreviation TriggerCron :: string where "TriggerCron \<equiv> ''cron''"
abbreviation TriggerWebhook :: string where "TriggerWebhook \<equiv> ''webhook''"
abbreviation TriggerFile :: string where "TriggerFile \<equiv> ''file''"
abbreviation TriggerAfter :: string where "TriggerAfter \<equiv> ''after''"
abbreviation TriggerStartup :: string where "TriggerStartup \<equiv> ''startup''"
abbreviation TriggerWake :: string where "TriggerWake \<equiv> ''wake''"

definition triggerKeys :: "string \<rightharpoonup> string list" where
  "triggerKeys = map_of [
     (TriggerManual, []),
     (TriggerCron, [''schedule'', ''timezone'', ''missed'']),
     (TriggerWebhook, [''path'', ''methods'', ''token'', ''secret'', ''wait'']),
     (TriggerFile, [''path'', ''recursive'', ''include'', ''exclude'', ''changes'', ''debounce'']),
     (TriggerAfter, [''event'', ''status'']),
     (TriggerStartup, []),
     (TriggerWake, [])]"

definition triggerTypes :: string where
  "triggerTypes = ''manual, cron, webhook, file, after, startup or wake''"

definition AfterStatuses :: "string list" where
  "AfterStatuses = [''succeeded'', ''failed'', ''canceled'', ''skipped'', ''dropped'', ''abandoned'']"

definition DefaultListen :: string where "DefaultListen = ''127.0.0.1:9787''"
definition DefaultDebounce :: duration where "DefaultDebounce = second"
definition DefaultLogLevel :: string where "DefaultLogLevel = ''info''"
definition DefaultLogFormat :: string where "DefaultLogFormat = ''auto''"
definition DefaultLogSizeMB :: int where "DefaultLogSizeMB = 10"
definition DefaultLogBackups :: int where "DefaultLogBackups = 5"
definition DefaultDatabasePath :: string where "DefaultDatabasePath = ''kickd.db''"
definition DefaultRetention :: duration where "DefaultRetention = 168 * hour"
definition DefaultMaxAttempts :: int where "DefaultMaxAttempts = 3"
definition DefaultStopTimeout :: duration where "DefaultStopTimeout = 10 * second"
definition DefaultRestartDelay :: duration where "DefaultRestartDelay = second"
definition DefaultRestartMaxDelay :: duration where "DefaultRestartMaxDelay = minute"

abbreviation EnvLogLevel :: string where "EnvLogLevel \<equiv> ''LOG_LEVEL''"
abbreviation EnvLogFormat :: string where "EnvLogFormat \<equiv> ''LOG_FORMAT''"

definition logLevels :: "string list" where
  "logLevels = [''trace'', ''debug'', ''info'', ''warn'', ''error'', ''fatal'']"

definition logFormats :: "string list" where
  "logFormats = [''auto'', ''json'', ''text'']"

text \<open>The two regular expressions: a first character, then up to 63 of a class, to the end.\<close>

definition eventNameRe :: "string \<Rightarrow> bool" where
  "eventNameRe s = (case s of
     [] \<Rightarrow> False
   | c # r \<Rightarrow> (is_letter c \<or> is_digit c) \<and> length r \<le> 63 \<and>
       list_all (\<lambda>c. is_letter c \<or> is_digit c \<or> c \<in> set ''._:-'') r)"

definition paramNameRe :: "string \<Rightarrow> bool" where
  "paramNameRe s = (case s of
     [] \<Rightarrow> False
   | c # r \<Rightarrow> (is_letter c \<or> c = CHR ''_'') \<and> length r \<le> 63 \<and>
       list_all (\<lambda>c. is_letter c \<or> is_digit c \<or> c = CHR ''_'') r)"

section \<open>The structs of the file\<close>

record log_config =
  lc_level :: string
  lc_format :: string
  lc_path :: string
  lc_max_size_mb :: int
  lc_max_backups :: int
  lc_level_from :: string
  lc_format_from :: string

record webhook_config =
  wc_enabled :: "bool option"
  wc_listen :: string
  wc_max_body_bytes :: int

record database_config =
  dc_path :: string
  dc_retention :: duration

text \<open>A command as it was written: \<open>None\<close> is a nil list of arguments.\<close>

record run_command =
  rc_shell :: string
  rc_args :: "string list option"

record output_config =
  oc_path :: string
  oc_max_size_mb :: int
  oc_max_backups :: int

record param =
  pa_name :: string
  pa_description :: string
  pa_required :: bool
  pa_default :: string

record trigger =
  tr_type :: string
  tr_path :: string
  tr_schedule :: string
  tr_timezone :: string
  tr_missed :: string
  tr_methods :: "string list"
  tr_token :: string
  tr_secret :: string
  tr_wait :: bool
  tr_recursive :: bool
  tr_include :: "string list"
  tr_exclude :: "string list"
  tr_changes :: "string list"
  tr_debounce :: duration
  tr_event :: string
  tr_status :: "string list"

record event_config =
  ec_name :: string
  ec_description :: string
  ec_run :: run_command
  ec_workdir :: string
  ec_env :: strmap
  ec_timeout :: duration
  ec_stop_run :: run_command
  ec_stop_timeout :: duration
  ec_concurrency :: string
  ec_restart :: string
  ec_restart_delay :: duration
  ec_restart_max_delay :: duration
  ec_on_interrupt :: string
  ec_max_attempts :: int
  ec_stdin :: string
  ec_log_output :: "bool option"
  ec_output :: "output_config option"
  ec_params :: "param list"
  ec_triggers :: "trigger list"
  ec_command :: "string list"
  ec_shell :: string
  ec_stop_command :: "string list"
  ec_stop_shell :: string
  ec_file :: string
  ec_index :: int

record config =
  cf_log :: log_config
  cf_webhook :: webhook_config
  cf_database :: database_config
  cf_env :: strmap
  cf_events :: "event_config list"
  cf_path :: string
  cf_dir :: string
  cf_event_files :: "string list"
  cf_skipped :: "string list"

definition IsEnabled :: "webhook_config \<Rightarrow> bool" where
  "IsEnabled w = (case wc_enabled w of None \<Rightarrow> True | Some b \<Rightarrow> b)"

definition LogsOutput :: "event_config \<Rightarrow> bool" where
  "LogsOutput e = (case ec_log_output e of None \<Rightarrow> True | Some b \<Rightarrow> b)"

definition Manual :: "event_config \<Rightarrow> bool" where
  "Manual e = list_ex (\<lambda>t. tr_type t = TriggerManual) (ec_triggers e)"

definition setKeys :: "trigger \<Rightarrow> string list" where
  "setKeys t =
     map snd (filter fst [
       (tr_path t \<noteq> [], ''path''), (tr_schedule t \<noteq> [], ''schedule''), (tr_timezone t \<noteq> [], ''timezone''),
       (tr_missed t \<noteq> [], ''missed''), (tr_methods t \<noteq> [], ''methods''), (tr_token t \<noteq> [], ''token''),
       (tr_secret t \<noteq> [], ''secret''), (tr_wait t, ''wait''), (tr_recursive t, ''recursive''),
       (tr_include t \<noteq> [], ''include''), (tr_exclude t \<noteq> [], ''exclude''), (tr_changes t \<noteq> [], ''changes''),
       (tr_debounce t \<noteq> 0, ''debounce''), (tr_event t \<noteq> [], ''event''), (tr_status t \<noteq> [], ''status'')])"

section \<open>Parameters of an event\<close>

datatype param_error =
    Invalid_parameter string string
  | Required_parameter string string
  | Unknown_parameter string string "string list"

text \<open>
  \<open>Apply\<close>: the data with the defaults, or the problems. Go visits the map in any order and stops at
  the first invalid name when no parameter is declared; here it is the first in the list.
\<close>

definition fill_params :: "string \<Rightarrow> param list \<Rightarrow> strmap \<Rightarrow> strmap \<times> param_error list" where
  "fill_params name ps data =
     fold (\<lambda>p (out, errs).
         if map_of out (pa_name p) \<noteq> None then (out, errs)
         else if pa_required p then (out, errs @ [Required_parameter name (pa_name p)])
         else (AList.update (pa_name p) (pa_default p) out, errs)) ps (data, [])"

definition Apply :: "event_config \<Rightarrow> strmap \<Rightarrow> param_error list + strmap" where
  "Apply e data =
     (if ec_params e = [] then
        (case find (\<lambda>(k, v). \<not> paramNameRe k) data of
           Some (k, v) \<Rightarrow> Inl [Invalid_parameter (ec_name e) k]
         | None \<Rightarrow> Inr data)
      else (case fill_params (ec_name e) (ec_params e) data of
        (out, errs) \<Rightarrow>
          (let names = map pa_name (ec_params e);
               unknown = map (\<lambda>(k, v). Unknown_parameter (ec_name e) k names)
                             (filter (\<lambda>(k, v). k \<notin> set names) out)
           in if errs @ unknown \<noteq> [] then Inl (errs @ unknown) else Inr out)))"

section \<open>Defaults\<close>

text \<open>
  What the system says beside the calls of \<open>platform\<close>: the home directory if there is one,
  \<open>filepath.Clean\<close>, \<open>filepath.Base\<close> and whether a path is a directory.
\<close>

record host = platform +
  ho_home :: "string option"
  ho_clean :: "string \<Rightarrow> string"
  ho_base :: "string \<Rightarrow> string"
  ho_is_dir :: "string \<Rightarrow> bool"

definition resolve :: "host \<Rightarrow> string \<Rightarrow> string \<Rightarrow> string" where
  "resolve h dir p =
     (if p = [] then []
      else (let p = Expand (pf_getenv h) p;
                p = (if p = ''~'' \<or> HasPrefix p ''~/'' \<or> HasPrefix p (CHR ''~'' # [backslash])
                     then (case ho_home h of Some home \<Rightarrow> pf_join h home (drop 1 p) | None \<Rightarrow> p)
                     else p);
                p = (if \<not> pf_is_abs h p then pf_join h dir p else p)
            in ho_clean h p))"

definition or_default :: "'a \<Rightarrow> 'a \<Rightarrow> 'a \<Rightarrow> 'a" where
  "or_default zero x d = (if x = zero then d else x)"

definition default_log :: "host \<Rightarrow> string \<Rightarrow> log_config \<Rightarrow> log_config" where
  "default_log h dir l =
     (let lvl = pf_getenv h EnvLogLevel; fmt = pf_getenv h EnvLogFormat;
          (level, level_from) = (if lvl \<noteq> [] then (lvl, EnvLogLevel) else (lc_level l, ''log.level''));
          (form, format_from) = (if fmt \<noteq> [] then (fmt, EnvLogFormat) else (lc_format l, ''log.format''))
      in \<lparr>lc_level = or_default [] (ToLower (TrimSpace level)) DefaultLogLevel,
          lc_format = or_default [] (ToLower (TrimSpace form)) DefaultLogFormat,
          lc_path = resolve h dir (lc_path l),
          lc_max_size_mb = or_default 0 (lc_max_size_mb l) DefaultLogSizeMB,
          lc_max_backups = or_default 0 (lc_max_backups l) DefaultLogBackups,
          lc_level_from = level_from, lc_format_from = format_from\<rparr>)"

definition default_webhook :: "webhook_config \<Rightarrow> webhook_config" where
  "default_webhook w =
     w\<lparr>wc_listen := or_default [] (wc_listen w) DefaultListen,
       wc_max_body_bytes := or_default 0 (wc_max_body_bytes w) DefaultMaxBody\<rparr>"

definition default_database :: "host \<Rightarrow> string \<Rightarrow> database_config \<Rightarrow> database_config" where
  "default_database h dir d =
     \<lparr>dc_path = resolve h dir (or_default [] (dc_path d) DefaultDatabasePath),
      dc_retention = or_default 0 (dc_retention d) DefaultRetention\<rparr>"

definition default_output :: "host \<Rightarrow> string \<Rightarrow> output_config \<Rightarrow> output_config" where
  "default_output h dir out =
     \<lparr>oc_path = resolve h dir (oc_path out),
      oc_max_size_mb = or_default 0 (oc_max_size_mb out) DefaultLogSizeMB,
      oc_max_backups = or_default 0 (oc_max_backups out) DefaultLogBackups\<rparr>"

definition default_trigger :: "host \<Rightarrow> string \<Rightarrow> trigger \<Rightarrow> trigger" where
  "default_trigger h dir t0 =
     (let t = t0\<lparr>tr_type := ToLower (TrimSpace (tr_type t0))\<rparr> in
      if tr_type t = TriggerFile then
        t\<lparr>tr_path := resolve h dir (tr_path t),
          tr_debounce := or_default 0 (tr_debounce t) DefaultDebounce,
          tr_changes := or_default [] (tr_changes t) DefaultFileOps\<rparr>
      else if tr_type t = TriggerCron then
        t\<lparr>tr_missed := or_default [] (ToLower (TrimSpace (tr_missed t))) MissedRun\<rparr>
      else if tr_type t = TriggerWebhook then
        t\<lparr>tr_methods := map (\<lambda>m. ToUpper (TrimSpace m)) (tr_methods t)\<rparr>
      else if tr_type t = TriggerAfter then
        t\<lparr>tr_event := TrimSpace (tr_event t),
          tr_status := map (\<lambda>s. ToLower (TrimSpace s)) (tr_status t)\<rparr>
      else t)"

definition given :: "run_command \<Rightarrow> bool" where
  "given c \<longleftrightarrow> rc_shell c \<noteq> [] \<or> rc_args c \<noteq> None"

definition args_of :: "run_command \<Rightarrow> string list" where
  "args_of c = (case rc_args c of None \<Rightarrow> [] | Some a \<Rightarrow> a)"

definition default_restart_max :: "duration \<Rightarrow> duration \<Rightarrow> duration" where
  "default_restart_max d delay = (if d = 0 then max DefaultRestartMaxDelay delay else d)"

definition default_event :: "host \<Rightarrow> string \<Rightarrow> event_config \<Rightarrow> event_config" where
  "default_event h dir e =
     (let delay = or_default 0 (ec_restart_delay e) DefaultRestartDelay in
      e\<lparr>ec_command := (if given (ec_run e) then args_of (ec_run e) else ec_command e),
        ec_shell := (if given (ec_run e) then rc_shell (ec_run e) else ec_shell e),
        ec_stop_command := (if given (ec_stop_run e) then args_of (ec_stop_run e) else ec_stop_command e),
        ec_stop_shell := (if given (ec_stop_run e) then rc_shell (ec_stop_run e) else ec_stop_shell e),
        ec_stop_timeout := or_default 0 (ec_stop_timeout e) DefaultStopTimeout,
        ec_restart := or_default [] (ToLower (TrimSpace (ec_restart e))) RestartNever,
        ec_restart_delay := delay,
        ec_restart_max_delay := default_restart_max (ec_restart_max_delay e) delay,
        ec_concurrency := or_default [] (ec_concurrency e) ConcurrencySkip,
        ec_on_interrupt := or_default [] (ec_on_interrupt e) InterruptAbandon,
        ec_max_attempts := or_default 0 (ec_max_attempts e) DefaultMaxAttempts,
        ec_stdin := or_default [] (ec_stdin e) StdinNone,
        ec_workdir := resolve h dir (or_default [] (ec_workdir e) dir),
        ec_output := map_option (default_output h dir) (ec_output e),
        ec_triggers := map (default_trigger h dir) (ec_triggers e)\<rparr>)"

definition applyDefaults :: "host \<Rightarrow> config \<Rightarrow> config" where
  "applyDefaults h c =
     c\<lparr>cf_log := default_log h (cf_dir c) (cf_log c),
       cf_webhook := default_webhook (cf_webhook c),
       cf_database := default_database h (cf_dir c) (cf_database c),
       cf_events := map (default_event h (cf_dir c)) (cf_events c)\<rparr>"

section \<open>Cycles of after triggers\<close>

definition follow_targets :: "event_config \<Rightarrow> string list" where
  "follow_targets e =
     map tr_event (filter (\<lambda>t. tr_type t = TriggerAfter \<and> tr_event t \<noteq> [] \<and> tr_event t \<noteq> ec_name e)
       (ec_triggers e))"

definition follows_of :: "event_config list \<Rightarrow> string \<Rightarrow> string list" where
  "follows_of es n = concat (map follow_targets (filter (\<lambda>e. ec_name e = n) es))"

datatype mark = Unvisited | Visiting | Done

record search =
  se_state :: "string \<Rightarrow> mark"
  se_path :: "string list"
  se_found :: "string list"

text \<open>
  \<open>visit\<close>: whether it found a cycle, and the state after it. The fuel bounds the depth of the
  recursion; \<open>None\<close> would mean that it ran out.
\<close>

fun visit :: "nat \<Rightarrow> (string \<Rightarrow> string list) \<Rightarrow> string \<Rightarrow> search \<Rightarrow> (bool \<times> search) option"
  and visit_all :: "nat \<Rightarrow> (string \<Rightarrow> string list) \<Rightarrow> string list \<Rightarrow> search \<Rightarrow> (bool \<times> search) option" where
  "visit 0 g n s = None"
| "visit (Suc k) g n s =
     (case se_state s n of
        Visiting \<Rightarrow> Some (True, s\<lparr>se_found := dropWhile (\<lambda>m. m \<noteq> n) (se_path s) @ [n]\<rparr>)
      | Done \<Rightarrow> Some (False, s)
      | Unvisited \<Rightarrow>
          (case visit_all k g (g n) (s\<lparr>se_state := (se_state s)(n := Visiting), se_path := se_path s @ [n]\<rparr>) of
             Some (False, s') \<Rightarrow>
               Some (False, s'\<lparr>se_path := butlast (se_path s'), se_state := (se_state s')(n := Done)\<rparr>)
           | r \<Rightarrow> r))"
| "visit_all k g [] s = Some (False, s)"
| "visit_all k g (m # ms) s =
     (case visit k g m s of
        Some (False, s') \<Rightarrow> visit_all k g ms s'
      | r \<Rightarrow> r)"

definition no_search :: search where
  "no_search = \<lparr>se_state = (\<lambda>n. Unvisited), se_path = [], se_found = []\<rparr>"

definition cycle_fuel :: "event_config list \<Rightarrow> nat" where
  "cycle_fuel es = Suc (length es)"

definition find_cycle :: "event_config list \<Rightarrow> string list option" where
  "find_cycle es =
     map_option (\<lambda>(found, s). se_found s)
       (visit_all (cycle_fuel es) (follows_of es) (map ec_name es) no_search)"

fun cycle_parts :: "string list \<Rightarrow> string list" where
  "cycle_parts (a # b # r) = (a @ '' follows '' @ b) # cycle_parts (b # r)"
| "cycle_parts _ = []"

definition afterCycle :: "event_config list \<Rightarrow> string" where
  "afterCycle es =
     (case find_cycle es of
        None \<Rightarrow> []
      | Some found \<Rightarrow>
          if found = [] then []
          else (let parts = cycle_parts found in
                if length parts = 1 then hd parts
                else Join (butlast parts) '', '' @ '', and '' @ last parts))"

end
