(* ===== verification/ConfigCycle.thy ===== *)
theory ConfigCycle
  imports Config
begin

text \<open>
  The search for a cycle of after triggers: it ends within its fuel, a cycle that it reports is one,
  and when it reports none there is none. The invariant speaks about the marks: the marked nodes on
  the path are a walk, and a node that is done has only done successors and lies on no cycle.
\<close>

definition edges :: "(string \<Rightarrow> string list) \<Rightarrow> (string \<times> string) set" where
  "edges g = {(a, b). b \<in> set (g a)}"

definition is_cycle :: "(string \<Rightarrow> string list) \<Rightarrow> string list \<Rightarrow> bool" where
  "is_cycle g c \<longleftrightarrow> length c \<ge> 2 \<and> hd c = last c \<and> successively (\<lambda>a b. b \<in> set (g a)) c"

definition search_ok :: "(string \<Rightarrow> string list) \<Rightarrow> search \<Rightarrow> bool" where
  "search_ok g s \<longleftrightarrow>
     distinct (se_path s) \<and> (\<forall>n. se_state s n = Visiting \<longleftrightarrow> n \<in> set (se_path s)) \<and>
     successively (\<lambda>a b. b \<in> set (g a)) (se_path s) \<and>
     (\<forall>n. se_state s n = Done \<longrightarrow> (\<forall>m \<in> set (g n). se_state s m = Done) \<and> (n, n) \<notin> (edges g)\<^sup>+) \<and>
     se_found s = []"

definition grows :: "search \<Rightarrow> search \<Rightarrow> bool" where
  "grows s s' \<longleftrightarrow> se_path s' = se_path s \<and> (\<forall>m. se_state s m = Done \<longrightarrow> se_state s' m = Done)"

definition comes_next :: "(string \<Rightarrow> string list) \<Rightarrow> search \<Rightarrow> string \<Rightarrow> bool" where
  "comes_next g s n \<longleftrightarrow> se_path s = [] \<or> n \<in> set (g (last (se_path s)))"

lemma grows_refl: "grows s s"
  by (simp add: grows_def)

lemma grows_trans: "grows a b \<Longrightarrow> grows b c \<Longrightarrow> grows a c"
  by (simp add: grows_def)

text \<open>A node that is done stays with done nodes along every walk.\<close>

lemma done_closed:
  assumes "search_ok g s" "(a, b) \<in> (edges g)\<^sup>+" "se_state s a = Done"
  shows "se_state s b = Done"
  using assms(2,3,1) by (induction rule: trancl_induct) (auto simp: search_ok_def edges_def)

lemma cycle_found:
  assumes ok: "search_ok g s" and n: "comes_next g s n" and v: "se_state s n = Visiting"
  shows "is_cycle g (dropWhile (\<lambda>m. m \<noteq> n) (se_path s) @ [n])"
proof -
  let ?d = "dropWhile (\<lambda>m. m \<noteq> n) (se_path s)"
  have mem: "n \<in> set (se_path s)" using ok v by (simp add: search_ok_def)
  then obtain pre post where p: "se_path s = pre @ n # post" "n \<notin> set pre"
    by (metis split_list_first)
  then have d: "?d = n # post" by (simp add: dropWhile_append)
  have walk: "successively (\<lambda>a b. b \<in> set (g a)) (n # post)"
    using ok p by (auto simp: search_ok_def successively_append_iff)
  have "n \<in> set (g (last (n # post)))"
    using n p by (auto simp: comes_next_def split: if_splits)
  with walk have "successively (\<lambda>a b. b \<in> set (g a)) ((n # post) @ [n])"
    by (simp only: successively_append_iff) simp
  with d show ?thesis by (simp add: is_cycle_def)
qed

lemma enter_ok:
  assumes ok: "search_ok g s" and n: "comes_next g s n" and u: "se_state s n = Unvisited"
  shows "search_ok g (s\<lparr>se_state := (se_state s)(n := Visiting), se_path := se_path s @ [n]\<rparr>)"
proof -
  have "n \<notin> set (se_path s)" using ok u unfolding search_ok_def by (metis mark.distinct(1))
  moreover have "successively (\<lambda>a b. b \<in> set (g a)) (se_path s @ [n])"
    using ok n by (cases "se_path s = []") (auto simp: search_ok_def comes_next_def successively_append_iff)
  moreover have "se_state s m = Done \<Longrightarrow> n \<notin> set (g m)" for m
    using ok u unfolding search_ok_def by (metis mark.distinct(3))
  ultimately show ?thesis using ok u by (auto simp: search_ok_def)
qed

lemma leave_ok:
  assumes ok: "search_ok g s'" and path: "se_path s' = p @ [n]"
    and succ: "\<And>m. m \<in> set (g n) \<Longrightarrow> se_state s' m = Done"
  shows "search_ok g (s'\<lparr>se_path := butlast (se_path s'), se_state := (se_state s')(n := Done)\<rparr>)"
proof -
  have v: "se_state s' n = Visiting" using ok path by (auto simp: search_ok_def)
  have acyc: "(n, n) \<notin> (edges g)\<^sup>+"
  proof
    assume "(n, n) \<in> (edges g)\<^sup>+"
    then obtain m where m: "(n, m) \<in> edges g" "(m, n) \<in> (edges g)\<^sup>*" by (meson tranclD)
    then have done_m: "se_state s' m = Done" using succ by (auto simp: edges_def)
    from m(2) have "m = n \<or> (m, n) \<in> (edges g)\<^sup>+" by (auto simp: rtrancl_eq_or_trancl)
    with done_m done_closed [OF ok] have "se_state s' n = Done" by blast
    with v show False by simp
  qed
  have p: "distinct p" "n \<notin> set p" "successively (\<lambda>a b. b \<in> set (g a)) p"
    using ok path by (auto simp: search_ok_def successively_append_iff)
  show ?thesis unfolding search_ok_def
  proof (intro conjI allI impI)
    fix m
    show "(se_state (s'\<lparr>se_path := butlast (se_path s'), se_state := (se_state s')(n := Done)\<rparr>) m = Visiting) =
        (m \<in> set (se_path (s'\<lparr>se_path := butlast (se_path s'), se_state := (se_state s')(n := Done)\<rparr>)))"
      using ok path p by (auto simp: search_ok_def)
    assume d: "se_state (s'\<lparr>se_path := butlast (se_path s'), se_state := (se_state s')(n := Done)\<rparr>) m = Done"
    show "(m, m) \<notin> (edges g)\<^sup>+"
      using d acyc ok by (cases "m = n") (auto simp: search_ok_def)
    show "\<forall>m'\<in>set (g m). se_state (s'\<lparr>se_path := butlast (se_path s'), se_state := (se_state s')(n := Done)\<rparr>) m' = Done"
      using d succ ok by (cases "m = n") (auto simp: search_ok_def)
  qed (use ok p path in \<open>auto simp: search_ok_def\<close>)
qed

lemma visit_correct:
  "search_ok g s \<Longrightarrow> comes_next g s n \<Longrightarrow> visit k g n s = Some (b, s') \<Longrightarrow>
    (if b then is_cycle g (se_found s') else search_ok g s' \<and> grows s s' \<and> se_state s' n = Done)"
  "search_ok g s \<Longrightarrow> (\<And>m. m \<in> set ms \<Longrightarrow> comes_next g s m) \<Longrightarrow> visit_all k g ms s = Some (b, s') \<Longrightarrow>
    (if b then is_cycle g (se_found s') else search_ok g s' \<and> grows s s' \<and> (\<forall>m \<in> set ms. se_state s' m = Done))"
proof (induction k g n s and k g ms s arbitrary: b s' and b s' rule: visit_visit_all.induct)
  case (1 g n s)
  then show ?case by simp
next
  case (2 k g n s)
  show ?case
  proof (cases "se_state s n")
    case Visiting
    with 2 cycle_found [OF 2(2,3)] show ?thesis by auto
  next
    case Done
    with 2 show ?thesis by (auto simp: grows_refl)
  next
    case Unvisited
    let ?s = "s\<lparr>se_state := (se_state s)(n := Visiting), se_path := se_path s @ [n]\<rparr>"
    have ok: "search_ok g ?s" by (rule enter_ok [OF 2(2,3) Unvisited])
    have nx: "\<And>m. m \<in> set (g n) \<Longrightarrow> comes_next g ?s m" by (simp add: comes_next_def)
    show ?thesis
    proof (cases "visit_all k g (g n) ?s")
      case None
      with 2(4) Unvisited show ?thesis by simp
    next
      case (Some r)
      obtain b1 s1 where r: "r = (b1, s1)" by fastforce
      note IH = 2(1) [OF Unvisited ok nx Some [unfolded r]]
      show ?thesis
      proof (cases b1)
        case True
        with 2(4) Unvisited Some r IH show ?thesis by auto
      next
        case False
        with IH have s1: "search_ok g s1" "grows ?s s1" "\<forall>m\<in>set (g n). se_state s1 m = Done" by auto
        have out: "b = False" "s' = s1\<lparr>se_path := butlast (se_path s1), se_state := (se_state s1)(n := Done)\<rparr>"
          using 2(4) Unvisited Some r False by auto
        have path: "se_path s1 = se_path s @ [n]" using s1(2) by (simp add: grows_def)
        have "search_ok g s'" unfolding out using leave_ok [OF s1(1) path] s1(3) by blast
        moreover have "grows s s'" using s1(2) Unvisited unfolding out grows_def by auto
        ultimately show ?thesis by (simp add: out)
      qed
    qed
  qed
next
  case (3 k g s)
  then show ?case by (auto simp: grows_refl)
next
  case (4 k g m ms s)
  show ?case
  proof (cases "visit k g m s")
    case None
    with 4(5) show ?thesis by simp
  next
    case (Some r)
    obtain b1 s1 where r: "r = (b1, s1)" by fastforce
    have nx: "comes_next g s m" using 4(4) by simp
    note IH1 = 4(1) [OF 4(3) nx Some [unfolded r]]
    show ?thesis
    proof (cases b1)
      case True
      with 4(5) Some r IH1 show ?thesis by auto
    next
      case False
      with IH1 have s1: "search_ok g s1" "grows s s1" "se_state s1 m = Done" by auto
      have rest: "visit_all k g ms s1 = Some (b, s')" using 4(5) Some r False by simp
      have nx1: "\<And>m. m \<in> set ms \<Longrightarrow> comes_next g s1 m"
        using 4(4) s1(2) by (simp add: comes_next_def grows_def)
      have "(False, s1) = r" using r False by simp
      from 4(2) [OF Some this refl] s1(1) nx1 rest
      have IH2: "if b then is_cycle g (se_found s')
        else search_ok g s' \<and> grows s1 s' \<and> (\<forall>m\<in>set ms. se_state s' m = Done)" by simp
      show ?thesis
        using IH2 s1(2,3) by (cases b) (auto intro: grows_trans simp: grows_def)
    qed
  qed
qed

section \<open>The fuel is enough\<close>

text \<open>Every node with a successor is in \<open>N\<close>, and so are the nodes on the path.\<close>

definition within :: "(string \<Rightarrow> string list) \<Rightarrow> string set \<Rightarrow> search \<Rightarrow> bool" where
  "within g N s \<longleftrightarrow> finite N \<and> (\<forall>n. g n \<noteq> [] \<longrightarrow> n \<in> N) \<and> set (se_path s) \<subseteq> N"

lemma within_grows: "within g N s \<Longrightarrow> grows s s' \<Longrightarrow> within g N s'"
  by (simp add: within_def grows_def)

lemma visit_enough:
  "search_ok g s \<Longrightarrow> comes_next g s n \<Longrightarrow> within g N s \<Longrightarrow> card N < k + length (se_path s) \<Longrightarrow> 0 < k \<Longrightarrow>
    visit k g n s \<noteq> None"
  "search_ok g s \<Longrightarrow> (\<And>m. m \<in> set ms \<Longrightarrow> comes_next g s m) \<Longrightarrow> within g N s \<Longrightarrow>
    card N < k + length (se_path s) \<Longrightarrow> visit_all k g ms s \<noteq> None"
proof (induction k g n s and k g ms s rule: visit_visit_all.induct)
  case (1 g n s)
  then show ?case by simp
next
  case (2 k g n s)
  show ?case
  proof (cases "se_state s n")
    case Visiting
    then show ?thesis by simp
  next
    case Done
    then show ?thesis by simp
  next
    case Unvisited
    let ?s = "s\<lparr>se_state := (se_state s)(n := Visiting), se_path := se_path s @ [n]\<rparr>"
    have ok: "search_ok g ?s" by (rule enter_ok [OF 2(2,3) Unvisited])
    have nx: "\<And>m. m \<in> set (g n) \<Longrightarrow> comes_next g ?s m" by (simp add: comes_next_def)
    have "visit_all k g (g n) ?s \<noteq> None"
    proof (cases "g n = []")
      case False
      with 2(4) have "within g N ?s" by (simp add: within_def)
      from 2(1) [OF Unvisited ok nx this] 2(5) show ?thesis by simp
    qed simp
    with Unvisited show ?thesis by (auto split: option.splits prod.splits bool.splits)
  qed
next
  case (3 k g s)
  then show ?case by simp
next
  case (4 k g m ms s)
  have len: "length (se_path s) \<le> card N"
  proof -
    have "card (set (se_path s)) \<le> card N" using 4(5) by (intro card_mono) (auto simp: within_def)
    with 4(3) show ?thesis by (simp add: search_ok_def distinct_card)
  qed
  have k: "0 < k" using 4(6) len by simp
  have nx: "comes_next g s m" using 4(4) by simp
  from 4(1) [OF 4(3) nx 4(5,6) k] obtain b1 s1 where v: "visit k g m s = Some (b1, s1)" by auto
  show ?case
  proof (cases b1)
    case True
    with v show ?thesis by simp
  next
    case False
    with visit_correct(1) [OF 4(3) nx v] have s1: "search_ok g s1" "grows s s1" by auto
    have nx1: "\<And>m. m \<in> set ms \<Longrightarrow> comes_next g s1 m"
      using 4(4) s1(2) by (simp add: comes_next_def grows_def)
    have "(False, s1) = (b1, s1)" using False by simp
    from 4(2) [OF v this refl s1(1) nx1 within_grows [OF 4(5) s1(2)]] 4(6) s1(2) v False
    show ?thesis by (simp add: grows_def)
  qed
qed

section \<open>The search on a list of events\<close>

lemma follows_nonempty: "follows_of es n \<noteq> [] \<Longrightarrow> n \<in> set (map ec_name es)"
  by (auto simp: follows_of_def)

lemma find_cycle_correct:
  "\<exists>found. find_cycle es = Some found \<and>
    (if found = [] then acyclic (edges (follows_of es)) else is_cycle (follows_of es) found)"
proof -
  let ?g = "follows_of es" and ?N = "set (map ec_name es)"
  have ok: "search_ok ?g no_search" by (simp add: search_ok_def no_search_def)
  have nx: "\<And>m. m \<in> set (map ec_name es) \<Longrightarrow> comes_next ?g no_search m"
    by (simp add: comes_next_def no_search_def)
  have within: "within ?g ?N no_search"
    using follows_nonempty [of es] by (auto simp: within_def no_search_def)
  have fuel: "card ?N < cycle_fuel es + length (se_path no_search)"
    using card_length [of "map ec_name es"] by (simp add: cycle_fuel_def no_search_def less_Suc_eq_le)
  from visit_enough(2) [OF ok _ within fuel, of "map ec_name es"] nx obtain b s where
    v: "visit_all (cycle_fuel es) ?g (map ec_name es) no_search = Some (b, s)" by auto
  note c = visit_correct(2) [OF ok nx v]
  have found: "find_cycle es = Some (se_found s)" by (simp add: find_cycle_def v)
  show ?thesis
  proof (cases b)
    case True
    with c have "is_cycle ?g (se_found s)" by simp
    moreover from this have "se_found s \<noteq> []" by (auto simp: is_cycle_def)
    ultimately show ?thesis using found by auto
  next
    case False
    with c have s: "search_ok ?g s" "\<forall>m\<in>?N. se_state s m = Done" by auto
    have "acyclic (edges ?g)"
      unfolding acyclic_def
    proof (intro allI notI)
      fix n
      assume cyc: "(n, n) \<in> (edges ?g)\<^sup>+"
      then obtain m where "(n, m) \<in> edges ?g" by (meson tranclD)
      then have "follows_of es n \<noteq> []" by (auto simp: edges_def)
      from follows_nonempty [OF this] s(2) have "se_state s n = Done" by blast
      with s(1) cyc show False by (simp add: search_ok_def)
    qed
    with s(1) found show ?thesis by (simp add: search_ok_def)
  qed
qed

lemma cycle_parts_Nil: "cycle_parts c = [] \<longleftrightarrow> length c < 2"
  by (cases c rule: cycle_parts.cases) auto

lemma cycle_parts_nonempty: "p \<in> set (cycle_parts c) \<Longrightarrow> p \<noteq> []"
  by (induction c rule: cycle_parts.induct) auto

lemma cycle_not_acyclic: "is_cycle g c \<Longrightarrow> \<not> acyclic (edges g)"
proof -
  assume c: "is_cycle g c"
  have walk: "successively (\<lambda>a b. b \<in> set (g a)) (a # b # r) \<Longrightarrow> (a, last (b # r)) \<in> (edges g)\<^sup>+" for a b r
  proof (induction r arbitrary: a b)
    case Nil
    then show ?case by (auto simp: edges_def)
  next
    case (Cons x r)
    then have "(a, b) \<in> edges g" "(b, last (x # r)) \<in> (edges g)\<^sup>+" by (auto simp: edges_def)
    then show ?case by (simp add: trancl_into_trancl2)
  qed
  from c obtain a b r where abr: "c = a # b # r"
    by (cases c rule: cycle_parts.cases) (auto simp: is_cycle_def)
  with c have "(a, a) \<in> (edges g)\<^sup>+" using walk [of a b r] by (auto simp: is_cycle_def)
  then show ?thesis by (auto simp: acyclic_def)
qed

lemma afterCycle_empty: "afterCycle es = [] \<longleftrightarrow> acyclic (edges (follows_of es))"
proof -
  obtain found where f: "find_cycle es = Some found"
    "if found = [] then acyclic (edges (follows_of es)) else is_cycle (follows_of es) found"
    using find_cycle_correct [of es] by blast
  show ?thesis
  proof (cases "found = []")
    case True
    with f show ?thesis by (simp add: afterCycle_def)
  next
    case False
    with f(2) have c: "is_cycle (follows_of es) found" by simp
    then have ne: "cycle_parts found \<noteq> []" by (simp add: cycle_parts_Nil is_cycle_def)
    have "afterCycle es \<noteq> []"
      using f(1) False ne cycle_parts_nonempty [of _ found]
      by (auto simp: afterCycle_def Let_def)
    with cycle_not_acyclic [OF c] show ?thesis by simp
  qed
qed

text \<open>
  C27: The search for a cycle of after triggers ends for every list of events, duplicates and unknown
  names included: the fuel of one more than the number of events is enough. What it finds is a walk
  of at least one step along after triggers that ends where it began; when it finds nothing the
  relation of following has no cycle; and the message is empty exactly in that case.\<close>
theorem after_cycle_correct:
  "\<exists>found. find_cycle es = Some found \<and>
    (if found = [] then acyclic {(a, b). b \<in> set (follows_of es a)}
     else length found \<ge> 2 \<and> hd found = last found \<and>
       successively (\<lambda>a b. b \<in> set (follows_of es a)) found) \<and>
    (afterCycle es = []) = acyclic {(a, b). b \<in> set (follows_of es a)}"
  using find_cycle_correct [of es, unfolded edges_def is_cycle_def] afterCycle_empty [of es, unfolded edges_def]
  by blast

end
