(* ===== verification/ConfigCheck.thy ===== *)
theory ConfigCheck
  imports ConfigCycle
begin

text \<open>
  The checks of a configuration (\<open>validate\<close> in \<^verbatim>\<open>internal/config/config.go\<close>) with every message,
  and what reads a loaded configuration: the events by name, the warnings, the webhook server.

  \<open>validate\<close> is one function in the code; here each of its blocks is a function that gives the
  problems it adds, and the maps that the blocks share (\<open>names\<close>, \<open>hookPaths\<close>, \<open>seen\<close>, \<open>follows\<close>)
  are passed along as the loops do.
\<close>

section \<open>Problems\<close>

type_synonym problem = "string \<times> string list"

definition quoted :: "string \<Rightarrow> string" where
  "quoted s = [CHR 0x22] @ s @ [CHR 0x22]"

definition fail_if :: "bool \<Rightarrow> string \<Rightarrow> string list \<Rightarrow> problem list" where
  "fail_if b form args = (if b then [(form, args)] else [])"

lemma fail_if_Nil [simp]: "fail_if b form args = [] \<longleftrightarrow> \<not> b"
  by (simp add: fail_if_def)

section \<open>Settings\<close>

definition setting_problems :: "config \<Rightarrow> problem list" where
  "setting_problems c =
     fail_if (lc_level (cf_log c) \<notin> set logLevels) ''%s %q must be one of %s''
       [lc_level_from (cf_log c), lc_level (cf_log c), Join logLevels '', '']
     @ fail_if (lc_format (cf_log c) \<notin> set logFormats) ''%s %q must be one of %s''
       [lc_format_from (cf_log c), lc_format (cf_log c), Join logFormats '', '']
     @ fail_if (lc_max_size_mb (cf_log c) < 0) ''log.max_size_mb must not be negative'' []
     @ fail_if (lc_max_backups (cf_log c) < 0) ''log.max_backups must not be negative'' []
     @ fail_if (dc_retention (cf_database c) < 0) ''database.retention must not be negative'' []
     @ fail_if (cf_events c = []) ''events: at least one event is required'' []"

section \<open>One event\<close>

definition event_file_text :: "host \<Rightarrow> config \<Rightarrow> event_config \<Rightarrow> string" where
  "event_file_text h c e =
     (if ec_file e \<noteq> [] \<and> ec_file e \<noteq> cf_path c then ho_base h (ec_file e) @ '': '' else [])"

text \<open>The check of the name: the problems, where the later ones are reported, and the names so far.\<close>

definition check_name :: "host \<Rightarrow> config \<Rightarrow> (string \<rightharpoonup> string) \<Rightarrow> event_config
    \<Rightarrow> problem list \<times> string \<times> (string \<rightharpoonup> string)" where
  "check_name h c names e =
     (let file = event_file_text h c e;
          position = file @ ''events['' @ Itoa (ec_index e) @ '']''
      in if ec_name e = [] then ([(''%s: name is required'', [position])], position, names)
         else if \<not> eventNameRe (ec_name e) then
           ([(''%s: name %q must be 1 to 64 letters, digits, '.', '_', ':' or '-', starting with a letter or digit'',
              [position, ec_name e])], position, names)
         else (let w = file @ ''event '' @ quoted (ec_name e);
                   errs = (case names (ec_name e) of
                       None \<Rightarrow> []
                     | Some other \<Rightarrow>
                         if other = ec_file e then [(''%s: duplicate name'', [w])]
                         else [(''%s: duplicate name, also in %s'', [w, ho_base h other])])
               in (errs, w, names(ec_name e \<mapsto> ec_file e))))"

definition command_problems :: "string \<Rightarrow> event_config \<Rightarrow> problem list" where
  "command_problems w e =
     (if ec_command e = [] \<and> ec_shell e = [] then [(''%s: command is required'', [w])]
      else if ec_command e \<noteq> [] \<and> hd (ec_command e) = []
        then [(''%s: the program of command must not be empty'', [w])]
      else [])"

definition policy_problems :: "string \<Rightarrow> event_config \<Rightarrow> problem list" where
  "policy_problems w e =
     fail_if (ec_concurrency e \<notin> {ConcurrencySkip, ConcurrencyQueue, ConcurrencyParallel, ConcurrencyReplace})
       ''%s: concurrency %q must be skip, queue, parallel or replace'' [w, ec_concurrency e]
     @ fail_if (ec_restart e \<notin> {RestartNever, RestartOnFailure, RestartAlways})
       ''%s: restart %q must be never, on-failure or always'' [w, ec_restart e]
     @ fail_if (ec_restart_delay e < 0) ''%s: restart_delay must not be negative'' [w]
     @ fail_if (ec_restart_max_delay e < ec_restart_delay e)
       ''%s: restart_max_delay must not be shorter than restart_delay'' [w]
     @ fail_if (ec_on_interrupt e \<notin> {InterruptAbandon, InterruptRerun})
       ''%s: on_interrupt %q must be abandon or rerun'' [w, ec_on_interrupt e]
     @ fail_if (ec_max_attempts e < 1) ''%s: max_attempts must be at least 1'' [w]
     @ fail_if (ec_stdin e \<notin> {StdinNone, StdinPayload}) ''%s: stdin %q must be none or payload'' [w, ec_stdin e]
     @ fail_if (ec_timeout e < 0) ''%s: timeout must not be negative'' [w]"

definition output_problems :: "string \<Rightarrow> event_config \<Rightarrow> problem list" where
  "output_problems w e =
     (case ec_output e of
        None \<Rightarrow> []
      | Some oc \<Rightarrow>
          if oc_path oc = [] then [(''%s: output.path is required'', [w])]
          else if oc_max_size_mb oc < 0 then [(''%s: output.max_size_mb must not be negative'', [w])]
          else if oc_max_backups oc < 0 then [(''%s: output.max_backups must not be negative'', [w])]
          else [])"

definition stop_problems :: "host \<Rightarrow> string \<Rightarrow> event_config \<Rightarrow> problem list" where
  "stop_problems h w e =
     fail_if (ec_stop_timeout e < 0) ''%s: stop_timeout must not be negative'' [w]
     @ fail_if (rc_args (ec_stop_run e) \<noteq> None \<and> (ec_stop_command e = [] \<or> hd (ec_stop_command e) = []))
       ''%s: the program of stop_command must not be empty'' [w]
     @ fail_if (ec_workdir e \<noteq> [] \<and> \<not> ho_is_dir h (ec_workdir e))
       ''%s: workdir %q is not a directory'' [w, ec_workdir e]"

fun param_problems :: "string \<Rightarrow> string list \<Rightarrow> param list \<Rightarrow> problem list" where
  "param_problems w seen [] = []"
| "param_problems w seen (p # ps) =
     (if \<not> paramNameRe (pa_name p) then
        [(''%s: parameter name %q must be letters, digits and '_', not starting with a digit'', [w, pa_name p])]
      else if pa_name p \<in> set seen then [(''%s: duplicate parameter %s'', [w, pa_name p])]
      else if pa_required p \<and> pa_default p \<noteq> []
        then [(''%s: parameter %s cannot be required and have a default'', [w, pa_name p])]
      else [])
     @ param_problems w (pa_name p # seen) ps"

definition has_required :: "event_config \<Rightarrow> bool" where
  "has_required e = list_ex pa_required (ec_params e)"

section \<open>Triggers\<close>

definition article :: "string \<Rightarrow> string" where
  "article typ = (if HasPrefix typ ''a'' then ''an'' else ''a'')"

text \<open>What the triggers of an event share, and the webhook paths of the whole config.\<close>

record trigger_seen =
  ts_seen :: "string list"
  ts_follows :: "string list"
  ts_hooks :: "string list"

definition key_problems :: "string \<Rightarrow> trigger \<Rightarrow> problem list" where
  "key_problems tw t =
     (case triggerKeys (tr_type t) of
        None \<Rightarrow> []
      | Some allowed \<Rightarrow>
          concat (map (\<lambda>key. fail_if (key \<notin> set allowed) ''%s: %s is not allowed on %s %s trigger''
            [tw, key, article (tr_type t), tr_type t]) (setKeys t)))"

definition single_check :: "string \<Rightarrow> bool \<Rightarrow> trigger \<Rightarrow> trigger_seen \<Rightarrow> problem list \<times> trigger_seen" where
  "single_check tw required t s =
     (fail_if (tr_type t \<in> set (ts_seen s)) ''%s: the event already has a %s trigger'' [tw, tr_type t]
      @ fail_if (tr_type t \<noteq> TriggerManual \<and> required)
          ''%s: a %s trigger cannot supply required parameters'' [tw, tr_type t],
      s\<lparr>ts_seen := tr_type t # ts_seen s\<rparr>)"

definition cron_problems :: "(string \<Rightarrow> string \<Rightarrow> string + cron_schedule) \<Rightarrow> string \<Rightarrow> bool \<Rightarrow> trigger \<Rightarrow> problem list" where
  "cron_problems parse tw required t =
     (if tr_schedule t = [] then [(''%s: schedule is required'', [tw])]
      else (case parse (tr_schedule t) (tr_timezone t) of
              Inl err \<Rightarrow> [(''%s: schedule %q: %v'', [tw, tr_schedule t, err])]
            | Inr _ \<Rightarrow> []))
     @ fail_if (tr_missed t \<noteq> MissedRun \<and> tr_missed t \<noteq> MissedSkip)
         ''%s: missed %q must be run or skip'' [tw, tr_missed t]
     @ fail_if required ''%s: a cron trigger cannot supply required parameters'' [tw]"

definition webhook_check :: "string \<Rightarrow> trigger \<Rightarrow> trigger_seen \<Rightarrow> problem list \<times> trigger_seen" where
  "webhook_check tw t s =
     (let methods = concat (map (\<lambda>m. fail_if (m = []) ''%s: methods must not contain an empty entry'' [tw])
            (tr_methods t))
      in if tr_path t = [] then ((''%s: path is required'', [tw]) # methods, s)
         else if \<not> HasPrefix (tr_path t) ''/'' then ((''%s: path %q must start with /'', [tw, tr_path t]) # methods, s)
         else if tr_path t = ''/healthz'' then ((''%s: path /healthz is reserved'', [tw]) # methods, s)
         else if tr_path t \<in> set (ts_hooks s)
           then ((''%s: path %q is used by another trigger'', [tw, tr_path t]) # methods, s)
         else (methods, s\<lparr>ts_hooks := tr_path t # ts_hooks s\<rparr>))"

definition file_problems :: "host \<Rightarrow> string \<Rightarrow> bool \<Rightarrow> trigger \<Rightarrow> problem list" where
  "file_problems h tw required t =
     (if tr_path t = [] then [(''%s: path is required'', [tw])]
      else fail_if (\<not> ho_is_dir h (tr_path t)) ''%s: path %q is not a directory'' [tw, tr_path t])
     @ concat (map (\<lambda>ch. fail_if (ch \<notin> set ValidFileOps) ''%s: unknown change %q (valid: %s)''
         [tw, ch, Join ValidFileOps '', '']) (tr_changes t))
     @ fail_if (tr_debounce t < 0) ''%s: debounce must not be negative'' [tw]
     @ fail_if required ''%s: a file trigger cannot supply required parameters'' [tw]"

fun status_problems :: "string \<Rightarrow> string list \<Rightarrow> string list \<Rightarrow> problem list" where
  "status_problems tw seen [] = []"
| "status_problems tw seen (st # sts) =
     (if st \<notin> set AfterStatuses
      then [(''%s: unknown status %q (valid: %s)'', [tw, st, Join AfterStatuses '', ''])]
      else if st \<in> set seen then [(''%s: duplicate status %s'', [tw, st])]
      else [])
     @ status_problems tw (st # seen) sts"

definition after_check :: "string list \<Rightarrow> string \<Rightarrow> string \<Rightarrow> bool \<Rightarrow> trigger \<Rightarrow> trigger_seen
    \<Rightarrow> problem list \<times> trigger_seen" where
  "after_check defined name tw required t s =
     ((if tr_event t = [] then [(''%s: event is required: the event whose runs this trigger follows'', [tw])]
       else if tr_event t = name then [(''%s: an event cannot follow itself'', [tw])]
       else if tr_event t \<notin> set defined then [(''%s: unknown event %q'', [tw, tr_event t])]
       else if tr_event t \<in> set (ts_follows s) then [(''%s: the event already follows %s'', [tw, tr_event t])]
       else [])
      @ fail_if (tr_status t = []) ''%s: status is required: the statuses of the runs that fire the event (%s)''
          [tw, Join AfterStatuses '', '']
      @ status_problems tw [] (tr_status t)
      @ fail_if required ''%s: an after trigger cannot supply required parameters'' [tw],
      s\<lparr>ts_follows := tr_event t # ts_follows s\<rparr>)"

definition check_trigger :: "host \<Rightarrow> (string \<Rightarrow> string \<Rightarrow> string + cron_schedule) \<Rightarrow> string list \<Rightarrow> event_config
    \<Rightarrow> string \<Rightarrow> trigger \<Rightarrow> trigger_seen \<Rightarrow> problem list \<times> trigger_seen" where
  "check_trigger h parse defined e tw t s =
     (let required = has_required e;
          (errs, s') =
            (if tr_type t \<in> {TriggerManual, TriggerStartup, TriggerWake} then single_check tw required t s
             else if tr_type t = TriggerCron then (cron_problems parse tw required t, s)
             else if tr_type t = TriggerWebhook then webhook_check tw t s
             else if tr_type t = TriggerFile then (file_problems h tw required t, s)
             else if tr_type t = TriggerAfter then after_check defined (ec_name e) tw required t s
             else if tr_type t = [] then ([(''%s: type is required (%s)'', [tw, triggerTypes])], s)
             else ([(''%s: unknown type %q (%s)'', [tw, tr_type t, triggerTypes])], s))
      in (key_problems tw t @ errs, s'))"

fun check_triggers :: "host \<Rightarrow> (string \<Rightarrow> string \<Rightarrow> string + cron_schedule) \<Rightarrow> string list \<Rightarrow> event_config
    \<Rightarrow> string \<Rightarrow> nat \<Rightarrow> trigger list \<Rightarrow> trigger_seen \<Rightarrow> problem list \<times> trigger_seen" where
  "check_triggers h parse defined e w k [] s = ([], s)"
| "check_triggers h parse defined e w k (t # ts) s =
     (case check_trigger h parse defined e (w @ '' triggers['' @ Itoa (int k) @ '']'') t s of (errs, s') \<Rightarrow>
      case check_triggers h parse defined e w (Suc k) ts s' of (errs', s'') \<Rightarrow> (errs @ errs', s''))"

section \<open>The whole configuration\<close>

definition check_event :: "host \<Rightarrow> (string \<Rightarrow> string \<Rightarrow> string + cron_schedule) \<Rightarrow> config \<Rightarrow> event_config
    \<Rightarrow> (string \<rightharpoonup> string) \<times> string list \<Rightarrow> problem list \<times> (string \<rightharpoonup> string) \<times> string list" where
  "check_event h parse c e st =
     (case st of (names, hooks) \<Rightarrow>
      case check_name h c names e of (errs, w, names') \<Rightarrow>
      case check_triggers h parse (map ec_name (cf_events c)) e w 0 (ec_triggers e)
             \<lparr>ts_seen = [], ts_follows = [], ts_hooks = hooks\<rparr> of (terrs, s) \<Rightarrow>
        (errs @ command_problems w e @ policy_problems w e @ output_problems w e @ stop_problems h w e
           @ param_problems w [] (ec_params e)
           @ fail_if (ec_triggers e = [])
               ''%s: triggers is required, with at least one trigger; a manual trigger (- type: manual) lets kickd event fire the event'' [w]
           @ terrs,
         names', ts_hooks s))"

fun check_events :: "host \<Rightarrow> (string \<Rightarrow> string \<Rightarrow> string + cron_schedule) \<Rightarrow> config \<Rightarrow> event_config list
    \<Rightarrow> (string \<rightharpoonup> string) \<times> string list \<Rightarrow> problem list" where
  "check_events h parse c [] st = []"
| "check_events h parse c (e # es) st =
     (case check_event h parse c e st of (errs, st') \<Rightarrow> errs @ check_events h parse c es st')"

definition validate :: "host \<Rightarrow> (string \<Rightarrow> string \<Rightarrow> string + cron_schedule) \<Rightarrow> config \<Rightarrow> problem list" where
  "validate h parse c =
     setting_problems c @ check_events h parse c (cf_events c) (Map.empty, [])
     @ (let cycle = afterCycle (cf_events c) in
        fail_if (cycle \<noteq> []) ''after triggers form a cycle, in which each run fires the next one forever: %s'' [cycle])"

end
