(* ===== verification/ConfigProps.thy ===== *)
theory ConfigProps
  imports ConfigCheck
begin

text \<open>
  What a configuration that passes \<open>validate\<close> satisfies, as an equivalence with a description of
  well-formed configurations, and the behaviour of the parameters and the defaults of an event.
\<close>

section \<open>Well-formed configurations\<close>

definition single_types :: "string set" where
  "single_types = {TriggerManual, TriggerStartup, TriggerWake}"

definition trigger_ok :: "host \<Rightarrow> (string \<Rightarrow> string \<Rightarrow> string + cron_schedule) \<Rightarrow> string list \<Rightarrow> event_config
    \<Rightarrow> trigger \<Rightarrow> bool" where
  "trigger_ok h parse defined e t \<longleftrightarrow>
     (\<exists>allowed. triggerKeys (tr_type t) = Some allowed \<and> set (setKeys t) \<subseteq> set allowed) \<and>
     (has_required e \<longrightarrow> tr_type t = TriggerManual \<or> tr_type t = TriggerWebhook) \<and>
     (tr_type t = TriggerCron \<longrightarrow> tr_schedule t \<noteq> [] \<and> is_ok (parse (tr_schedule t) (tr_timezone t)) \<and>
        tr_missed t \<in> {MissedRun, MissedSkip}) \<and>
     (tr_type t = TriggerWebhook \<longrightarrow> HasPrefix (tr_path t) ''/'' \<and> tr_path t \<noteq> ''/healthz'' \<and> [] \<notin> set (tr_methods t)) \<and>
     (tr_type t = TriggerFile \<longrightarrow> tr_path t \<noteq> [] \<and> ho_is_dir h (tr_path t) \<and>
        set (tr_changes t) \<subseteq> set ValidFileOps \<and> 0 \<le> tr_debounce t) \<and>
     (tr_type t = TriggerAfter \<longrightarrow> tr_event t \<noteq> [] \<and> tr_event t \<noteq> ec_name e \<and> tr_event t \<in> set defined \<and>
        tr_status t \<noteq> [] \<and> set (tr_status t) \<subseteq> set AfterStatuses \<and> distinct (tr_status t))"

definition singles :: "trigger list \<Rightarrow> string list" where
  "singles ts = filter (\<lambda>ty. ty \<in> single_types) (map tr_type ts)"

definition after_targets :: "trigger list \<Rightarrow> string list" where
  "after_targets ts = map tr_event (filter (\<lambda>t. tr_type t = TriggerAfter) ts)"

definition hook_paths :: "trigger list \<Rightarrow> string list" where
  "hook_paths ts = map tr_path (filter (\<lambda>t. tr_type t = TriggerWebhook) ts)"

definition params_ok :: "param list \<Rightarrow> bool" where
  "params_ok ps \<longleftrightarrow> list_all (\<lambda>p. paramNameRe (pa_name p) \<and> \<not> (pa_required p \<and> pa_default p \<noteq> [])) ps \<and>
     distinct (map pa_name ps)"

definition event_ok :: "host \<Rightarrow> (string \<Rightarrow> string \<Rightarrow> string + cron_schedule) \<Rightarrow> string list \<Rightarrow> event_config \<Rightarrow> bool" where
  "event_ok h parse defined e \<longleftrightarrow>
     eventNameRe (ec_name e) \<and>
     (if ec_command e = [] then ec_shell e \<noteq> [] else hd (ec_command e) \<noteq> []) \<and>
     ec_concurrency e \<in> {ConcurrencySkip, ConcurrencyQueue, ConcurrencyParallel, ConcurrencyReplace} \<and>
     ec_restart e \<in> {RestartNever, RestartOnFailure, RestartAlways} \<and>
     0 \<le> ec_restart_delay e \<and> ec_restart_delay e \<le> ec_restart_max_delay e \<and>
     ec_on_interrupt e \<in> {InterruptAbandon, InterruptRerun} \<and> 1 \<le> ec_max_attempts e \<and>
     ec_stdin e \<in> {StdinNone, StdinPayload} \<and> 0 \<le> ec_timeout e \<and> 0 \<le> ec_stop_timeout e \<and>
     (case ec_output e of None \<Rightarrow> True
      | Some oc \<Rightarrow> oc_path oc \<noteq> [] \<and> 0 \<le> oc_max_size_mb oc \<and> 0 \<le> oc_max_backups oc) \<and>
     (rc_args (ec_stop_run e) \<noteq> None \<longrightarrow> ec_stop_command e \<noteq> [] \<and> hd (ec_stop_command e) \<noteq> []) \<and>
     (ec_workdir e \<noteq> [] \<longrightarrow> ho_is_dir h (ec_workdir e)) \<and>
     params_ok (ec_params e) \<and>
     ec_triggers e \<noteq> [] \<and> list_all (trigger_ok h parse defined e) (ec_triggers e) \<and>
     distinct (singles (ec_triggers e)) \<and> distinct (after_targets (ec_triggers e))"

definition settings_ok :: "config \<Rightarrow> bool" where
  "settings_ok c \<longleftrightarrow>
     lc_level (cf_log c) \<in> set logLevels \<and> lc_format (cf_log c) \<in> set logFormats \<and>
     0 \<le> lc_max_size_mb (cf_log c) \<and> 0 \<le> lc_max_backups (cf_log c) \<and> 0 \<le> dc_retention (cf_database c)"

definition config_ok :: "host \<Rightarrow> (string \<Rightarrow> string \<Rightarrow> string + cron_schedule) \<Rightarrow> config \<Rightarrow> bool" where
  "config_ok h parse c \<longleftrightarrow>
     settings_ok c \<and> cf_events c \<noteq> [] \<and>
     list_all (event_ok h parse (map ec_name (cf_events c))) (cf_events c) \<and>
     distinct (map ec_name (cf_events c)) \<and>
     distinct (concat (map (\<lambda>e. hook_paths (ec_triggers e)) (cf_events c))) \<and>
     acyclic {(a, b). b \<in> set (follows_of (cf_events c) a)}"

section \<open>One trigger\<close>

lemma concat_fail_if_Nil: "concat (map (\<lambda>x. fail_if (P x) f (g x)) xs) = [] \<longleftrightarrow> (\<forall>x \<in> set xs. \<not> P x)"
  by (induction xs) auto

lemma concat_fail_if_Nil2: "[] = concat (map (\<lambda>x. fail_if (P x) f (g x)) xs) \<longleftrightarrow> (\<forall>x \<in> set xs. \<not> P x)"
  using concat_fail_if_Nil by (metis (mono_tags, lifting))

lemma status_problems_Nil:
  "status_problems tw seen sts = [] \<longleftrightarrow>
    set sts \<subseteq> set AfterStatuses \<and> distinct sts \<and> set sts \<inter> set seen = {}"
  by (induction sts arbitrary: seen) auto

lemma param_problems_Nil:
  "param_problems w seen ps = [] \<longleftrightarrow> params_ok ps \<and> set (map pa_name ps) \<inter> set seen = {}"
  by (induction ps arbitrary: seen) (auto simp: params_ok_def)

lemma key_problems_Nil:
  "triggerKeys (tr_type t) = Some allowed \<Longrightarrow> key_problems tw t = [] \<longleftrightarrow> set (setKeys t) \<subseteq> set allowed"
  by (auto simp: key_problems_def concat_fail_if_Nil)

lemma triggerKeys_known:
  "triggerKeys ty \<noteq> None \<longleftrightarrow>
    ty \<in> single_types \<or> ty = TriggerCron \<or> ty = TriggerWebhook \<or> ty = TriggerFile \<or> ty = TriggerAfter"
  by (auto simp: triggerKeys_def single_types_def)

text \<open>What the shared state must allow, and how it grows.\<close>

definition fits :: "trigger \<Rightarrow> trigger_seen \<Rightarrow> bool" where
  "fits t s \<longleftrightarrow>
     (tr_type t \<in> single_types \<longrightarrow> tr_type t \<notin> set (ts_seen s)) \<and>
     (tr_type t = TriggerAfter \<longrightarrow> tr_event t \<notin> set (ts_follows s)) \<and>
     (tr_type t = TriggerWebhook \<longrightarrow> tr_path t \<notin> set (ts_hooks s))"

definition after_trigger_seen :: "trigger \<Rightarrow> trigger_seen \<Rightarrow> trigger_seen" where
  "after_trigger_seen t s =
     \<lparr>ts_seen = rev (singles [t]) @ ts_seen s, ts_follows = rev (after_targets [t]) @ ts_follows s,
      ts_hooks = rev (hook_paths [t]) @ ts_hooks s\<rparr>"

lemma HasPrefix_Nil [simp]: "HasPrefix [] (c # cs) = False"
  by (simp add: HasPrefix_def)

lemmas kind_defs = single_types_def singles_def after_targets_def hook_paths_def

lemma check_trigger_ok:
  "fst (check_trigger h parse defined e tw t s) = [] \<longleftrightarrow> trigger_ok h parse defined e t \<and> fits t s"
proof (cases "triggerKeys (tr_type t)")
  case None
  then have "tr_type t \<notin> single_types \<and> tr_type t \<noteq> TriggerCron \<and> tr_type t \<noteq> TriggerWebhook \<and>
      tr_type t \<noteq> TriggerFile \<and> tr_type t \<noteq> TriggerAfter"
    using triggerKeys_known by blast
  with None show ?thesis by (auto simp: check_trigger_def trigger_ok_def single_types_def)
next
  case (Some allowed)
  note keys = key_problems_Nil [OF Some, of tw]
  from Some triggerKeys_known consider (single) "tr_type t \<in> single_types" | (cron) "tr_type t = TriggerCron"
    | (webhook) "tr_type t = TriggerWebhook" | (files) "tr_type t = TriggerFile" | (after) "tr_type t = TriggerAfter"
    by blast
  then show ?thesis
  proof cases
    case single
    then show ?thesis using Some keys
      by (auto simp: check_trigger_def single_check_def trigger_ok_def fits_def single_types_def)
  next
    case cron
    then show ?thesis using Some keys
      by (auto simp: check_trigger_def cron_problems_def trigger_ok_def fits_def single_types_def split: sum.splits)
  next
    case webhook
    then show ?thesis using Some keys
      by (auto simp: check_trigger_def webhook_check_def trigger_ok_def fits_def single_types_def Let_def
          concat_fail_if_Nil)
  next
    case files
    then show ?thesis using Some keys
      by (auto simp: check_trigger_def file_problems_def trigger_ok_def fits_def single_types_def concat_fail_if_Nil)
  next
    case after
    then show ?thesis using Some keys
      by (auto simp: check_trigger_def after_check_def trigger_ok_def fits_def single_types_def status_problems_Nil)
  qed
qed

lemma check_trigger_state:
  "trigger_ok h parse defined e t \<Longrightarrow> fits t s \<Longrightarrow>
    snd (check_trigger h parse defined e tw t s) = after_trigger_seen t s"
  by (auto simp: check_trigger_def trigger_ok_def fits_def after_trigger_seen_def kind_defs single_check_def
      webhook_check_def after_check_def Let_def triggerKeys_def split: if_splits)

section \<open>All triggers and all events\<close>

definition fits_all :: "trigger list \<Rightarrow> trigger_seen \<Rightarrow> bool" where
  "fits_all ts s \<longleftrightarrow>
     distinct (singles ts) \<and> set (singles ts) \<inter> set (ts_seen s) = {} \<and>
     distinct (after_targets ts) \<and> set (after_targets ts) \<inter> set (ts_follows s) = {} \<and>
     distinct (hook_paths ts) \<and> set (hook_paths ts) \<inter> set (ts_hooks s) = {}"

lemma kinds_Cons:
  "singles (t # ts) = singles [t] @ singles ts"
  "after_targets (t # ts) = after_targets [t] @ after_targets ts"
  "hook_paths (t # ts) = hook_paths [t] @ hook_paths ts"
  by (simp_all add: singles_def after_targets_def hook_paths_def)

lemma fits_single: "fits t s \<longleftrightarrow> fits_all [t] s"
  by (auto simp: fits_def fits_all_def singles_def after_targets_def hook_paths_def)

lemma fits_all_Cons:
  "fits_all (t # ts) s \<longleftrightarrow> fits t s \<and> fits_all ts (after_trigger_seen t s)"
  unfolding fits_single fits_all_def kinds_Cons [of t ts] after_trigger_seen_def
  by (simp add: singles_def after_targets_def hook_paths_def) blast

lemma check_triggers_ok:
  "fst (check_triggers h parse defined e w k ts s) = [] \<longleftrightarrow>
    list_all (trigger_ok h parse defined e) ts \<and> fits_all ts s"
  "list_all (trigger_ok h parse defined e) ts \<Longrightarrow> fits_all ts s \<Longrightarrow>
    ts_hooks (snd (check_triggers h parse defined e w k ts s)) = rev (hook_paths ts) @ ts_hooks s"
proof (induction ts arbitrary: k s)
  case Nil
  {
    case 1
    show ?case by (simp add: fits_all_def singles_def after_targets_def hook_paths_def)
  next
    case 2
    show ?case by (simp add: hook_paths_def)
  }
next
  case (Cons t ts)
  have step: "fst (check_triggers h parse defined e w k (t # ts) s) = [] \<longleftrightarrow>
        trigger_ok h parse defined e t \<and> fits t s \<and>
        fst (check_triggers h parse defined e w (Suc k) ts (after_trigger_seen t s)) = []"
    and hooks: "trigger_ok h parse defined e t \<Longrightarrow> fits t s \<Longrightarrow>
        ts_hooks (snd (check_triggers h parse defined e w k (t # ts) s)) =
        ts_hooks (snd (check_triggers h parse defined e w (Suc k) ts (after_trigger_seen t s)))" for k s
  proof -
    let ?tw = "w @ '' triggers['' @ Itoa (int k) @ '']''"
    obtain errs s1 where c: "check_trigger h parse defined e ?tw t s = (errs, s1)" by fastforce
    have e: "errs = [] \<longleftrightarrow> trigger_ok h parse defined e t \<and> fits t s"
      using check_trigger_ok [of h parse defined e ?tw t s] c by simp
    have s1: "trigger_ok h parse defined e t \<Longrightarrow> fits t s \<Longrightarrow> s1 = after_trigger_seen t s"
      using check_trigger_state [of h parse defined e t s ?tw] c by simp
    show "fst (check_triggers h parse defined e w k (t # ts) s) = [] \<longleftrightarrow>
        trigger_ok h parse defined e t \<and> fits t s \<and>
        fst (check_triggers h parse defined e w (Suc k) ts (after_trigger_seen t s)) = []"
      using e s1 c by (cases "errs = []") (auto split: prod.split)
    show "trigger_ok h parse defined e t \<Longrightarrow> fits t s \<Longrightarrow>
        ts_hooks (snd (check_triggers h parse defined e w k (t # ts) s)) =
        ts_hooks (snd (check_triggers h parse defined e w (Suc k) ts (after_trigger_seen t s)))"
      using s1 c by (simp split: prod.split)
  qed
  {
    case 1
    show ?case unfolding step Cons.IH(1) by (auto simp: fits_all_Cons)
  next
    case 2
    then have t: "trigger_ok h parse defined e t" "fits t s" "fits_all ts (after_trigger_seen t s)"
      "list_all (trigger_ok h parse defined e) ts" by (simp_all add: fits_all_Cons)
    show ?case
      by (simp only: hooks [OF t(1,2)] Cons.IH(2) [OF t(4,3)] kinds_Cons(3) [of t ts])
         (simp add: after_trigger_seen_def)
  }
qed

lemma check_name_ok:
  assumes "check_name h c names e = (errs, w, names')"
  shows "errs = [] \<longleftrightarrow> eventNameRe (ec_name e) \<and> names (ec_name e) = None"
    and "errs = [] \<Longrightarrow> names' = names(ec_name e \<mapsto> ec_file e)"
proof -
  have "eventNameRe [] = False" by (simp add: eventNameRe_def)
  with assms show "errs = [] \<longleftrightarrow> eventNameRe (ec_name e) \<and> names (ec_name e) = None"
    by (auto simp: check_name_def Let_def split: if_splits option.splits)
  show "errs = [] \<Longrightarrow> names' = names(ec_name e \<mapsto> ec_file e)"
    using assms by (auto simp: check_name_def Let_def split: if_splits)
qed

definition local_ok :: "host \<Rightarrow> event_config \<Rightarrow> bool" where
  "local_ok h e \<longleftrightarrow>
     (if ec_command e = [] then ec_shell e \<noteq> [] else hd (ec_command e) \<noteq> []) \<and>
     ec_concurrency e \<in> {ConcurrencySkip, ConcurrencyQueue, ConcurrencyParallel, ConcurrencyReplace} \<and>
     ec_restart e \<in> {RestartNever, RestartOnFailure, RestartAlways} \<and>
     0 \<le> ec_restart_delay e \<and> ec_restart_delay e \<le> ec_restart_max_delay e \<and>
     ec_on_interrupt e \<in> {InterruptAbandon, InterruptRerun} \<and> 1 \<le> ec_max_attempts e \<and>
     ec_stdin e \<in> {StdinNone, StdinPayload} \<and> 0 \<le> ec_timeout e \<and> 0 \<le> ec_stop_timeout e \<and>
     (case ec_output e of None \<Rightarrow> True
      | Some oc \<Rightarrow> oc_path oc \<noteq> [] \<and> 0 \<le> oc_max_size_mb oc \<and> 0 \<le> oc_max_backups oc) \<and>
     (rc_args (ec_stop_run e) \<noteq> None \<longrightarrow> ec_stop_command e \<noteq> [] \<and> hd (ec_stop_command e) \<noteq> []) \<and>
     (ec_workdir e \<noteq> [] \<longrightarrow> ho_is_dir h (ec_workdir e)) \<and>
     params_ok (ec_params e) \<and> ec_triggers e \<noteq> []"

lemma command_problems_Nil:
  "command_problems w e = [] \<longleftrightarrow> (if ec_command e = [] then ec_shell e \<noteq> [] else hd (ec_command e) \<noteq> [])"
  by (simp add: command_problems_def)

lemma policy_problems_Nil:
  "policy_problems w e = [] \<longleftrightarrow>
     ec_concurrency e \<in> {ConcurrencySkip, ConcurrencyQueue, ConcurrencyParallel, ConcurrencyReplace} \<and>
     ec_restart e \<in> {RestartNever, RestartOnFailure, RestartAlways} \<and>
     0 \<le> ec_restart_delay e \<and> ec_restart_delay e \<le> ec_restart_max_delay e \<and>
     ec_on_interrupt e \<in> {InterruptAbandon, InterruptRerun} \<and> 1 \<le> ec_max_attempts e \<and>
     ec_stdin e \<in> {StdinNone, StdinPayload} \<and> 0 \<le> ec_timeout e"
  by (simp only: policy_problems_def append_is_Nil_conv fail_if_Nil not_not not_less)

lemma output_problems_Nil:
  "output_problems w e = [] \<longleftrightarrow> (case ec_output e of None \<Rightarrow> True
      | Some oc \<Rightarrow> oc_path oc \<noteq> [] \<and> 0 \<le> oc_max_size_mb oc \<and> 0 \<le> oc_max_backups oc)"
  by (auto simp: output_problems_def split: option.split)

lemma stop_problems_Nil:
  "stop_problems h w e = [] \<longleftrightarrow> 0 \<le> ec_stop_timeout e \<and>
     (rc_args (ec_stop_run e) \<noteq> None \<longrightarrow> ec_stop_command e \<noteq> [] \<and> hd (ec_stop_command e) \<noteq> []) \<and>
     (ec_workdir e \<noteq> [] \<longrightarrow> ho_is_dir h (ec_workdir e))"
  by (auto simp: stop_problems_def)

lemmas event_problems_Nil = command_problems_Nil policy_problems_Nil output_problems_Nil stop_problems_Nil
  param_problems_Nil

lemma check_event_ok:
  assumes "check_event h parse c e (names, hooks) = (errs, names', hooks')"
  shows "errs = [] \<longleftrightarrow> event_ok h parse (map ec_name (cf_events c)) e \<and> names (ec_name e) = None \<and>
      distinct (hook_paths (ec_triggers e)) \<and> set (hook_paths (ec_triggers e)) \<inter> set hooks = {}"
    and "errs = [] \<Longrightarrow> names' = names(ec_name e \<mapsto> ec_file e) \<and> hooks' = rev (hook_paths (ec_triggers e)) @ hooks"
proof -
  let ?defined = "map ec_name (cf_events c)" and ?s = "\<lparr>ts_seen = [], ts_follows = [], ts_hooks = hooks\<rparr>"
  obtain nerrs w n1 where n: "check_name h c names e = (nerrs, w, n1)" by (metis prod_cases3)
  obtain terrs s1 where t: "check_triggers h parse ?defined e w 0 (ec_triggers e) ?s = (terrs, s1)" by fastforce
  have terrs: "terrs = [] \<longleftrightarrow> list_all (trigger_ok h parse ?defined e) (ec_triggers e) \<and> fits_all (ec_triggers e) ?s"
    using check_triggers_ok(1) [of h parse ?defined e w 0 "ec_triggers e" ?s] t by simp
  have all: "errs = nerrs @ command_problems w e @ policy_problems w e @ output_problems w e @ stop_problems h w e
      @ param_problems w [] (ec_params e)
      @ fail_if (ec_triggers e = [])
          ''%s: triggers is required, with at least one trigger; a manual trigger (- type: manual) lets kickd event fire the event'' [w]
      @ terrs"
    and out: "names' = n1" "hooks' = ts_hooks s1"
    using assms n t by (simp_all add: check_event_def)
  have parts: "errs = [] \<longleftrightarrow> nerrs = [] \<and> local_ok h e \<and> terrs = []"
    unfolding all append_is_Nil_conv event_problems_Nil fail_if_Nil local_ok_def
    by (simp only: list.set(1) Int_empty_right simp_thms conj_ac)
  have ev: "event_ok h parse ?defined e \<longleftrightarrow> eventNameRe (ec_name e) \<and> local_ok h e \<and>
      list_all (trigger_ok h parse ?defined e) (ec_triggers e) \<and>
      distinct (singles (ec_triggers e)) \<and> distinct (after_targets (ec_triggers e))"
    unfolding event_ok_def local_ok_def by (simp only: conj_ac)
  show "errs = [] \<longleftrightarrow> event_ok h parse ?defined e \<and> names (ec_name e) = None \<and>
      distinct (hook_paths (ec_triggers e)) \<and> set (hook_paths (ec_triggers e)) \<inter> set hooks = {}"
    using parts terrs check_name_ok(1) [OF n] ev by (auto simp: fits_all_def)
  assume "errs = []"
  with parts have "nerrs = []" "terrs = []" by auto
  with terrs check_name_ok(2) [OF n] check_triggers_ok(2) [of h parse ?defined e "ec_triggers e" ?s w 0] t out
  show "names' = names(ec_name e \<mapsto> ec_file e) \<and> hooks' = rev (hook_paths (ec_triggers e)) @ hooks"
    by simp
qed

definition all_hooks :: "event_config list \<Rightarrow> string list" where
  "all_hooks es = concat (map (\<lambda>e. hook_paths (ec_triggers e)) es)"

lemma check_events_ok:
  "check_events h parse c es (names, hooks) = [] \<longleftrightarrow>
    list_all (event_ok h parse (map ec_name (cf_events c))) es \<and>
    distinct (map ec_name es) \<and> (\<forall>e \<in> set es. names (ec_name e) = None) \<and>
    distinct (all_hooks es) \<and> set (all_hooks es) \<inter> set hooks = {}"
proof (induction es arbitrary: names hooks)
  case Nil
  show ?case by (simp add: all_hooks_def)
next
  case (Cons e es)
  obtain errs names' hooks' where c: "check_event h parse c e (names, hooks) = (errs, names', hooks')"
    by (metis prod_cases3)
  note ok = check_event_ok [OF c]
  show ?case
  proof (cases "errs = []")
    case True
    with ok have E: "event_ok h parse (map ec_name (cf_events c)) e" "names (ec_name e) = None"
      "distinct (hook_paths (ec_triggers e))" "set (hook_paths (ec_triggers e)) \<inter> set hooks = {}"
      "names' = names(ec_name e \<mapsto> ec_file e)" "hooks' = rev (hook_paths (ec_triggers e)) @ hooks" by simp_all
    have "check_events h parse c (e # es) (names, hooks) = [] \<longleftrightarrow> check_events h parse c es (names', hooks') = []"
      using c True by simp
    also have "\<dots> \<longleftrightarrow> list_all (event_ok h parse (map ec_name (cf_events c))) es \<and>
        distinct (map ec_name es) \<and> (\<forall>x \<in> set es. names' (ec_name x) = None) \<and>
        distinct (all_hooks es) \<and> set (all_hooks es) \<inter> set hooks' = {}" by (rule Cons.IH)
    also have "\<dots> \<longleftrightarrow> list_all (event_ok h parse (map ec_name (cf_events c))) es \<and>
        distinct (map ec_name (e # es)) \<and> (\<forall>x \<in> set (e # es). names (ec_name x) = None) \<and>
        distinct (all_hooks (e # es)) \<and> set (all_hooks (e # es)) \<inter> set hooks = {}"
      using E(2,3,4) unfolding E(5,6) all_hooks_def
      by (auto simp: image_iff split: if_splits)
    finally show ?thesis using E(1) by simp
  next
    case False
    with c ok(1) show ?thesis by (auto simp: all_hooks_def)
  qed
qed

lemma validate_config_ok:
  "(validate h parse c = []) = config_ok h parse c"
proof -
  have s: "setting_problems c = [] \<longleftrightarrow> settings_ok c \<and> cf_events c \<noteq> []"
    by (simp add: setting_problems_def settings_ok_def not_less)
  have e: "check_events h parse c (cf_events c) (Map.empty, []) = [] \<longleftrightarrow>
      list_all (event_ok h parse (map ec_name (cf_events c))) (cf_events c) \<and>
      distinct (map ec_name (cf_events c)) \<and> distinct (all_hooks (cf_events c))"
    by (simp add: check_events_ok)
  have v: "validate h parse c = [] \<longleftrightarrow> setting_problems c = [] \<and>
      check_events h parse c (cf_events c) (Map.empty, []) = [] \<and> afterCycle (cf_events c) = []"
    by (simp add: validate_def Let_def)
  show ?thesis
    unfolding v s e afterCycle_empty config_ok_def edges_def all_hooks_def by blast
qed

text \<open>
  C9: A configuration passes every check exactly when it is well formed: the settings are in range;
  there is an event; the names of the events match their pattern and are distinct over all files;
  every event has a command, known policies, non-negative delays in order, at least one attempt and
  a trigger; its parameters have distinct valid names, none required with a default; every trigger
  has a known type, only keys of its type, a schedule that parses, an existing directory, or an
  existing other event with known distinct statuses; there is at most one manual, startup and wake
  trigger and one after trigger for each event followed; no required parameter is left to a trigger
  that cannot give it; no webhook path is reserved or used twice in the whole configuration; and
  the after triggers form no cycle.\<close>
theorem validate_iff_well_formed:
  "(validate h parse c = []) = config_ok h parse c"
  by (rule validate_config_ok)

section \<open>Parameters\<close>

definition fill_param :: "string \<Rightarrow> param \<Rightarrow> strmap \<times> param_error list \<Rightarrow> strmap \<times> param_error list" where
  "fill_param name p acc =
     (case acc of (out, errs) \<Rightarrow>
        if map_of out (pa_name p) \<noteq> None then (out, errs)
        else if pa_required p then (out, errs @ [Required_parameter name (pa_name p)])
        else (AList.update (pa_name p) (pa_default p) out, errs))"

lemma fill_params_fold: "fill_params name ps data = fold (fill_param name) ps (data, [])"
  by (simp add: fill_params_def fill_param_def [abs_def])

lemma fill_param_lookup:
  "map_of (fst (fold (fill_param name) ps acc)) k =
    (case map_of (fst acc) k of Some v \<Rightarrow> Some v
     | None \<Rightarrow> map_option pa_default (find (\<lambda>p. pa_name p = k \<and> \<not> pa_required p) ps))"
proof (induction ps arbitrary: acc)
  case Nil
  then show ?case by (simp split: option.split)
next
  case (Cons p ps)
  then show ?case
    by (cases acc) (auto simp: fill_param_def update_conv' split: option.splits)
qed

lemma fill_param_errors:
  "distinct (map pa_name ps) \<Longrightarrow>
    snd (fold (fill_param name) ps acc) = snd acc @ map (\<lambda>p. Required_parameter name (pa_name p))
      (filter (\<lambda>p. pa_required p \<and> map_of (fst acc) (pa_name p) = None) ps)"
proof (induction ps arbitrary: acc)
  case (Cons p ps)
  have same: "filter (\<lambda>q. pa_required q \<and> map_of (fst (fill_param name p acc)) (pa_name q) = None) ps =
      filter (\<lambda>q. pa_required q \<and> map_of (fst acc) (pa_name q) = None) ps"
    using Cons.prems
    by (intro filter_cong) (auto simp: fill_param_def update_conv' image_iff split: prod.splits)
  have "snd (fold (fill_param name) (p # ps) acc) = snd (fill_param name p acc) @
      map (\<lambda>p. Required_parameter name (pa_name p))
        (filter (\<lambda>q. pa_required q \<and> map_of (fst (fill_param name p acc)) (pa_name q) = None) ps)"
    using Cons by simp
  also have "\<dots> = snd acc @ map (\<lambda>p. Required_parameter name (pa_name p))
      (filter (\<lambda>q. pa_required q \<and> map_of (fst acc) (pa_name q) = None) (p # ps))"
    unfolding same by (cases acc) (auto simp: fill_param_def)
  finally show ?case .
qed simp

lemma fill_param_keys:
  "fst ` set (fst (fold (fill_param name) ps acc)) \<subseteq> fst ` set (fst acc) \<union> pa_name ` set ps \<and>
   fst ` set (fst acc) \<subseteq> fst ` set (fst (fold (fill_param name) ps acc))"
proof (induction ps arbitrary: acc)
  case (Cons p ps)
  have "fst ` set (fst (fill_param name p acc)) \<subseteq> fst ` set (fst acc) \<union> {pa_name p}"
    "fst ` set (fst acc) \<subseteq> fst ` set (fst (fill_param name p acc))"
    by (cases acc; auto simp: fill_param_def dom_update)+
  with Cons.IH [of "fill_param name p acc"] show ?case by (simp add: subset_iff) blast
qed simp

text \<open>
  The data given to an event with validated parameters is accepted exactly when every key is declared
  and every required parameter is given, or, when the event declares none, when every key is a valid
  name; what is accepted keeps the values given and adds each declared parameter that is left out
  with its default; and what is refused names a key of the data or a required parameter that it lacks.\<close>
theorem apply_params:
  assumes "params_ok (ec_params e)"
  shows "case Apply e data of
      Inr out \<Rightarrow>
        (if ec_params e = [] then list_all (\<lambda>(k, v). paramNameRe k) data \<and> out = data
         else list_all (\<lambda>(k, v). k \<in> set (map pa_name (ec_params e))) data \<and>
           list_all (\<lambda>p. \<not> pa_required p \<or> map_of data (pa_name p) \<noteq> None) (ec_params e) \<and>
           (\<forall>k. map_of out k = (case map_of data k of Some v \<Rightarrow> Some v
              | None \<Rightarrow> map_option pa_default (find (\<lambda>p. pa_name p = k \<and> \<not> pa_required p) (ec_params e)))))
    | Inl errs \<Rightarrow>
        (if ec_params e = [] then \<not> list_all (\<lambda>(k, v). paramNameRe k) data
         else list_ex (\<lambda>(k, v). k \<notin> set (map pa_name (ec_params e))) data \<or>
           list_ex (\<lambda>p. pa_required p \<and> map_of data (pa_name p) = None) (ec_params e))"
proof (cases "ec_params e = []")
  case True
  then show ?thesis
    by (auto simp: Apply_def find_None list_all_iff split: option.splits dest!: find_Some_set)
next
  case False
  let ?ps = "ec_params e"
  obtain out errs where f: "fill_params (ec_name e) ?ps data = (out, errs)" by fastforce
  have dist: "distinct (map pa_name ?ps)" using assms by (simp add: params_ok_def)
  have look: "map_of out k = (case map_of data k of Some v \<Rightarrow> Some v
      | None \<Rightarrow> map_option pa_default (find (\<lambda>p. pa_name p = k \<and> \<not> pa_required p) ?ps))" for k
    using fill_param_lookup [of "ec_name e" ?ps "(data, [])" k] f by (simp add: fill_params_fold)
  have errs: "errs = map (\<lambda>p. Required_parameter (ec_name e) (pa_name p))
      (filter (\<lambda>p. pa_required p \<and> map_of data (pa_name p) = None) ?ps)"
    using fill_param_errors [OF dist, of "ec_name e" "(data, [])"] f by (simp add: fill_params_fold)
  have keys: "fst ` set out \<subseteq> fst ` set data \<union> pa_name ` set ?ps" "fst ` set data \<subseteq> fst ` set out"
    using fill_param_keys [of "ec_name e" ?ps "(data, [])"] f by (simp_all add: fill_params_fold)
  have unknown: "filter (\<lambda>(k, v). k \<notin> set (map pa_name ?ps)) out = [] \<longleftrightarrow>
      list_all (\<lambda>(k, v). k \<in> set (map pa_name ?ps)) data"
    using keys by (fastforce simp: filter_empty_conv list_all_iff image_iff)
  have lex: "list_ex (\<lambda>(k, v). k \<notin> set (map pa_name ?ps)) data \<longleftrightarrow>
      \<not> list_all (\<lambda>(k, v). k \<in> set (map pa_name ?ps)) data"
    by (auto simp: list_ex_iff list_all_iff)
  have none: "errs = [] \<longleftrightarrow> list_all (\<lambda>p. \<not> pa_required p \<or> map_of data (pa_name p) \<noteq> None) ?ps"
    "errs = [] \<longleftrightarrow> \<not> list_ex (\<lambda>p. pa_required p \<and> map_of data (pa_name p) = None) ?ps"
    by (auto simp: errs filter_empty_conv list_all_iff list_ex_iff)
  show ?thesis
  proof (cases "errs = [] \<and> list_all (\<lambda>(k, v). k \<in> set (map pa_name ?ps)) data")
    case True
    with unknown have "Apply e data = Inr out" using False f by (simp add: Apply_def Let_def)
    with True none(1) False look show ?thesis by simp
  next
    case no: False
    with unknown have "\<exists>x. Apply e data = Inl x" using False f by (auto simp: Apply_def Let_def)
    with no none(2) lex False show ?thesis by auto
  qed
qed

definition demo_params :: event_config where
  "demo_params = \<lparr>ec_name = ''deploy'', ec_description = [], ec_run = \<lparr>rc_shell = ''make'', rc_args = None\<rparr>,
     ec_workdir = [], ec_env = [], ec_timeout = 0, ec_stop_run = \<lparr>rc_shell = [], rc_args = None\<rparr>,
     ec_stop_timeout = 0, ec_concurrency = ''queue'', ec_restart = ''never'', ec_restart_delay = second,
     ec_restart_max_delay = minute, ec_on_interrupt = ''rerun'', ec_max_attempts = 3, ec_stdin = ''none'',
     ec_log_output = None, ec_output = None,
     ec_params = [\<lparr>pa_name = ''branch'', pa_description = [], pa_required = True, pa_default = []\<rparr>,
                  \<lparr>pa_name = ''env'', pa_description = [], pa_required = False, pa_default = ''test''\<rparr>],
     ec_triggers = [], ec_command = [], ec_shell = ''make'', ec_stop_command = [], ec_stop_shell = [],
     ec_file = [], ec_index = 0\<rparr>"

theorem apply_params_witness:
  "\<exists>out. Apply demo_params [(''branch'', ''main'')] = Inr out \<and>
    map_of out ''branch'' = Some ''main'' \<and> map_of out ''env'' = Some ''test''"
proof -
  have ok: "params_ok (ec_params demo_params)"
    by (simp add: params_ok_def demo_params_def paramNameRe_def is_letter_def is_digit_def Let_def)
  have "is_ok (Apply demo_params [(''branch'', ''main'')])"
    by (simp add: Apply_def demo_params_def fill_params_def Let_def)
  then obtain out where "Apply demo_params [(''branch'', ''main'')] = Inr out" by (auto simp: is_ok_iff)
  with apply_params [OF ok, of "[(''branch'', ''main'')]"] show ?thesis
    by (auto simp: demo_params_def)
qed

end
