(* ===== verification/Wake.thy ===== *)
theory Wake
  imports Events
begin

text \<open>
  Wake triggers (\<^verbatim>\<open>internal/trigger/wake.go\<close>): the watcher compares how long the machine has slept
  since it booted with the reading before, and fires every event of the watcher after a sleep of
  at least a second. The clocks of the system are arguments.
\<close>

definition MinSleep :: duration where "MinSleep = second"

text \<open>\<open>Duration.Round\<close> to a multiple of \<open>m\<close>, halves away from zero, for sums inside an int64.\<close>

definition Round :: "duration \<Rightarrow> duration \<Rightarrow> duration" where
  "Round d m =
     (let r = \<bar>d\<bar> mod m; up = (if r + r < m then \<bar>d\<bar> - r else \<bar>d\<bar> + m - r)
      in if d < 0 then - up else up)"

record wake_state =
  wk_prev :: duration
  wk_prev_at :: gotime

definition wake_event :: "string \<Rightarrow> string \<Rightarrow> gotime \<Rightarrow> gotime \<Rightarrow> duration \<Rightarrow> event" where
  "wake_event request_id name now awake d =
     zero_event\<lparr>ev_request_id := request_id, ev_name := name, ev_trigger := KindWake,
       ev_trigger_id := ''wake'', ev_time := now,
       ev_wake := Some \<lparr>wi_slept_at = awake, wi_slept_seconds = trunc_div (Round d second) second\<rparr>\<rparr>"

text \<open>\<open>fire\<close>: one event for each name, in the order in which the map gives them.\<close>

definition fire_wake :: "(nat \<Rightarrow> string) \<Rightarrow> string list \<Rightarrow> gotime \<Rightarrow> gotime \<Rightarrow> duration \<Rightarrow> event list" where
  "fire_wake ids names now awake d =
     map2 (\<lambda>i name. wake_event (ids i) name now awake d) [0..<length names] names"

definition wake_start :: "gotime \<Rightarrow> duration \<Rightarrow> wake_state" where
  "wake_start now slept = \<lparr>wk_prev = slept, wk_prev_at = now\<rparr>"

text \<open>One tick; \<open>cur\<close> is the reading, or nothing when it failed.\<close>

definition wake_tick :: "(nat \<Rightarrow> string) \<Rightarrow> string list \<Rightarrow> gotime \<Rightarrow> duration option \<Rightarrow> wake_state
    \<Rightarrow> wake_state \<times> event list" where
  "wake_tick ids names now cur s =
     (case cur of
        None \<Rightarrow> (s, [])
      | Some c \<Rightarrow>
          (let d = i64 (c - wk_prev s);
               fired = (if d \<ge> MinSleep then fire_wake ids names now (wk_prev_at s) d else [])
           in (\<lparr>wk_prev = c, wk_prev_at = now\<rparr>, fired)))"

section \<open>Every sleep fires once\<close>

fun wake_run :: "(nat \<Rightarrow> string) \<Rightarrow> string list \<Rightarrow> (gotime \<times> duration option) list \<Rightarrow> wake_state
    \<Rightarrow> event list list" where
  "wake_run ids names [] s = []"
| "wake_run ids names ((now, cur) # ticks) s =
     (case wake_tick ids names now cur s of (s', evs) \<Rightarrow> evs # wake_run ids names ticks s')"

text \<open>The ticks whose reading succeeded, and what each owes against the one before.\<close>

fun readings :: "(gotime \<times> duration option) list \<Rightarrow> (gotime \<times> duration) list" where
  "readings [] = []"
| "readings ((now, None) # ticks) = readings ticks"
| "readings ((now, Some c) # ticks) = (now, c) # readings ticks"

definition owed :: "(nat \<Rightarrow> string) \<Rightarrow> string list \<Rightarrow> (gotime \<times> duration) \<times> (gotime \<times> duration) \<Rightarrow> event list" where
  "owed ids names p =
     (case p of ((awake, c0), (now, c)) \<Rightarrow>
       if i64 (c - c0) \<ge> MinSleep then fire_wake ids names now awake (i64 (c - c0)) else [])"

lemma wake_run_owed:
  "concat (wake_run ids names ticks s) =
    concat (map (owed ids names) (zip ((wk_prev_at s, wk_prev s) # readings ticks) (readings ticks)))"
proof (induction ticks arbitrary: s)
  case (Cons t ticks)
  obtain now cur where t: "t = (now, cur)" by (cases t)
  show ?case
    using Cons by (cases cur) (auto simp: t wake_tick_def Let_def owed_def)
qed simp

text \<open>
  However the ticks of the wake watcher fall and whichever readings of the sleep clock fail, the
  events fired are those of the consecutive readings that succeeded: one for each configured event
  when the machine slept at least a second between them, with that sleep and the time at which it
  was last seen awake. So a failed reading loses no sleep and no sleep fires twice.\<close>
theorem wake_fires_once:
  "concat (wake_run ids names ticks (wake_start now slept)) =
    concat (map (owed ids names) (zip ((now, slept) # readings ticks) (readings ticks))) \<and>
   map ev_name (owed ids names ((now, slept), (t, c))) = (if i64 (c - slept) \<ge> second then names else [])"
proof
  show "concat (wake_run ids names ticks (wake_start now slept)) =
      concat (map (owed ids names) (zip ((now, slept) # readings ticks) (readings ticks)))"
    using wake_run_owed [of ids names ticks "wake_start now slept"] by (simp add: wake_start_def)
  have "map ev_name (fire_wake ids names t now d) = names" for d
    by (rule nth_equalityI) (simp_all add: fire_wake_def wake_event_def)
  then show "map ev_name (owed ids names ((now, slept), (t, c))) = (if i64 (c - slept) \<ge> second then names else [])"
    by (simp add: owed_def MinSleep_def)
qed

end
