(* ===== verification/Agent.thy ===== *)
theory Agent
  imports ConfigProps Wake
begin

text \<open>
  The agent (\<^verbatim>\<open>internal/agent/agent.go\<close>): the specs that the dispatcher gets from a configuration,
  the triggers that a configuration starts, the startup firings, the loop of \<open>Run\<close> with reloads,
  failed triggers and the shutdown, and what the watches of the config files cover.

  \<open>Run\<close> is a state machine: \<open>agent_start\<close> is the part before its loop, \<open>agent_turn\<close> one wait for a
  change with what follows it. Loading a file is the argument of a reload; the database, the
  dispatcher and the trigger goroutines run beside it. Log lines are left out.
\<close>

section \<open>Specs\<close>

definition outputOf :: "event_config \<Rightarrow> output_spec option" where
  "outputOf e =
     map_option (\<lambda>oc. \<lparr>os_path = oc_path oc, os_max_bytes = i64 (oc_max_size_mb oc * 2 ^ 20),
                       os_max_backups = oc_max_backups oc\<rparr>) (ec_output e)"

definition spec_defaults :: "event_config \<Rightarrow> strmap" where
  "spec_defaults e = fold (\<lambda>p m. AList.update (pa_name p) (pa_default p) m) (ec_params e) []"

definition after_triggers :: "event_config \<Rightarrow> after_trigger list" where
  "after_triggers e =
     map (\<lambda>t. \<lparr>at_event = tr_event t, at_statuses = tr_status t\<rparr>)
       (filter (\<lambda>t. tr_type t = TriggerAfter) (ec_triggers e))"

definition spec_of_event :: "strmap \<Rightarrow> event_config \<Rightarrow> spec" where
  "spec_of_event base e =
     \<lparr>sp_name = ec_name e, sp_command = ec_command e, sp_shell = ec_shell e, sp_workdir = ec_workdir e,
      sp_env = ec_env e, sp_base_env = base, sp_timeout = ec_timeout e,
      sp_stop_command = ec_stop_command e, sp_stop_shell = ec_stop_shell e,
      sp_stop_timeout = ec_stop_timeout e, sp_concurrency = ec_concurrency e, sp_restart = ec_restart e,
      sp_restart_delay = ec_restart_delay e, sp_restart_max_delay = ec_restart_max_delay e,
      sp_on_interrupt = ec_on_interrupt e, sp_max_attempts = ec_max_attempts e, sp_stdin = ec_stdin e,
      sp_log_output = LogsOutput e, sp_output = outputOf e, sp_defaults = spec_defaults e,
      sp_after = after_triggers e\<rparr>"

definition specs :: "config \<Rightarrow> spec list" where
  "specs c = map (spec_of_event (cf_env c)) (cf_events c)"

section \<open>Triggers\<close>

text \<open>What \<open>startTriggers\<close> builds; \<open>None\<close> for the server when no webhook is registered.\<close>

record started =
  sg_cron :: "cron_entry list"
  sg_hook :: "webhook_server option"
  sg_disabled_hooks :: nat
  sg_files :: "file_watcher list"
  sg_wakes :: "string list"
  sg_rejected :: "(string \<times> string) list"

definition route_of :: "event_config \<Rightarrow> trigger \<Rightarrow> webhook_route" where
  "route_of e t =
     \<lparr>wr_event = ec_name e, wr_path = tr_path t, wr_methods = tr_methods t, wr_token = tr_token t,
      wr_secret = tr_secret t, wr_wait = tr_wait t, wr_params = map pa_name (ec_params e),
      wr_required = map pa_name (filter pa_required (ec_params e))\<rparr>"

definition watcher_of :: "event_config \<Rightarrow> trigger \<Rightarrow> file_watcher" where
  "watcher_of e t =
     \<lparr>fw_event = ec_name e, fw_root = tr_path t, fw_recursive = tr_recursive t, fw_include = tr_include t,
      fw_exclude = tr_exclude t, fw_ops = tr_changes t, fw_debounce = tr_debounce t\<rparr>"

definition start_hook :: "config \<Rightarrow> event_config \<Rightarrow> trigger \<Rightarrow> started \<Rightarrow> started" where
  "start_hook c e t s =
     (if \<not> IsEnabled (cf_webhook c) then s\<lparr>sg_disabled_hooks := sg_disabled_hooks s + 1\<rparr>
      else (let srv = (case sg_hook s of Some srv \<Rightarrow> srv
                       | None \<Rightarrow> NewWebhookServer (wc_listen (cf_webhook c)) (wc_max_body_bytes (cf_webhook c)))
            in case Register (route_of e t) srv of
                 (None, srv') \<Rightarrow> s\<lparr>sg_hook := Some srv'\<rparr>
               | (Some err, srv') \<Rightarrow>
                   s\<lparr>sg_hook := Some srv', sg_rejected := sg_rejected s @ [(ec_name e, err)]\<rparr>))"

definition start_cron :: "(string \<Rightarrow> string \<Rightarrow> string + cron_schedule) \<Rightarrow> event_config \<Rightarrow> nat \<Rightarrow> trigger
    \<Rightarrow> started \<Rightarrow> started" where
  "start_cron parse e k t s =
     (case Add_cron parse \<lparr>ct_event = ec_name e, ct_index = int k, ct_schedule = tr_schedule t,
              ct_timezone = tr_timezone t, ct_missed = tr_missed t\<rparr> (sg_cron s) of
        (None, es) \<Rightarrow> s\<lparr>sg_cron := es\<rparr>
      | (Some err, es) \<Rightarrow> s\<lparr>sg_cron := es, sg_rejected := sg_rejected s @ [(ec_name e, err)]\<rparr>)"

definition start_trigger :: "(string \<Rightarrow> string \<Rightarrow> string + cron_schedule) \<Rightarrow> config \<Rightarrow> event_config
    \<Rightarrow> nat \<times> trigger \<Rightarrow> started \<Rightarrow> started" where
  "start_trigger parse c e kt s =
     (case kt of (k, t) \<Rightarrow>
        if tr_type t = TriggerCron then start_cron parse e k t s
        else if tr_type t = TriggerWebhook then start_hook c e t s
        else if tr_type t = TriggerFile then s\<lparr>sg_files := sg_files s @ [watcher_of e t]\<rparr>
        else if tr_type t = TriggerWake then
          s\<lparr>sg_wakes := (if ec_name e \<in> set (sg_wakes s) then sg_wakes s else sg_wakes s @ [ec_name e])\<rparr>
        else s)"

definition nothing_started :: started where
  "nothing_started = \<lparr>sg_cron = [], sg_hook = None, sg_disabled_hooks = 0, sg_files = [], sg_wakes = [],
     sg_rejected = []\<rparr>"

definition startTriggers :: "(string \<Rightarrow> string \<Rightarrow> string + cron_schedule) \<Rightarrow> config \<Rightarrow> started" where
  "startTriggers parse c =
     fold (\<lambda>e s. fold (start_trigger parse c e) (enumerate 0 (ec_triggers e)) s) (cf_events c) nothing_started"

definition countTriggers :: "config \<Rightarrow> nat" where
  "countTriggers c = sum_list (map (\<lambda>e. length (ec_triggers e)) (cf_events c))"

definition startup_event :: "string \<Rightarrow> gotime \<Rightarrow> event" where
  "startup_event request_id now =
     zero_event\<lparr>ev_request_id := request_id, ev_trigger := KindStartup, ev_trigger_id := ''startup'',
       ev_time := now\<rparr>"

text \<open>\<open>fireStartup\<close>: the events with a startup trigger, one firing for each such trigger.\<close>

definition startup_names :: "config \<Rightarrow> string list" where
  "startup_names c =
     concat (map (\<lambda>e. map (\<lambda>t. ec_name e) (filter (\<lambda>t. tr_type t = TriggerStartup) (ec_triggers e))) (cf_events c))"

definition fireStartup :: "gotime \<Rightarrow> config \<Rightarrow> disp \<Rightarrow> disp" where
  "fireStartup now c s =
     fold (\<lambda>name s. case NewID s of (rid, s') \<Rightarrow> snd (Dispatch now name (startup_event rid now) s'))
       (startup_names c) s"

section \<open>The loop of the agent\<close>

datatype agent_phase = With_triggers | Without_triggers | Agent_stopped | Agent_failed

record kickd =
  kd_cfg :: config
  kd_disp :: disp
  kd_first :: bool
  kd_phase :: agent_phase
  kd_triggers :: started

text \<open>From the loaded configuration and the opened database to the first wait of the loop.\<close>

definition agent_start :: "(string \<Rightarrow> string \<Rightarrow> string + cron_schedule) \<Rightarrow> (nat \<Rightarrow> string) \<Rightarrow> gotime \<Rightarrow> config
    \<Rightarrow> db \<Rightarrow> recover_error + kickd" where
  "agent_start parse newID now c db =
     (let s = Configure (specs c) (NewDispatcher (dc_retention (cf_database c)) newID db) in
      case Recover now s of
        (Inl e, s') \<Rightarrow> Inl e
      | (Inr u, s') \<Rightarrow>
          Inr \<lparr>kd_cfg = c, kd_disp = fireStartup now c s', kd_first = True, kd_phase = With_triggers,
               kd_triggers = startTriggers parse c\<rparr>)"

datatype agent_input =
    Shutdown_requested
  | Trigger_failed
  | Reloaded "string + config"

text \<open>The configuration that takes effect: the database stays where it was opened.\<close>

definition keep_database :: "config \<Rightarrow> config \<Rightarrow> config" where
  "keep_database old next =
     (if dc_path (cf_database next) \<noteq> dc_path (cf_database old)
      then next\<lparr>cf_database := (cf_database next)\<lparr>dc_path := dc_path (cf_database old)\<rparr>\<rparr>
      else next)"

definition switch_config :: "(string \<Rightarrow> string \<Rightarrow> string + cron_schedule) \<Rightarrow> config \<Rightarrow> kickd \<Rightarrow> kickd" where
  "switch_config parse next k =
     (let c = keep_database (kd_cfg k) next in
      k\<lparr>kd_cfg := c, kd_disp := Configure (specs c) (kd_disp k), kd_first := False,
        kd_phase := With_triggers, kd_triggers := startTriggers parse c\<rparr>)"

fun agent_turn :: "(string \<Rightarrow> string \<Rightarrow> string + cron_schedule) \<Rightarrow> agent_input \<Rightarrow> kickd \<Rightarrow> kickd" where
  "agent_turn parse Shutdown_requested k =
     (case kd_phase k of
        With_triggers \<Rightarrow> k\<lparr>kd_phase := Agent_stopped, kd_triggers := nothing_started\<rparr>
      | Without_triggers \<Rightarrow> k\<lparr>kd_phase := Agent_stopped\<rparr>
      | _ \<Rightarrow> k)"
| "agent_turn parse Trigger_failed k =
     (case kd_phase k of
        With_triggers \<Rightarrow>
          k\<lparr>kd_phase := (if kd_first k then Agent_failed else Without_triggers),
            kd_triggers := nothing_started\<rparr>
      | _ \<Rightarrow> k)"
| "agent_turn parse (Reloaded r) k =
     (case kd_phase k of
        With_triggers \<Rightarrow> (case r of Inl e \<Rightarrow> k | Inr next \<Rightarrow> switch_config parse next k)
      | Without_triggers \<Rightarrow> (case r of Inl e \<Rightarrow> k | Inr next \<Rightarrow> switch_config parse next k)
      | _ \<Rightarrow> k)"

section \<open>Watching the files of the configuration\<close>

text \<open>\<open>watchConfig\<close>: the directory of the config file; \<open>dir\<close> and \<open>base\<close> split its absolute path.\<close>

definition config_watcher :: "string \<Rightarrow> string \<Rightarrow> file_watcher" where
  "config_watcher dir base =
     \<lparr>fw_event = [], fw_root = dir, fw_recursive = False, fw_include = [base, ''*.yaml'', ''*.yml''],
      fw_exclude = [], fw_ops = [''create'', ''write'', ''rename'', ''remove''],
      fw_debounce = 500 * millisecond\<rparr>"

text \<open>
  \<open>watchLinks\<close>: the files of the configuration that are symbolic links, by the directory of what
  they point to; \<open>link\<close> gives for a symbolic link that resolves the directory and the name.
\<close>

definition link_targets :: "(string \<Rightarrow> (string \<times> string) option) \<Rightarrow> string \<Rightarrow> config \<Rightarrow> (string \<times> string list) list" where
  "link_targets link configDir c =
     fold (\<lambda>f targets. case link f of
             None \<Rightarrow> targets
           | Some (dir, name) \<Rightarrow>
               if dir = configDir then targets
               else AList.update dir ((case map_of targets dir of None \<Rightarrow> [] | Some ns \<Rightarrow> ns) @ [name]) targets)
       ((cf_path c # cf_event_files c) @ cf_skipped c) []"

definition link_watchers :: "(string \<Rightarrow> (string \<times> string) option) \<Rightarrow> string \<Rightarrow> config \<Rightarrow> file_watcher list" where
  "link_watchers link configDir c =
     map (\<lambda>(dir, names). (config_watcher dir [])\<lparr>fw_include := names\<rparr>) (link_targets link configDir c)"

end
