(* ===== verification/AgentProps.thy ===== *)
theory AgentProps
  imports Agent
begin

text \<open>
  How the parts fit together: the specs that a validated configuration gives the dispatcher, the
  followers and the bound on chains of after triggers, the triggers that start, and the invariant
  of the agent over reloads, failed triggers and everything the dispatcher does meanwhile.
\<close>

section \<open>Configuring the dispatcher\<close>

definition followers_in :: "spec list \<Rightarrow> string \<Rightarrow> follower list" where
  "followers_in sps e =
     concat (map (\<lambda>sp. map (\<lambda>a. \<lparr>fo_event = sp_name sp, fo_statuses = at_statuses a\<rparr>)
       (filter (\<lambda>a. at_event a = e) (sp_after sp))) sps)"

lemma fold_after:
  "fold (\<lambda>a f. f(at_event a := f (at_event a) @ [\<lparr>fo_event = n, fo_statuses = at_statuses a\<rparr>])) as f e =
    f e @ map (\<lambda>a. \<lparr>fo_event = n, fo_statuses = at_statuses a\<rparr>) (filter (\<lambda>a. at_event a = e) as)"
  by (induction as arbitrary: f) auto

lemma Configure_follows: "d_follows (Configure sps s) e = followers_in sps e"
proof -
  have "fold (\<lambda>sp f. fold (\<lambda>a f. f(at_event a := f (at_event a) @
      [\<lparr>fo_event = sp_name sp, fo_statuses = at_statuses a\<rparr>])) (sp_after sp) f) sps f e
    = f e @ followers_in sps e" for f
    by (induction sps arbitrary: f) (simp_all add: fold_after followers_in_def)
  then show ?thesis by (simp add: Configure_def poke_def)
qed

definition spec_table :: "spec list \<Rightarrow> string \<rightharpoonup> spec" where
  "spec_table sps = fold (\<lambda>sp m. m(sp_name sp \<mapsto> sp)) sps Map.empty"

lemma Configure_specs: "d_specs (Configure sps s) = spec_table sps"
  by (simp add: Configure_def poke_def spec_table_def)

lemma spec_table_find:
  "distinct (map sp_name sps) \<Longrightarrow> spec_table sps n = find (\<lambda>sp. sp_name sp = n) sps"
proof -
  have other: "fold (\<lambda>sp m. m(sp_name sp \<mapsto> sp)) sps m n = m n"
    if "n \<notin> set (map sp_name sps)" for sps :: "spec list" and m n
    using that by (induction sps arbitrary: m) auto
  have "distinct (map sp_name sps) \<Longrightarrow> fold (\<lambda>sp m. m(sp_name sp \<mapsto> sp)) sps m n =
      (case find (\<lambda>sp. sp_name sp = n) sps of Some sp \<Rightarrow> Some sp | None \<Rightarrow> m n)" for m
  proof (induction sps arbitrary: m)
    case (Cons sp sps)
    show ?case
    proof (cases "sp_name sp = n")
      case True
      with Cons.prems other [of n sps "m(n \<mapsto> sp)"] show ?thesis by (auto simp del: fun_upd_apply simp: fun_upd_same)
    next
      case False
      with Cons show ?thesis by (simp split: option.split)
    qed
  qed simp
  then show "distinct (map sp_name sps) \<Longrightarrow> spec_table sps n = find (\<lambda>sp. sp_name sp = n) sps"
    by (simp add: spec_table_def split: option.split)
qed

definition spec_ok :: "spec \<Rightarrow> bool" where
  "spec_ok sp \<longleftrightarrow>
     sp_concurrency sp \<in> {PolicySkip, PolicyQueue, PolicyParallel, PolicyReplace} \<and>
     sp_restart sp \<in> {RestartNever, RestartOnFailure, RestartAlways} \<and>
     0 \<le> sp_restart_delay sp \<and> sp_restart_delay sp \<le> sp_restart_max_delay sp \<and>
     sp_on_interrupt sp \<in> {InterruptAbandon, InterruptRerun} \<and> 1 \<le> sp_max_attempts sp \<and>
     sp_stdin sp \<in> {StdinNone, StdinPayload} \<and> 0 \<le> sp_timeout sp \<and> 0 \<le> sp_stop_timeout sp \<and>
     (sp_command sp = [] \<longrightarrow> sp_shell sp \<noteq> []) \<and> (sp_command sp \<noteq> [] \<longrightarrow> hd (sp_command sp) \<noteq> [])"

lemma specs_names: "map sp_name (specs c) = map ec_name (cf_events c)"
  by (simp add: specs_def spec_of_event_def)

lemma specs_ok:
  assumes "config_ok h parse c"
  shows "list_all spec_ok (specs c) \<and> distinct (map sp_name (specs c))"
proof -
  have "spec_ok (spec_of_event (cf_env c) e)" if "event_ok h parse ns e" for e ns
    using that unfolding spec_ok_def event_ok_def spec_of_event_def by (simp split: if_splits)
  with assms show ?thesis
    unfolding specs_names by (auto simp: config_ok_def specs_def list_all_iff)
qed

text \<open>A follower that is configured is an edge of the graph that the validation checks.\<close>

lemma followers_edge:
  assumes c: "config_ok h parse c" and f: "f \<in> set (followers_in (specs c) e)"
  shows "(fo_event f, e) \<in> edges (follows_of (cf_events c)) \<and>
    fo_event f \<in> set (map ec_name (cf_events c)) \<and> e \<in> set (map ec_name (cf_events c))"
proof -
  from f obtain ev t where ev: "ev \<in> set (cf_events c)" and t: "t \<in> set (ec_triggers ev)" "tr_type t = TriggerAfter"
    "tr_event t = e" "fo_event f = ec_name ev"
    by (auto simp: followers_in_def specs_def spec_of_event_def after_triggers_def)
  from c ev have "event_ok h parse (map ec_name (cf_events c)) ev" by (auto simp: config_ok_def list_all_iff)
  with t(1) have "trigger_ok h parse (map ec_name (cf_events c)) ev t" by (auto simp: event_ok_def list_all_iff)
  with t have e: "e \<noteq> []" "e \<noteq> ec_name ev" "e \<in> set (map ec_name (cf_events c))"
    by (auto simp: trigger_ok_def)
  then have "e \<in> set (follow_targets ev)" using t by (auto simp: follow_targets_def)
  with ev t have "e \<in> set (follows_of (cf_events c) (fo_event f))" by (auto simp: follows_of_def)
  with e ev t show ?thesis by (auto simp: edges_def)
qed

lemma successively_reach:
  "successively (\<lambda>a b. (b, a) \<in> R) (x # xs) \<Longrightarrow> y \<in> set xs \<Longrightarrow> (y, x) \<in> R\<^sup>+"
proof (induction xs arbitrary: x)
  case (Cons z xs)
  then have "(z, x) \<in> R" "y = z \<or> (y, z) \<in> R\<^sup>+" by auto
  then show ?case by (auto intro: trancl_into_trancl)
qed simp

lemma acyclic_distinct: "acyclic R \<Longrightarrow> successively (\<lambda>a b. (b, a) \<in> R) xs \<Longrightarrow> distinct xs"
proof (induction xs)
  case (Cons x xs)
  then have "x \<notin> set xs" using successively_reach [of R x xs x] by (auto simp: acyclic_def)
  moreover have "successively (\<lambda>a b. (b, a) \<in> R) xs"
    using Cons.prems(2) by (cases xs) auto
  ultimately show ?case using Cons by simp
qed simp

lemma successively_names:
  "successively (\<lambda>a b. P a b) (x # y # r) \<Longrightarrow> (\<And>a b. P a b \<Longrightarrow> a \<in> N \<and> b \<in> N) \<Longrightarrow> set (x # y # r) \<subseteq> N"
proof (induction r arbitrary: x y)
  case Nil
  then show ?case by force
next
  case (Cons z r)
  then have "P x y" "successively P (y # z # r)" by simp_all
  with Cons show ?case by (metis insert_subset list.simps(15))
qed

text \<open>
  C40: Under a validated configuration a chain of events in which each is a configured follower of the
  one before, as the dispatcher holds them, never repeats an event, so it is no longer than the
  number of events: after triggers cannot fire each other forever.\<close>
theorem after_chains_bounded:
  assumes "validate h parse c = []"
    and "successively (\<lambda>a b. \<exists>f. f \<in> set (d_follows (Configure (specs c) s) a) \<and> fo_event f = b) xs"
  shows "distinct xs \<and> length xs \<le> length (cf_events c)"
proof
  let ?P = "\<lambda>a b. \<exists>f. f \<in> set (d_follows (Configure (specs c) s) a) \<and> fo_event f = b"
  let ?N = "set (map ec_name (cf_events c))"
  have c: "config_ok h parse c" using assms(1) by (simp only: validate_config_ok)
  have edge: "(b, a) \<in> edges (follows_of (cf_events c)) \<and> a \<in> ?N \<and> b \<in> ?N" if "?P a b" for a b
    using that followers_edge [OF c] unfolding Configure_follows by blast
  have "successively (\<lambda>a b. (b, a) \<in> edges (follows_of (cf_events c))) xs"
    by (rule successively_mono [OF assms(2)]) (use edge in blast)
  moreover have "acyclic (edges (follows_of (cf_events c)))"
    using c by (simp add: config_ok_def edges_def)
  ultimately show dist: "distinct xs" by (rule acyclic_distinct [rotated])
  show "length xs \<le> length (cf_events c)"
  proof (cases "length xs \<le> 1")
    case True
    moreover have "1 \<le> length (cf_events c)" using c by (cases "cf_events c") (simp_all add: config_ok_def)
    ultimately show ?thesis by simp
  next
    case False
    then obtain x y r where xs: "xs = x # y # r" by (cases xs rule: cycle_parts.cases) auto
    have "set xs \<subseteq> ?N"
      using successively_names [of ?P x y r ?N] assms(2) edge unfolding xs by blast
    then have "card (set xs) \<le> card ?N" by (intro card_mono) auto
    also have "\<dots> \<le> length (cf_events c)" using card_length [of "map ec_name (cf_events c)"] by simp
    finally show ?thesis using dist by (simp add: distinct_card)
  qed
qed

section \<open>The agent\<close>

definition same_config :: "disp \<Rightarrow> disp \<Rightarrow> bool" where
  "same_config s s' \<longleftrightarrow> d_specs s' = d_specs s \<and> d_follows s' = d_follows s"

lemma same_config_refl [simp]: "same_config s s"
  by (simp add: same_config_def)

lemma same_config_trans: "same_config a b \<Longrightarrow> same_config b c \<Longrightarrow> same_config a c"
  by (simp add: same_config_def)

lemma on_db_same: "on_db m s = (r, s') \<Longrightarrow> same_config s s'"
  by (auto simp: on_db_def same_config_def split: prod.splits)

lemma submit_same: "submit now name ev wait s = (r, s') \<Longrightarrow> same_config s s'"
  by (auto simp: submit_def NewID_def Let_def on_db_def queueError_def count_dropped_def poke_def same_config_def
      split: if_splits option.splits prod.splits sum.splits)

lemma Dispatch_same: "same_config s (snd (Dispatch now name ev s))"
  using submit_same by (auto simp: Dispatch_def split: prod.split)

lemma recover_all_same: "recover_all now rs s = (r, s') \<Longrightarrow> same_config s s'"
proof (induction rs arbitrary: s)
  case (Cons x rs)
  obtain a t where t: "recover_one now x s = (a, t)" by fastforce
  have "same_config s t"
    using t by (auto simp: recover_one_def Let_def split: recovery.splits prod.splits sum.splits dest: on_db_same)
  with Cons t show ?case by (auto split: sum.splits intro: same_config_trans)
qed simp

lemma Recover_same: "Recover now s = (r, s') \<Longrightarrow> same_config s s'"
  by (auto simp: Recover_def split: prod.splits sum.splits dest: on_db_same
      intro: same_config_trans [OF on_db_same recover_all_same])

lemma fireStartup_same: "same_config s (fireStartup now c s)"
proof -
  have "same_config s (fold (\<lambda>name s. case NewID s of (rid, s') \<Rightarrow>
      snd (Dispatch now name (startup_event rid now) s')) ns s)" for ns
  proof (induction ns arbitrary: s)
    case (Cons n ns)
    have "same_config s (case NewID s of (rid, s') \<Rightarrow> snd (Dispatch now n (startup_event rid now) s'))"
      using Dispatch_same by (auto simp: NewID_def same_config_def)
    from same_config_trans [OF this Cons.IH] show ?case by simp
  qed simp
  then show ?thesis by (simp add: fireStartup_def)
qed

text \<open>The agent runs its turns; between them the dispatcher changes anything but its configuration.\<close>

inductive agent_step :: "(string \<Rightarrow> string \<Rightarrow> string + cron_schedule) \<Rightarrow> kickd \<Rightarrow> kickd \<Rightarrow> bool"
  for parse where
  shutdown: "agent_step parse k (agent_turn parse Shutdown_requested k)"
| trigger: "agent_step parse k (agent_turn parse Trigger_failed k)"
| bad_reload: "agent_step parse k (agent_turn parse (Reloaded (Inl e)) k)"
| reload: "validate (h :: host) parse next = [] \<Longrightarrow> agent_step parse k (agent_turn parse (Reloaded (Inr next)) k)"
| dispatcher: "same_config (kd_disp k) s \<Longrightarrow> agent_step parse k (k\<lparr>kd_disp := s\<rparr>)"

inductive agent_starts :: "(string \<Rightarrow> string \<Rightarrow> string + cron_schedule) \<Rightarrow> string \<Rightarrow> kickd \<Rightarrow> bool"
  for parse path where
  starts: "validate (h :: host) parse c = [] \<Longrightarrow> dc_path (cf_database c) = path \<Longrightarrow>
    agent_start parse newID now c db = Inr k \<Longrightarrow> agent_starts parse path k"

definition agent_inv :: "(string \<Rightarrow> string \<Rightarrow> string + cron_schedule) \<Rightarrow> string \<Rightarrow> kickd \<Rightarrow> bool" where
  "agent_inv parse path k \<longleftrightarrow>
     (\<exists>h :: host. config_ok h parse (kd_cfg k)) \<and>
     d_specs (kd_disp k) = spec_table (specs (kd_cfg k)) \<and>
     d_follows (kd_disp k) = followers_in (specs (kd_cfg k)) \<and>
     dc_path (cf_database (kd_cfg k)) = path \<and>
     kd_triggers k = (if kd_phase k = With_triggers then startTriggers parse (kd_cfg k) else nothing_started)"

lemma keep_database_ok: "config_ok h parse c \<Longrightarrow> config_ok h parse (keep_database old c)"
  by (simp add: keep_database_def config_ok_def settings_ok_def)

lemma keep_database_path: "dc_path (cf_database (keep_database old c)) = dc_path (cf_database old)"
  by (simp add: keep_database_def)

lemma switch_inv:
  fixes h :: "host"
  assumes "agent_inv parse path k" and "validate h parse next = []"
  shows "agent_inv parse path (switch_config parse next k)"
  using assms keep_database_ok [of h parse "next" "kd_cfg k"] keep_database_path [of "kd_cfg k" "next"]
  by (auto simp: agent_inv_def switch_config_def Let_def validate_config_ok Configure_specs Configure_follows)

lemma agent_start_inv: "agent_starts parse path k \<Longrightarrow> agent_inv parse path k"
proof (induction rule: agent_starts.induct)
  case (starts h c newID now db k)
  let ?s = "Configure (specs c) (NewDispatcher (dc_retention (cf_database c)) newID db)"
  obtain r s' where r: "Recover now ?s = (r, s')" by fastforce
  with starts(3) have k: "k = \<lparr>kd_cfg = c, kd_disp = fireStartup now c s', kd_first = True,
      kd_phase = With_triggers, kd_triggers = startTriggers parse c\<rparr>"
    by (auto simp: agent_start_def Let_def split: sum.splits)
  have "same_config ?s (fireStartup now c s')"
    by (rule same_config_trans [OF Recover_same [OF r] fireStartup_same])
  with starts(1,2) show ?case
    by (auto simp: agent_inv_def k same_config_def Configure_specs Configure_follows validate_config_ok)
qed

lemma agent_step_inv:
  assumes k: "agent_inv parse path k" and s: "agent_step parse k k'"
  shows "agent_inv parse path k'"
  using s
proof (cases rule: agent_step.cases)
  case (reload h nxt)
  with switch_inv [OF k reload(2)] k show ?thesis by (simp split: agent_phase.split)
next
  case (dispatcher s)
  with k show ?thesis by (simp add: agent_inv_def same_config_def)
qed (use k in \<open>auto simp: agent_inv_def split: agent_phase.splits\<close>)

interpretation ag: machine_invariant "agent_starts parse path" "agent_step parse" "agent_inv parse path"
  for parse path
  by unfold_locales (auto intro: agent_start_inv agent_step_inv)

text \<open>
  C24: In every state of the agent, over any sequence of reloads, rejected reloads, failed triggers, the
  shutdown and whatever the dispatcher does meanwhile: the configuration in effect is well formed;
  the dispatcher holds exactly its events, each under its name with known policies, ordered
  restart delays and at least one attempt; the database is the one that was opened at the start;
  and the triggers of the configuration run exactly while the agent has triggers, none after a
  failure or the shutdown.\<close>
theorem agent_configuration:
  assumes "reach (agent_starts parse path) (agent_step parse) k"
  shows "(\<exists>h :: host. config_ok h parse (kd_cfg k)) \<and>
    (\<forall>n. d_specs (kd_disp k) n = find (\<lambda>sp. sp_name sp = n) (specs (kd_cfg k))) \<and>
    list_all (\<lambda>sp. spec_ok sp) (specs (kd_cfg k)) \<and>
    dc_path (cf_database (kd_cfg k)) = path \<and>
    kd_triggers k = (if kd_phase k = With_triggers then startTriggers parse (kd_cfg k) else nothing_started)"
proof -
  from ag.inv_reach [OF assms] have k: "agent_inv parse path k" .
  then obtain h :: host where c: "config_ok h parse (kd_cfg k)" by (auto simp: agent_inv_def)
  from specs_ok [OF c] k c spec_table_find [of "specs (kd_cfg k)"] show ?thesis
    by (auto simp: agent_inv_def)
qed

section \<open>A small configuration\<close>

definition demo_host :: host where
  "demo_host = \<lparr>pf_windows = False, pf_environ = [], pf_getenv = (\<lambda>k. []), pf_list_sep = CHR '':'',
     pf_split_list = (\<lambda>s. Split s (CHR '':'')), pf_is_abs = (\<lambda>p. HasPrefix p ''/''),
     pf_join = (\<lambda>a b. a @ ''/'' @ b), pf_is_path_sep = (\<lambda>c. c = slash), pf_stat = (\<lambda>p. None),
     ho_home = None, ho_clean = (\<lambda>p. p), ho_base = path_base, ho_is_dir = (\<lambda>p. p = ''/srv'')\<rparr>"

definition no_trigger :: trigger where
  "no_trigger = \<lparr>tr_type = [], tr_path = [], tr_schedule = [], tr_timezone = [], tr_missed = [],
     tr_methods = [], tr_token = [], tr_secret = [], tr_wait = False, tr_recursive = False,
     tr_include = [], tr_exclude = [], tr_changes = [], tr_debounce = 0, tr_event = [], tr_status = []\<rparr>"

definition demo_events :: "event_config list" where
  "demo_events =
     [demo_params\<lparr>ec_name := ''backup'', ec_params := [], ec_triggers := [no_trigger\<lparr>tr_type := ''manual''\<rparr>]\<rparr>,
      demo_params\<lparr>ec_name := ''notify'', ec_params := [],
        ec_triggers := [no_trigger\<lparr>tr_type := ''after'', tr_event := ''backup'', tr_status := [''failed'']\<rparr>]\<rparr>]"

definition demo_config :: config where
  "demo_config = \<lparr>cf_log = \<lparr>lc_level = ''info'', lc_format = ''auto'', lc_path = [], lc_max_size_mb = 10,
       lc_max_backups = 5, lc_level_from = [], lc_format_from = []\<rparr>,
     cf_webhook = \<lparr>wc_enabled = None, wc_listen = ''127.0.0.1:9787'', wc_max_body_bytes = 1048576\<rparr>,
     cf_database = \<lparr>dc_path = ''/srv/kickd.db'', dc_retention = hour\<rparr>, cf_env = [], cf_events = demo_events,
     cf_path = [], cf_dir = ''/srv'', cf_event_files = [], cf_skipped = []\<rparr>"

definition no_schedules :: "string \<Rightarrow> string \<Rightarrow> string + cron_schedule" where
  "no_schedules spec tz = Inl ''no schedule''"

lemma demo_config_valid: "validate demo_host no_schedules demo_config = []"
  by code_simp

section \<open>Every trigger of a validated configuration starts\<close>

text \<open>The triggers of a type with their events, in the order of the configuration.\<close>

definition of_type :: "string \<Rightarrow> config \<Rightarrow> (event_config \<times> trigger) list" where
  "of_type ty c = concat (map (\<lambda>e. map (Pair e) (filter (\<lambda>t. tr_type t = ty) (ec_triggers e))) (cf_events c))"

definition flat_triggers :: "config \<Rightarrow> (event_config \<times> nat \<times> trigger) list" where
  "flat_triggers c = concat (map (\<lambda>e. map (Pair e) (enumerate 0 (ec_triggers e))) (cf_events c))"

lemma startTriggers_flat:
  "startTriggers parse c = fold (\<lambda>(e, kt). start_trigger parse c e kt) (flat_triggers c) nothing_started"
proof -
  have inner: "fold (\<lambda>(e, kt). start_trigger parse c e kt) (map (Pair e) kts) s = fold (start_trigger parse c e) kts s"
    for e kts s by (induction kts arbitrary: s) auto
  have "fold (\<lambda>e s. fold (start_trigger parse c e) (enumerate 0 (ec_triggers e)) s) es s =
      fold (\<lambda>(e, kt). start_trigger parse c e kt) (concat (map (\<lambda>e. map (Pair e) (enumerate 0 (ec_triggers e))) es)) s"
    for es s by (induction es arbitrary: s) (simp_all add: inner)
  then show ?thesis by (simp add: startTriggers_def flat_triggers_def)
qed

definition picked :: "string \<Rightarrow> (event_config \<times> nat \<times> trigger) list \<Rightarrow> (event_config \<times> nat \<times> trigger) list" where
  "picked ty L = filter (\<lambda>(e, k, t). tr_type t = ty) L"

definition routes_in :: "started \<Rightarrow> webhook_route list" where
  "routes_in s = (case sg_hook s of None \<Rightarrow> [] | Some srv \<Rightarrow> ws_routes srv)"

definition cron_parses :: "(string \<Rightarrow> string \<Rightarrow> string + cron_schedule) \<Rightarrow> event_config \<times> nat \<times> trigger \<Rightarrow> bool" where
  "cron_parses parse x = (case x of (e, k, t) \<Rightarrow> tr_type t \<noteq> TriggerCron \<or> is_ok (parse (tr_schedule t) (tr_timezone t)))"

lemma Register_new:
  "wr_path r \<notin> wr_path ` set (ws_routes srv) \<Longrightarrow> Register r srv = (None, srv\<lparr>ws_routes := ws_routes srv @ [r]\<rparr>)"
  by (simp add: Register_def)

lemma start_hook_new:
  assumes "tr_path t \<notin> wr_path ` set (routes_in s)"
  shows "sg_rejected (start_hook c e t s) = sg_rejected s \<and> sg_cron (start_hook c e t s) = sg_cron s \<and>
    sg_files (start_hook c e t s) = sg_files s \<and>
    routes_in (start_hook c e t s) = (if IsEnabled (cf_webhook c) then routes_in s @ [route_of e t] else routes_in s)"
proof -
  have path: "wr_path (route_of e t) = tr_path t" by (simp add: route_of_def)
  show ?thesis
    using assms Register_new [of "route_of e t"]
    by (auto simp: start_hook_def routes_in_def Let_def path NewWebhookServer_def split: option.splits)
qed

lemma start_trigger_new:
  assumes "cron_parses parse (e, k, t)" and "tr_type t = TriggerWebhook \<Longrightarrow> tr_path t \<notin> wr_path ` set (routes_in s)"
  shows "sg_rejected (start_trigger parse c e (k, t) s) = sg_rejected s"
    and "length (sg_cron (start_trigger parse c e (k, t) s)) =
      length (sg_cron s) + (if tr_type t = TriggerCron then 1 else 0)"
    and "sg_files (start_trigger parse c e (k, t) s) =
      sg_files s @ (if tr_type t = TriggerFile then [watcher_of e t] else [])"
    and "routes_in (start_trigger parse c e (k, t) s) =
      routes_in s @ (if tr_type t = TriggerWebhook \<and> IsEnabled (cf_webhook c) then [route_of e t] else [])"
  using assms start_hook_new [of t s c e]
  by (auto simp: start_trigger_def cron_parses_def start_cron_def Add_cron_def routes_in_def Let_def is_ok_iff
      split: sum.splits)

lemma start_all:
  "list_all (cron_parses parse) L \<Longrightarrow>
    distinct (map wr_path (routes_in s) @ map (\<lambda>(e, k, t). tr_path t) (picked TriggerWebhook L)) \<Longrightarrow>
    (let s' = fold (\<lambda>(e, kt). start_trigger parse c e kt) L s in
      sg_rejected s' = sg_rejected s \<and>
      length (sg_cron s') = length (sg_cron s) + length (picked TriggerCron L) \<and>
      sg_files s' = sg_files s @ map (\<lambda>(e, k, t). watcher_of e t) (picked TriggerFile L) \<and>
      routes_in s' = routes_in s @
        (if IsEnabled (cf_webhook c) then map (\<lambda>(e, k, t). route_of e t) (picked TriggerWebhook L) else []))"
proof (induction L arbitrary: s)
  case (Cons x L)
  obtain e k t where x: "x = (e, k, t)" by (cases x)
  have pc: "cron_parses parse (e, k, t)" using Cons.prems(1) x by simp
  have new: "tr_type t = TriggerWebhook \<Longrightarrow> tr_path t \<notin> wr_path ` set (routes_in s)"
    using Cons.prems(2) by (auto simp: x picked_def)
  let ?s = "start_trigger parse c e (k, t) s"
  have st: "sg_rejected ?s = sg_rejected s"
    "length (sg_cron ?s) = length (sg_cron s) + (if tr_type t = TriggerCron then 1 else 0)"
    "sg_files ?s = sg_files s @ (if tr_type t = TriggerFile then [watcher_of e t] else [])"
    "routes_in ?s = routes_in s @ (if tr_type t = TriggerWebhook \<and> IsEnabled (cf_webhook c) then [route_of e t] else [])"
    by (rule start_trigger_new [OF pc], rule new, assumption)+
  have path: "wr_path (route_of e t) = tr_path t" by (simp add: route_of_def)
  have "distinct (map wr_path (routes_in ?s) @ map (\<lambda>(e, k, t). tr_path t) (picked TriggerWebhook L))"
    using Cons.prems(2) unfolding st(4)
    by (cases "tr_type t = TriggerWebhook") (auto simp: x picked_def path)
  from Cons.IH [OF _ this] Cons.prems(1) show ?case
    unfolding Let_def by (auto simp: x st picked_def)
qed (simp add: picked_def)

lemma picked_of_type: "map (\<lambda>(e, k, t). (e, t)) (picked ty (flat_triggers c)) = of_type ty c"
proof -
  have one: "map (\<lambda>(e, k, t). (e, t)) (picked ty (map (Pair e) (enumerate n ts))) =
      map (Pair e) (filter (\<lambda>t. tr_type t = ty) ts)" for e n ts
    by (induction ts arbitrary: n) (auto simp: picked_def)
  have "map (\<lambda>(e, k, t). (e, t)) (picked ty (concat (map (\<lambda>e. map (Pair e) (enumerate 0 (ec_triggers e))) es))) =
      concat (map (\<lambda>e. map (Pair e) (filter (\<lambda>t. tr_type t = ty) (ec_triggers e))) es)" for es
  proof (induction es)
    case (Cons e es)
    with one [of e 0 "ec_triggers e"] show ?case by (simp add: picked_def)
  qed (simp add: picked_def)
  then show ?thesis by (simp add: of_type_def flat_triggers_def)
qed

lemma map_picked: "map (\<lambda>(e, k, t). f e t) (picked ty (flat_triggers c)) = map (\<lambda>(e, t). f e t) (of_type ty c)"
  unfolding picked_of_type [symmetric] map_map by (rule map_cong) auto

lemma of_type_hooks: "map (\<lambda>(e, t). tr_path t) (of_type TriggerWebhook c) = all_hooks (cf_events c)"
  by (simp add: of_type_def all_hooks_def hook_paths_def map_concat comp_def)

lemma flat_trigger_ok:
  assumes "config_ok h parse c" and "(e, k, t) \<in> set (flat_triggers c)"
  shows "trigger_ok h parse (map ec_name (cf_events c)) e t"
proof -
  from assms(2) have e: "e \<in> set (cf_events c)" and t: "t \<in> set (ec_triggers e)"
    by (auto simp: flat_triggers_def in_set_enumerate_eq)
  from e assms(1) have "event_ok h parse (map ec_name (cf_events c)) e" by (auto simp: config_ok_def list_all_iff)
  with t show ?thesis by (auto simp: event_ok_def list_all_iff)
qed

text \<open>
  When the agent starts the triggers of a validated configuration, none is rejected: every cron
  trigger has its entry, every file trigger its watcher, and, unless \<open>webhook.enabled\<close> is false,
  the HTTP server has exactly one route for every webhook trigger, in the order of the
  configuration, no two with the same path.\<close>
theorem validated_triggers_start:
  assumes "validate h parse c = []"
  shows "sg_rejected (startTriggers parse c) = [] \<and>
    length (sg_cron (startTriggers parse c)) = length (of_type TriggerCron c) \<and>
    sg_files (startTriggers parse c) = map (\<lambda>(e, t). watcher_of e t) (of_type TriggerFile c) \<and>
    (case sg_hook (startTriggers parse c) of None \<Rightarrow> [] | Some srv \<Rightarrow> ws_routes srv) =
      (if IsEnabled (cf_webhook c) then map (\<lambda>(e, t). route_of e t) (of_type TriggerWebhook c) else []) \<and>
    distinct (map (\<lambda>(e, t). tr_path t) (of_type TriggerWebhook c))"
proof -
  have c: "config_ok h parse c" using assms by (simp only: validate_config_ok)
  have parses: "list_all (cron_parses parse) (flat_triggers c)"
    using flat_trigger_ok [OF c] by (auto simp: list_all_iff cron_parses_def trigger_ok_def)
  have hooks: "distinct (all_hooks (cf_events c))" using c by (simp add: config_ok_def all_hooks_def)
  have none: "routes_in nothing_started = []" by (simp add: routes_in_def nothing_started_def)
  have "distinct (map wr_path (routes_in nothing_started) @
      map (\<lambda>(e, k, t). tr_path t) (picked TriggerWebhook (flat_triggers c)))"
    using hooks by (simp add: none map_picked of_type_hooks)
  from start_all [OF parses this, of c] hooks
  show ?thesis
    unfolding startTriggers_flat Let_def none map_picked routes_in_def of_type_hooks
    using arg_cong [OF picked_of_type [of TriggerCron c], of length]
    by (simp add: nothing_started_def)
qed

section \<open>Witnesses\<close>

theorem validated_triggers_start_witness:
  "sg_rejected (startTriggers no_schedules demo_config) = [] \<and>
    length (sg_cron (startTriggers no_schedules demo_config)) = length (of_type TriggerCron demo_config)"
  using validated_triggers_start [OF demo_config_valid] by blast

theorem after_chains_bounded_witness:
  "distinct [''backup'', ''notify''] \<and> length [''backup'', ''notify''] \<le> length (cf_events demo_config)"
proof (rule after_chains_bounded [OF demo_config_valid])
  have "followers_in (specs demo_config) ''backup'' = [\<lparr>fo_event = ''notify'', fo_statuses = [''failed'']\<rparr>]"
    by code_simp
  then show "successively (\<lambda>a b. \<exists>f. f \<in> set (d_follows (Configure (specs demo_config)
      (NewDispatcher 0 (\<lambda>n. []) empty_db)) a) \<and> fo_event f = b) [''backup'', ''notify'']"
    by (simp add: Configure_follows)
qed

theorem agent_configuration_witness:
  "\<exists>k. agent_start no_schedules (\<lambda>n. ''r'') 0 demo_config empty_db = Inr k \<and>
    d_specs (kd_disp k) ''notify'' \<noteq> None \<and> kd_triggers k = startTriggers no_schedules (kd_cfg k)"
proof -
  have "\<exists>s. Recover 0 (Configure (specs demo_config) (NewDispatcher hour (\<lambda>n. ''r'') empty_db)) = (Inr (), s)"
    by (simp add: Recover_def on_db_def InterruptedRuns_def query_def sql_def Configure_def poke_def
        NewDispatcher_def empty_db_def rows_by_id_def)
  then obtain k where k: "agent_start no_schedules (\<lambda>n. ''r'') 0 demo_config empty_db = Inr k"
    "kd_cfg k = demo_config" "kd_phase k = With_triggers"
    by (auto simp: agent_start_def Let_def demo_config_def)
  have start: "agent_starts no_schedules ''/srv/kickd.db'' k"
    by (rule starts [OF demo_config_valid _ k(1)]) (simp add: demo_config_def)
  have "reach (agent_starts no_schedules ''/srv/kickd.db'') (agent_step no_schedules) k"
    by (rule reach_start) (rule start)
  from agent_configuration [OF this]
  have "d_specs (kd_disp k) ''notify'' = find (\<lambda>sp. sp_name sp = ''notify'') (specs demo_config)"
    "kd_triggers k = startTriggers no_schedules demo_config"
    using k by simp_all
  moreover have "find (\<lambda>sp. sp_name sp = ''notify'') (specs demo_config) \<noteq> None" by code_simp
  ultimately show ?thesis using k by auto
qed

end
