(* ===== verification/ConfigLoad.thy ===== *)
theory ConfigLoad
  imports ConfigCheck
begin

text \<open>
  Loading a configuration (\<open>Load\<close>, \<open>parse\<close> in \<^verbatim>\<open>internal/config/config.go\<close>): which files of the
  directory hold events, what such a file may contain, how their events join those of the config
  file, and the first defaults and checks; the paths of a new configuration; and the questions
  that the other packages ask of a loaded one.

  The file system and the YAML library are arguments (\<open>loader\<close>). A node of a YAML document has its
  kind, tag, value, line and content. An error is its text.
\<close>

section \<open>YAML documents\<close>

datatype node_kind = DocumentNode | MappingNode | SequenceNode | ScalarNode | AliasNode

datatype node = Node (nd_kind: node_kind) (nd_tag: string) (nd_value: string) (nd_line: nat) (nd_content: "node list")

fun mapping_keys :: "node list \<Rightarrow> node list" where
  "mapping_keys (k # v # r) = k # mapping_keys r"
| "mapping_keys _ = []"

text \<open>\<open>UnmarshalYAML\<close> of a command; \<open>decode_list\<close> is \<open>Decode\<close> into a list of strings.\<close>

definition UnmarshalCommand :: "(node \<Rightarrow> string + string list) \<Rightarrow> node \<Rightarrow> run_command \<Rightarrow> string + run_command" where
  "UnmarshalCommand decode_list n c =
     (if nd_kind n = ScalarNode \<and> nd_tag n = ''!!null'' then Inr c
      else if nd_kind n = ScalarNode \<and> nd_tag n = ''!!str'' then Inr (c\<lparr>rc_shell := nd_value n\<rparr>)
      else if nd_kind n = SequenceNode then
        (case decode_list n of Inl e \<Rightarrow> Inl e | Inr args \<Rightarrow> Inr (c\<lparr>rc_args := Some args\<rparr>))
      else Inl (''line '' @ Itoa (int (nd_line n)) @ '': command must be a string or a list of strings''))"

section \<open>The files of a configuration\<close>

datatype decoded = Decoded config | Decode_eof | Decode_error string
datatype decoded_events = Decoded_events "event_config list" | Events_eof | Events_error string

record loader =
  ld_host :: host
  ld_dir :: "string \<Rightarrow> string"
  ld_ext :: "string \<Rightarrow> string"
  ld_read :: "string \<Rightarrow> (bool \<times> string) + string"
  ld_read_dir :: "string \<Rightarrow> string + string list"
  ld_stat :: "string \<Rightarrow> (bool \<times> nat) option"
  ld_unmarshal :: "string \<Rightarrow> string + node"
  ld_decode :: "string \<Rightarrow> decoded"
  ld_decode_events :: "string \<Rightarrow> decoded_events"
  ld_parse_schedule :: "string \<Rightarrow> string \<Rightarrow> string + cron_schedule"

text \<open>
  \<open>ld_stat\<close> follows links: whether the file is regular, and its identity for \<open>SameFile\<close>.
  \<open>ld_read\<close> fails with a flag that tells whether the file does not exist.
\<close>

definition hasEvents :: "loader \<Rightarrow> string \<Rightarrow> string + bool" where
  "hasEvents ld data =
     (case ld_unmarshal ld data of
        Inl e \<Rightarrow> Inl e
      | Inr root \<Rightarrow>
          (case nd_content root of
             [] \<Rightarrow> Inr False
           | mapping # _ \<Rightarrow>
               if nd_kind mapping \<noteq> MappingNode then Inr False
               else Inr (list_ex (\<lambda>k. nd_value k = ''events'') (mapping_keys (nd_content mapping)))))"

fun scan_entries :: "loader \<Rightarrow> string \<Rightarrow> nat \<Rightarrow> string list \<Rightarrow> string + (string \<times> string) list \<times> string list" where
  "scan_entries ld dir self [] = Inr ([], [])"
| "scan_entries ld dir self (name # names) =
     (let p = pf_join (ld_host ld) dir name; ext = ToLower (ld_ext ld name) in
      if ext \<noteq> ''.yaml'' \<and> ext \<noteq> ''.yml'' then scan_entries ld dir self names
      else (case ld_stat ld p of
              None \<Rightarrow> scan_entries ld dir self names
            | Some (regular, i) \<Rightarrow>
                if \<not> regular \<or> i = self then scan_entries ld dir self names
                else (case ld_read ld p of
                        Inl e \<Rightarrow> Inl (snd e)
                      | Inr data \<Rightarrow>
                          (case hasEvents ld data of
                             Inl e \<Rightarrow> Inl (name @ '': '' @ e)
                           | Inr has \<Rightarrow>
                               (case scan_entries ld dir self names of
                                  Inl e \<Rightarrow> Inl e
                                | Inr (files, skipped) \<Rightarrow>
                                    if has then Inr ((p, data) # files, skipped)
                                    else Inr (files, p # skipped))))))"

definition eventFiles :: "loader \<Rightarrow> string \<Rightarrow> string + (string \<times> string) list \<times> string list" where
  "eventFiles ld path =
     (case ld_stat ld path of
        None \<Rightarrow> Inl (''stat '' @ path)
      | Some (regular, self) \<Rightarrow>
          (case ld_read_dir ld (ld_dir ld path) of
             Inl e \<Rightarrow> Inl e
           | Inr names \<Rightarrow> scan_entries ld (ld_dir ld path) self names))"

text \<open>\<open>Within\<close> is an error that names the file before it (\<open>%s: %w\<close>).\<close>

datatype load_error = Load_message string | Load_problems "problem list" | Within string load_error

definition decodeEvents :: "loader \<Rightarrow> string \<Rightarrow> load_error + event_config list" where
  "decodeEvents ld data =
     (case ld_unmarshal ld data of
        Inl e \<Rightarrow> Inl (Load_message e)
      | Inr root \<Rightarrow>
          (let mapping = nd_content (hd (nd_content root));
               errs = map (\<lambda>k. (''line %d: %s belongs in the config file; the other files hold only events'',
                                 [Itoa (int (nd_line k)), nd_value k]))
                        (filter (\<lambda>k. nd_value k \<noteq> ''events'') (mapping_keys mapping))
           in if errs \<noteq> [] then Inl (Load_problems errs)
              else (case ld_decode_events ld data of
                      Decoded_events es \<Rightarrow> Inr es
                    | Events_eof \<Rightarrow> Inr []
                    | Events_error e \<Rightarrow> Inl (Load_message e))))"

text \<open>The events of a file, each with the file and its position in it.\<close>

definition from_file :: "string \<Rightarrow> event_config list \<Rightarrow> event_config list" where
  "from_file path es = map (\<lambda>(i, e). e\<lparr>ec_file := path, ec_index := int i\<rparr>) (enumerate 0 es)"

fun add_files :: "loader \<Rightarrow> (string \<times> string) list \<Rightarrow> config \<Rightarrow> load_error + config" where
  "add_files ld [] c = Inr c"
| "add_files ld ((path, data) # files) c =
     (case decodeEvents ld data of
        Inl e \<Rightarrow> Inl (Within (ho_base (ld_host ld) path) e)
      | Inr es \<Rightarrow> add_files ld files
          (c\<lparr>cf_events := cf_events c @ from_file path es, cf_event_files := cf_event_files c @ [path]\<rparr>))"

definition empty_config :: config where
  "empty_config = \<lparr>cf_log = \<lparr>lc_level = [], lc_format = [], lc_path = [], lc_max_size_mb = 0, lc_max_backups = 0,
       lc_level_from = [], lc_format_from = []\<rparr>,
     cf_webhook = \<lparr>wc_enabled = None, wc_listen = [], wc_max_body_bytes = 0\<rparr>,
     cf_database = \<lparr>dc_path = [], dc_retention = 0\<rparr>, cf_env = [], cf_events = [], cf_path = [],
     cf_dir = [], cf_event_files = [], cf_skipped = []\<rparr>"

definition parse_config :: "loader \<Rightarrow> string \<Rightarrow> string \<Rightarrow> (string \<times> string) list \<Rightarrow> load_error + config" where
  "parse_config ld data path others =
     (let finish = (\<lambda>c. let c = c\<lparr>cf_path := path, cf_dir := ld_dir ld path\<rparr>;
                           c = c\<lparr>cf_events := from_file path (cf_events c)\<rparr> in
            case add_files ld others c of
              Inl e \<Rightarrow> Inl e
            | Inr c \<Rightarrow>
                (let c = applyDefaults (ld_host ld) c; errs = validate (ld_host ld) (ld_parse_schedule ld) c
                 in if errs = [] then Inr c else Inl (Load_problems errs)))
      in case ld_decode ld data of
           Decode_error e \<Rightarrow> Inl (Load_message e)
         | Decode_eof \<Rightarrow> if others = [] then Inl (Load_message ''config file is empty'') else finish empty_config
         | Decoded c \<Rightarrow> finish c)"

definition missing :: "host \<Rightarrow> (string \<Rightarrow> bool) \<Rightarrow> string \<Rightarrow> string \<Rightarrow> bool \<Rightarrow> string" where
  "missing h fileExists machine err system =
     (let root = (if pf_windows h then ''as an administrator'' else ''as root'');
          sudo = (if pf_windows h then ''in an administrator PowerShell'' else ''with sudo'')
      in if system then err @ ''; '' @ root @
             '', kickd reads the config file for the whole machine, and kickd init writes an example there''
         else if fileExists machine then err @ ''; kickd init writes an example there, and '' @ sudo @
             '', kickd reads '' @ machine @ '' instead''
         else err @ ''; kickd init writes an example there'')"

text \<open>\<open>Load\<close> of the file at the absolute path \<open>full\<close>, which was given as \<open>path\<close>.\<close>

definition Load :: "loader \<Rightarrow> string \<Rightarrow> (string \<Rightarrow> string) \<Rightarrow> string \<Rightarrow> string \<Rightarrow> load_error + config" where
  "Load ld default_path missing_text path full =
     (case ld_read ld full of
        Inl (not_exist, e) \<Rightarrow> Inl (Load_message (if not_exist \<and> full = default_path then missing_text e else e))
      | Inr data \<Rightarrow>
          (case eventFiles ld full of
             Inl e \<Rightarrow> Inl (Within path (Load_message e))
           | Inr (others, skipped) \<Rightarrow>
               (case parse_config ld data full others of
                  Inl e \<Rightarrow> Inl (Within path e)
                | Inr c \<Rightarrow> Inr (c\<lparr>cf_skipped := skipped\<rparr>))))"

text \<open>\<open>Parse\<close>: the text of one config file in a directory, with no other files of events.\<close>

definition Parse :: "loader \<Rightarrow> (string \<Rightarrow> string \<Rightarrow> string) \<Rightarrow> string \<Rightarrow> string \<Rightarrow> load_error + config" where
  "Parse ld join data dir = parse_config ld data (join dir ''config.yaml'') []"

text \<open>\<open>ValidationError.Error\<close>, with \<open>Sprintf\<close> the text of one problem.\<close>

definition ValidationError_Error :: "(problem \<Rightarrow> string) \<Rightarrow> problem list \<Rightarrow> string" where
  "ValidationError_Error sprintf problems = Join (map sprintf problems) [CHR 0x0A]"

section \<open>Paths of a new configuration\<close>

definition programData :: "(string \<Rightarrow> string) \<Rightarrow> string" where
  "programData getenv =
     (let dir = TrimRight (getenv ''ProgramData'') backslash
      in if dir \<noteq> [] then dir else ''C:'' @ [backslash] @ ''ProgramData'')"

definition SystemDir :: "(string \<Rightarrow> string) \<Rightarrow> string \<Rightarrow> string" where
  "SystemDir getenv goos =
     (if goos = ''darwin'' then ''/Library/Application Support/kickd''
      else if goos = ''windows'' then programData getenv @ [backslash] @ ''kickd''
      else ''/etc/kickd'')"

definition PathsFor :: "(string \<Rightarrow> string) \<Rightarrow> string \<Rightarrow> bool \<Rightarrow> string \<times> string" where
  "PathsFor getenv goos system =
     (if \<not> system \<and> goos = ''windows'' then
        (''~'' @ [backslash] @ ''.kickd'' @ [backslash] @ ''kickd.log'',
         ''~'' @ [backslash] @ ''.kickd'' @ [backslash] @ ''kickd.db'')
      else if \<not> system then (''~/.kickd/kickd.log'', ''~/.kickd/kickd.db'')
      else if goos = ''darwin'' then
        (''/Library/Logs/kickd/kickd.log'', ''/Library/Application Support/kickd/kickd.db'')
      else if goos = ''windows'' then
        (let dir = SystemDir getenv goos in (dir @ [backslash] @ ''kickd.log'', dir @ [backslash] @ ''kickd.db''))
      else (''/var/log/kickd/kickd.log'', ''/var/lib/kickd/kickd.db''))"

text \<open>CRLF becomes LF.\<close>

fun lf :: "string \<Rightarrow> string" where
  "lf (a # b # s) = (if a = carriage_return \<and> b = newline then newline # lf s else a # lf (b # s))"
| "lf s = s"

text \<open>
  \<open>strings.NewReplacer\<close> of two strings: the first that matches at a position is replaced. The fuel
  is the length of the text.
\<close>

fun replace2 :: "nat \<Rightarrow> string \<times> string \<Rightarrow> string \<times> string \<Rightarrow> string \<Rightarrow> string" where
  "replace2 0 a b s = s"
| "replace2 (Suc n) a b [] = []"
| "replace2 (Suc n) a b (c # s) =
     (if HasPrefix (c # s) (fst a) \<and> fst a \<noteq> [] then snd a @ replace2 n a b (drop (length (fst a)) (c # s))
      else if HasPrefix (c # s) (fst b) \<and> fst b \<noteq> [] then snd b @ replace2 n a b (drop (length (fst b)) (c # s))
      else c # replace2 n a b s)"

definition single_quoted :: "string \<Rightarrow> string" where
  "single_quoted s = [CHR 0x27] @ s @ [CHR 0x27]"

definition ExampleConfig :: "(string \<Rightarrow> string) \<Rightarrow> string \<Rightarrow> string \<Rightarrow> bool \<Rightarrow> string" where
  "ExampleConfig getenv exampleConfig goos system =
     (case PathsFor getenv goos system of (log, database) \<Rightarrow>
        (let text = lf exampleConfig in
         replace2 (length text) (single_quoted ''LOG_PATH'', single_quoted log)
           (single_quoted ''DATABASE_PATH'', single_quoted database) text))"

definition ExampleEvents :: "string \<Rightarrow> string \<Rightarrow> string \<Rightarrow> string" where
  "ExampleEvents exampleEventsUnix exampleEventsWindows goos =
     (if goos = ''windows'' then lf exampleEventsWindows else lf exampleEventsUnix)"

section \<open>Questions to a loaded configuration\<close>

definition HasWebhook :: "config \<Rightarrow> bool" where
  "HasWebhook c = list_ex (\<lambda>e. list_ex (\<lambda>t. tr_type t = TriggerWebhook) (ec_triggers e)) (cf_events c)"

definition WebhookServer :: "config \<Rightarrow> bool" where
  "WebhookServer c \<longleftrightarrow> HasWebhook c \<and> IsEnabled (cf_webhook c)"

definition EventByName :: "config \<Rightarrow> string \<Rightarrow> event_config option" where
  "EventByName c name = find (\<lambda>e. ec_name e = name) (cf_events c)"

definition EventNames :: "config \<Rightarrow> string list" where
  "EventNames c = map ec_name (cf_events c)"

record warning =
  wn_event :: string
  wn_reason :: string
  wn_detail :: string

text \<open>\<open>split_host_port\<close> is the host of \<open>net.SplitHostPort\<close> when the address can be split.\<close>

definition Warnings :: "(string \<Rightarrow> string option) \<Rightarrow> config \<Rightarrow> warning list" where
  "Warnings split_host_port c =
     (if \<not> WebhookServer c then []
      else (let listen = wc_listen (cf_webhook c);
                host = (case split_host_port listen of None \<Rightarrow> listen | Some h \<Rightarrow> h)
            in if host = ''127.0.0.1'' \<or> host = ''localhost'' \<or> host = ''::1'' then []
               else concat (map (\<lambda>e. map (\<lambda>t. \<lparr>wn_event = ec_name e, wn_reason = ''webhook_without_auth'',
                        wn_detail = ''webhook '' @ tr_path t @ '' has no token or secret while the server listens on ''
                          @ listen\<rparr>)
                      (filter (\<lambda>t. tr_type t = TriggerWebhook \<and> tr_token t = [] \<and> tr_secret t = []) (ec_triggers e)))
                    (cf_events c))))"

end
