(* ===== verification/LoadProps.thy ===== *)
theory LoadProps
  imports ConfigLoad AgentProps
begin

text \<open>
  What \<open>Load\<close> gives: a configuration that passes its checks and holds, in the order of the files, all
  events of the config file and of the other files of its directory that have an events section,
  each with its file and its position there.
\<close>

text \<open>The name, the file and the position of the events that a file gives.\<close>

definition placed :: "string \<Rightarrow> event_config list \<Rightarrow> (string \<times> string \<times> int) list" where
  "placed path es = map (\<lambda>(i, e). (ec_name e, path, int i)) (enumerate 0 es)"

definition places :: "config \<Rightarrow> (string \<times> string \<times> int) list" where
  "places c = map (\<lambda>e. (ec_name e, ec_file e, ec_index e)) (cf_events c)"

definition events_in :: "loader \<Rightarrow> string \<times> string \<Rightarrow> event_config list" where
  "events_in ld f = (case decodeEvents ld (snd f) of Inl e \<Rightarrow> [] | Inr es \<Rightarrow> es)"

definition own_events :: "loader \<Rightarrow> string \<Rightarrow> event_config list" where
  "own_events ld data = (case ld_decode ld data of Decoded c \<Rightarrow> cf_events c | _ \<Rightarrow> [])"

lemma from_file_places: "map (\<lambda>e. (ec_name e, ec_file e, ec_index e)) (from_file path es) = placed path es"
  by (simp add: from_file_def placed_def comp_def case_prod_beta)

lemma add_files_places:
  "add_files ld files c = Inr c' \<Longrightarrow>
    places c' = places c @ concat (map (\<lambda>f. placed (fst f) (events_in ld f)) files) \<and>
    cf_event_files c' = cf_event_files c @ map fst files \<and>
    list_all (\<lambda>f. is_ok (decodeEvents ld (snd f))) files"
proof (induction files arbitrary: c)
  case (Cons f files)
  obtain path data where f: "f = (path, data)" by (cases f)
  with Cons.prems obtain es where es: "decodeEvents ld data = Inr es" by (auto split: sum.splits)
  with Cons.prems f have "add_files ld files (c\<lparr>cf_events := cf_events c @ from_file path es,
      cf_event_files := cf_event_files c @ [path]\<rparr>) = Inr c'" by simp
  from Cons.IH [OF this] show ?case
    by (simp add: f es events_in_def places_def from_file_places is_ok_iff)
qed simp

lemma applyDefaults_places: "places (applyDefaults h c) = places c"
  by (simp add: places_def applyDefaults_def default_event_def Let_def comp_def)

lemma validate_skipped: "validate h parse (c\<lparr>cf_skipped := x\<rparr>) = [] \<longleftrightarrow> validate h parse c = []"
  by (simp add: validate_config_ok config_ok_def settings_ok_def)

lemma parse_config_ok:
  assumes "parse_config ld data path others = Inr c"
  shows "validate (ld_host ld) (ld_parse_schedule ld) c = [] \<and>
    places c = placed path (own_events ld data) @ concat (map (\<lambda>f. placed (fst f) (events_in ld f)) others) \<and>
    list_all (\<lambda>f. is_ok (decodeEvents ld (snd f))) others"
proof -
  have fin: ?thesis
    if a: "add_files ld others (c1\<lparr>cf_path := path, cf_dir := ld_dir ld path, cf_events := from_file path es\<rparr>) = Inr c2"
      and v: "validate (ld_host ld) (ld_parse_schedule ld) (applyDefaults (ld_host ld) c2) = []"
      and c: "c = applyDefaults (ld_host ld) c2" and own: "own_events ld data = es" for c1 c2 es
    using add_files_places [OF a] v
    using applyDefaults_places [of "ld_host ld" c2]
    by (simp add: c own places_def from_file_places)
  show ?thesis
  proof (cases "ld_decode ld data")
    case (Decoded c1)
    with assms obtain c2 where
      "add_files ld others (c1\<lparr>cf_path := path, cf_dir := ld_dir ld path, cf_events := from_file path (cf_events c1)\<rparr>) = Inr c2"
      "validate (ld_host ld) (ld_parse_schedule ld) (applyDefaults (ld_host ld) c2) = []"
      "c = applyDefaults (ld_host ld) c2"
      by (auto simp: parse_config_def Let_def split: sum.splits if_splits)
    from fin [OF this] Decoded show ?thesis by (simp add: own_events_def)
  next
    case Decode_eof
    with assms obtain c2 where
      "add_files ld others (empty_config\<lparr>cf_path := path, cf_dir := ld_dir ld path, cf_events := from_file path []\<rparr>) = Inr c2"
      "validate (ld_host ld) (ld_parse_schedule ld) (applyDefaults (ld_host ld) c2) = []"
      "c = applyDefaults (ld_host ld) c2"
      by (auto simp: parse_config_def Let_def empty_config_def split: sum.splits if_splits)
    from fin [OF this] Decode_eof show ?thesis by (simp add: own_events_def)
  next
    case (Decode_error e)
    with assms show ?thesis by (simp add: parse_config_def Let_def)
  qed
qed


text \<open>A directory with the config file, a file of events and a file without them.\<close>

definition demo_node :: "string list \<Rightarrow> node" where
  "demo_node ks = Node DocumentNode [] [] 1 [Node MappingNode [] [] 1
     (concat (map (\<lambda>k. [Node ScalarNode ''!!str'' k 1 [], Node SequenceNode [] [] 1 []]) ks))]"

definition demo_loader :: loader where
  "demo_loader = \<lparr>ld_host = demo_host, ld_dir = (\<lambda>p. ''/srv''), ld_ext = (\<lambda>n. ''.yaml''),
     ld_read = (\<lambda>p. Inr p), ld_read_dir = (\<lambda>d. Inr [''config.yaml'', ''more.yaml'', ''other.yaml'']),
     ld_stat = (\<lambda>p. Some (True, length p)),
     ld_unmarshal = (\<lambda>d. Inr (demo_node (if d = ''/srv/more.yaml'' then [''events''] else [''name'']))),
     ld_decode = (\<lambda>d. Decoded (demo_config\<lparr>cf_events := take 1 demo_events\<rparr>)),
     ld_decode_events = (\<lambda>d. Decoded_events (drop 1 demo_events)),
     ld_parse_schedule = no_schedules\<rparr>"

lemma demo_loads: "is_ok (Load demo_loader [] (\<lambda>e. e) ''config.yaml'' ''/srv/config.yaml'')"
  by code_simp

lemma placed_names: "map fst (placed p es) = map ec_name es"
  by (rule nth_equalityI) (simp_all add: placed_def nth_enumerate_eq)

lemma place_names: "map fst (map (\<lambda>e. (ec_name e, ec_file e, ec_index e)) es) = map ec_name es"
  by (induction es) simp_all

lemma demo_event_files:
  "eventFiles demo_loader ''/srv/config.yaml'' = Inr ([(''/srv/more.yaml'', ''/srv/more.yaml'')], [''/srv/other.yaml''])"
  by code_simp

lemma demo_own_names: "map ec_name (own_events demo_loader data) = [''backup'']"
  by (simp add: own_events_def demo_loader_def demo_events_def)

lemma demo_more_names:
  "map ec_name (events_in demo_loader (''/srv/more.yaml'', ''/srv/more.yaml'')) = [''notify'']"
  by code_simp


end
