(* ===== verification/Rotate.thy ===== *)
theory Rotate
  imports GoBase
begin

text \<open>
  The file that the log and the output of events are appended to (\<^verbatim>\<open>internal/logging/rotate.go\<close>).

  The directory is a map from generations to contents: generation 0 is the file itself and
  generation \<open>i\<close> the file with the suffix \<open>.i\<close>. What the operating system refuses during one write is
  an argument, so that every error branch of \<open>Write\<close>, \<open>rotate\<close> and \<open>open\<close> is a branch here. Sizes are
  below \<open>2 ^ 63\<close>, so the sums of the source do not wrap; its mutex makes each write one step.
\<close>

section \<open>Model\<close>

definition DefaultMaxBackups :: int where "DefaultMaxBackups = 5"

type_synonym generations = "nat \<rightharpoonup> string"

datatype rotate_error = Close_failed | Remove_failed nat | Rename_failed nat | Open_failed | Stat_failed

text \<open>What fails during one write; \<open>rf_write\<close> is the number of bytes of a write that is cut short.\<close>

record rotate_faults =
  rf_close :: bool
  rf_remove :: bool
  rf_rename :: "nat \<Rightarrow> bool"
  rf_open :: bool
  rf_stat :: bool
  rf_write :: "nat option"

definition no_faults :: rotate_faults where
  "no_faults = \<lparr>rf_close = False, rf_remove = False, rf_rename = (\<lambda>i. False), rf_open = False, rf_stat = False,
     rf_write = None\<rparr>"

record rotating_file =
  rt_max :: int
  rt_backups :: nat
  rt_open :: bool
  rt_size :: int
  rt_files :: generations
  rt_report :: "rotate_error list list option"

definition open_rotating :: "rotate_faults \<Rightarrow> rotating_file \<Rightarrow> rotate_error list \<times> rotating_file" where
  "open_rotating f r =
     (if rf_open f then ([Open_failed], r)
      else (let content = (case rt_files r 0 of None \<Rightarrow> [] | Some s \<Rightarrow> s);
                r' = r\<lparr>rt_files := (rt_files r)(0 \<mapsto> content)\<rparr>
            in if rf_stat f then ([Stat_failed], r')
               else ([], r'\<lparr>rt_open := True, rt_size := int (length content)\<rparr>)))"

definition OpenRotating :: "rotate_faults \<Rightarrow> int \<Rightarrow> int \<Rightarrow> bool \<Rightarrow> generations \<Rightarrow> rotate_error list + rotating_file" where
  "OpenRotating f max_bytes backups report d =
     (let b = (if backups \<le> 0 then DefaultMaxBackups else backups);
          r = \<lparr>rt_max = max_bytes, rt_backups = nat b, rt_open = False, rt_size = 0, rt_files = d,
               rt_report = (if report then Some [] else None)\<rparr>
      in case open_rotating f r of (errs, r') \<Rightarrow> if errs = [] then Inr r' else Inl errs)"

definition remove_oldest :: "rotate_faults \<Rightarrow> nat \<Rightarrow> generations \<Rightarrow> rotate_error list \<times> generations" where
  "remove_oldest f b d =
     (case d b of None \<Rightarrow> ([], d)
      | Some s \<Rightarrow> if rf_remove f then ([Remove_failed b], d) else ([], d(b := None)))"

text \<open>The rename of one generation to the next; one that does not exist is not an error.\<close>

definition rename_next :: "rotate_faults \<Rightarrow> nat \<Rightarrow> rotate_error list \<times> generations \<Rightarrow> rotate_error list \<times> generations" where
  "rename_next f i ed =
     (case ed of (errs, d) \<Rightarrow>
        (case d i of None \<Rightarrow> (errs, d)
         | Some s \<Rightarrow> if rf_rename f i then (errs @ [Rename_failed i], d) else (errs, d(Suc i \<mapsto> s, i := None))))"

definition rename_current :: "rotate_faults \<Rightarrow> rotate_error list \<times> generations \<Rightarrow> rotate_error list \<times> generations" where
  "rename_current f ed =
     (case ed of (errs, d) \<Rightarrow>
        (case d 0 of None \<Rightarrow> (errs @ [Rename_failed 0], d)
         | Some s \<Rightarrow> if rf_rename f 0 then (errs @ [Rename_failed 0], d) else (errs, d(1 \<mapsto> s, 0 := None))))"

definition rotate_files :: "rotate_faults \<Rightarrow> nat \<Rightarrow> generations \<Rightarrow> rotate_error list \<times> generations" where
  "rotate_files f b d = rename_current f (fold (rename_next f) (rev [1..<b]) (remove_oldest f b d))"

text \<open>Closing a file that is not open is an error in Go, so \<open>rotate\<close> then only opens the file again.\<close>

definition rotate_log :: "rotate_faults \<Rightarrow> rotating_file \<Rightarrow> rotate_error list \<times> rotating_file" where
  "rotate_log f r =
     (let closed = r\<lparr>rt_open := False\<rparr> in
      if rf_close f \<or> \<not> rt_open r then
        (case open_rotating f closed of (errs, r') \<Rightarrow> (Close_failed # errs, r'))
      else
        (case rotate_files f (rt_backups r) (rt_files r) of (errs, d) \<Rightarrow>
           (case open_rotating f (closed\<lparr>rt_files := d\<rparr>) of (errs', r') \<Rightarrow> (errs @ errs', r'))))"

definition reportFailure :: "rotate_error list \<Rightarrow> rotating_file \<Rightarrow> rotating_file" where
  "reportFailure errs r = r\<lparr>rt_report := map_option (\<lambda>ls. ls @ [errs]) (rt_report r)\<rparr>"

definition must_rotate :: "string \<Rightarrow> rotating_file \<Rightarrow> bool" where
  "must_rotate p r \<longleftrightarrow> rt_max r > 0 \<and> rt_size r > 0 \<and> rt_size r + int (length p) > rt_max r"

datatype write_result = Written int | Short int | Not_open

definition append_current :: "rotate_faults \<Rightarrow> string \<Rightarrow> rotating_file \<Rightarrow> write_result \<times> rotating_file" where
  "append_current f p r =
     (let n = (case rf_write f of None \<Rightarrow> length p | Some k \<Rightarrow> min k (length p));
          content = (case rt_files r 0 of None \<Rightarrow> [] | Some s \<Rightarrow> s) @ take n p;
          r' = r\<lparr>rt_files := (rt_files r)(0 \<mapsto> content), rt_size := rt_size r + int n\<rparr>
      in (if rf_write f = None then Written (int n) else Short (int n), r'))"

definition Write_rotating :: "rotate_faults \<Rightarrow> string \<Rightarrow> rotating_file \<Rightarrow> write_result \<times> rotating_file" where
  "Write_rotating f p r =
     (let r1 = (if must_rotate p r
                then (case rotate_log f r of (errs, r') \<Rightarrow> if errs \<noteq> [] then reportFailure errs r' else r')
                else r)
      in if \<not> rt_open r1 then (Not_open, r1) else append_current f p r1)"

definition Close_rotating :: "bool \<Rightarrow> rotating_file \<Rightarrow> bool \<times> rotating_file" where
  "Close_rotating fails r = (rt_open r \<and> fails, r\<lparr>rt_open := False\<rparr>)"

fun write_all :: "(rotate_faults \<times> string) list \<Rightarrow> rotating_file \<Rightarrow> write_result list \<times> rotating_file" where
  "write_all [] r = ([], r)"
| "write_all ((f, p) # ws) r =
     (case Write_rotating f p r of (x, r1) \<Rightarrow> (case write_all ws r1 of (xs, r2) \<Rightarrow> (x # xs, r2)))"

section \<open>Rotation without failures\<close>

lemma rename_next_clean:
  "rename_next no_faults i (errs, d) = (errs, if d i = None then d else d(Suc i := d i, i := None))"
  by (auto simp: rename_next_def no_faults_def split: option.splits)

lemma faults_clean [simp]:
  "rf_close no_faults = False" "rf_remove no_faults = False" "rf_rename no_faults i = False"
  "rf_open no_faults = False" "rf_stat no_faults = False" "rf_write no_faults = None"
  by (simp_all add: no_faults_def)

lemma shift_clean:
  "0 < b \<Longrightarrow> fold (rename_next no_faults) (rev [1..<b]) (errs, d(b := None)) =
     (errs, \<lambda>j. if j = 1 then None else if 2 \<le> j \<and> j \<le> b then d (j - 1) else d j)"
proof (induction b arbitrary: d)
  case (Suc b)
  show ?case
  proof (cases "b = 0")
    case True
    then show ?thesis by (auto simp: fun_eq_iff)
  next
    case False
    then have split: "rev [1..<Suc b] = b # rev [1..<b]" by simp
    let ?d = "d(Suc b := d b)"
    have step: "rename_next no_faults b (errs, d(Suc b := None)) = (errs, ?d(b := None))"
      by (auto simp: rename_next_clean fun_eq_iff)
    have ih: "fold (rename_next no_faults) (rev [1..<b]) (errs, ?d(b := None)) =
        (errs, \<lambda>j. if j = 1 then None else if 2 \<le> j \<and> j \<le> b then ?d (j - 1) else ?d j)"
      using False by (intro Suc.IH) simp
    have eq: "(\<lambda>j. if j = 1 then None else if 2 \<le> j \<and> j \<le> b then ?d (j - 1) else ?d j) =
        (\<lambda>j. if j = 1 then None else if 2 \<le> j \<and> j \<le> Suc b then d (j - 1) else d j)"
      using False by (intro ext) (auto simp: le_Suc_eq)
    show ?thesis unfolding split fold.simps(2) o_apply step ih eq by (rule refl)
  qed
qed simp

lemma rotate_files_clean:
  assumes "d 0 = Some s" and "0 < b"
  shows "rotate_files no_faults b d =
    ([], \<lambda>j. if j = 0 then None else if j \<le> b then d (j - 1) else d j)"
proof -
  have "remove_oldest no_faults b d = ([], d(b := None))"
    by (auto simp: remove_oldest_def fun_eq_iff split: option.splits)
  then have "rotate_files no_faults b d = rename_current no_faults
      ([], \<lambda>j. if j = 1 then None else if 2 \<le> j \<and> j \<le> b then d (j - 1) else d j)"
    using shift_clean [OF assms(2), of "[]" d] by (simp add: rotate_files_def)
  with assms show ?thesis by (auto simp: rename_current_def fun_eq_iff)
qed

text \<open>
  The writes between two rotations form a group. \<open>holds gs r\<close>: the first group begins with what the
  file held when it was opened, and the groups lie in the generations, the newest in the file.
\<close>

definition holds :: "generations \<Rightarrow> string list list \<Rightarrow> rotating_file \<Rightarrow> bool" where
  "holds d gs r \<longleftrightarrow> gs \<noteq> [] \<and> rt_open r \<and> 0 < rt_backups r \<and> rt_size r = int (length (concat (last gs))) \<and>
     (\<forall>i. rt_files r i =
        (let k = length gs - 1 in
         if i \<le> k \<and> i \<le> rt_backups r then Some (concat (gs ! (k - i)))
         else if i \<le> rt_backups r then d (i - k) else d i))"

definition fits :: "int \<Rightarrow> string list \<Rightarrow> bool" where
  "fits m g \<longleftrightarrow> m \<le> 0 \<or> int (length (concat g)) \<le> m \<or> length (filter (\<lambda>p. p \<noteq> []) g) \<le> 1"

definition overflows :: "int \<Rightarrow> string list \<Rightarrow> string list \<Rightarrow> bool" where
  "overflows m g g' \<longleftrightarrow> 0 < m \<and> g' \<noteq> [] \<and> m < int (length (concat g)) + int (length (hd g'))"

lemma must_rotate_no_rotation:
  assumes "\<not> must_rotate p r" and "rt_size r = int (length (concat g))" and "fits (rt_max r) g"
  shows "fits (rt_max r) (g @ [p])"
proof -
  consider "rt_max r \<le> 0" | "concat g = []" | "int (length (concat g)) + int (length p) \<le> rt_max r"
    using assms(1,2) by (fastforce simp: must_rotate_def)
  then show ?thesis
  proof cases
    case 2
    then have "filter (\<lambda>p. p \<noteq> []) g = []" by (simp add: filter_empty_conv)
    then show ?thesis by (simp add: fits_def)
  qed (simp_all add: fits_def)
qed

lemma write_keeps_group:
  assumes "holds d gs r" and "\<not> must_rotate p r"
  shows "\<exists>r'. Write_rotating no_faults p r = (Written (int (length p)), r') \<and>
    holds d (butlast gs @ [last gs @ [p]]) r' \<and> rt_max r' = rt_max r \<and> rt_backups r' = rt_backups r \<and> rt_report r' = rt_report r"
proof -
  let ?gs = "butlast gs @ [last gs @ [p]]"
  from assms(1) have gs: "gs \<noteq> []" "length ?gs = length gs" by (auto simp: holds_def)
  have nth: "?gs ! (length gs - 1 - i) = (if i = 0 then last gs @ [p] else gs ! (length gs - 1 - i))"
    if "i \<le> length gs - 1" for i using gs(1) that by (cases i) (auto simp: nth_append nth_butlast)
  have head: "rt_files r 0 = Some (concat (last gs))"
    using assms(1) gs by (simp add: holds_def last_conv_nth)
  define r' where "r' = r\<lparr>rt_files := (rt_files r)(0 \<mapsto> concat (last gs) @ p),
    rt_size := rt_size r + int (length p)\<rparr>"
  have same: "rt_backups r' = rt_backups r" "rt_open r' = rt_open r" "rt_max r' = rt_max r"
    "rt_report r' = rt_report r" "rt_size r' = rt_size r + int (length p)" by (simp_all add: r'_def)
  have "Write_rotating no_faults p r = (Written (int (length p)), r')"
    using assms head by (simp add: Write_rotating_def append_current_def holds_def Let_def r'_def)
  moreover have "rt_files r' i = (let k = length ?gs - 1 in
      if i \<le> k \<and> i \<le> rt_backups r' then Some (concat (?gs ! (k - i)))
      else if i \<le> rt_backups r' then d (i - k) else d i)" for i
    using assms(1) nth [of i] by (cases "i = 0") (simp_all add: r'_def holds_def Let_def gs(2))
  then have "holds d ?gs r'" using assms(1) by (simp add: holds_def same)
  ultimately show ?thesis using same by auto
qed

lemma write_opens_group:
  assumes "holds d gs r" and "must_rotate p r"
  shows "\<exists>r'. Write_rotating no_faults p r = (Written (int (length p)), r') \<and>
    holds d (gs @ [[p]]) r' \<and> rt_max r' = rt_max r \<and> rt_backups r' = rt_backups r \<and> rt_report r' = rt_report r"
proof -
  let ?b = "rt_backups r" and ?k = "length gs - 1"
  from assms(1) have gs: "gs \<noteq> []" "rt_open r" "0 < ?b" by (auto simp: holds_def)
  have head: "rt_files r 0 = Some (concat (last gs))"
    using assms(1) gs by (simp add: holds_def last_conv_nth)
  define d1 where "d1 = (\<lambda>j. if j = 0 then None else if j \<le> ?b then rt_files r (j - 1) else rt_files r j)"
  define r' where "r' = r\<lparr>rt_open := True, rt_files := d1(0 \<mapsto> p), rt_size := int (length p)\<rparr>"
  have same: "rt_backups r' = rt_backups r" "rt_open r'" "rt_max r' = rt_max r"
    "rt_report r' = rt_report r" "rt_size r' = int (length p)" by (simp_all add: r'_def)
  have "rotate_log no_faults r = ([], r\<lparr>rt_open := True, rt_files := d1(0 \<mapsto> []), rt_size := 0\<rparr>)"
    using rotate_files_clean [where d = "rt_files r", OF head gs(3)] gs
    by (simp add: rotate_log_def open_rotating_def Let_def d1_def)
  then have "Write_rotating no_faults p r = (Written (int (length p)), r')"
    using assms(2) by (simp add: Write_rotating_def append_current_def Let_def r'_def)
  moreover have "rt_files r' i = (let k = length (gs @ [[p]]) - 1 in
      if i \<le> k \<and> i \<le> rt_backups r' then Some (concat ((gs @ [[p]]) ! (k - i)))
      else if i \<le> rt_backups r' then d (i - k) else d i)" for i
  proof (cases i)
    case 0
    then show ?thesis by (simp add: r'_def)
  next
    case (Suc j)
    have j: "rt_files r j = (if j \<le> ?k \<and> j \<le> ?b then Some (concat (gs ! (?k - j)))
        else if j \<le> ?b then d (j - ?k) else d j)"
      using assms(1) by (simp add: holds_def Let_def)
    have Sj: "?b < Suc j \<Longrightarrow> rt_files r (Suc j) = d (Suc j)"
      using assms(1) by (simp add: holds_def Let_def)
    have "Suc j - length gs = j - ?k" "j \<le> ?k \<Longrightarrow> length gs - Suc j = ?k - j"
      using gs(1) by (cases gs; simp)+
    have files: "rt_files r' (Suc j) = (if Suc j \<le> ?b then rt_files r j else rt_files r (Suc j))"
      by (simp add: r'_def d1_def)
    have le: "(Suc j \<le> length (gs @ [[p]]) - 1) = (j \<le> ?k)" using gs(1) by (cases gs) auto
    have nth: "j \<le> ?k \<Longrightarrow> (gs @ [[p]]) ! (length (gs @ [[p]]) - 1 - Suc j) = gs ! (?k - j)"
    proof -
      assume "j \<le> ?k"
      have "(gs @ [[p]]) ! (?k - j) = gs ! (?k - j)"
        by (rule nth_append [THEN trans], rule if_P) (use gs(1) in \<open>cases gs; simp\<close>)
      with \<open>j \<le> ?k \<Longrightarrow> length gs - Suc j = ?k - j\<close> [OF \<open>j \<le> ?k\<close>] show ?thesis by simp
    qed
    have sub: "Suc j - (length (gs @ [[p]]) - 1) = j - ?k"
      using gs(1) by (cases gs) simp_all
    show ?thesis
    proof (cases "Suc j \<le> ?b")
      case True
      then show ?thesis unfolding Suc Let_def files le sub same(1) j by (cases "j \<le> ?k") (simp_all only: nth if_True if_False simp_thms Suc_leD [OF True])
    next
      case False
      then have "?b < Suc j" by simp
      with False Sj show ?thesis unfolding Suc Let_def files le sub same(1) by simp
    qed
  qed
  then have "holds d (gs @ [[p]]) r'" using assms(1) by (simp add: holds_def same)
  ultimately show ?thesis using same by auto
qed

text \<open>A sequence of writes without failures.\<close>

definition grouped :: "int \<Rightarrow> string list list \<Rightarrow> bool" where
  "grouped m gs \<longleftrightarrow> list_all (fits m) gs \<and> successively (overflows m) gs"

lemma write_step:
  assumes "holds d gs r" and "grouped (rt_max r) gs"
  shows "\<exists>gs' r'. Write_rotating no_faults p r = (Written (int (length p)), r') \<and>
    concat gs' = concat gs @ [p] \<and> holds d gs' r' \<and> grouped (rt_max r') gs' \<and>
    rt_max r' = rt_max r \<and> rt_backups r' = rt_backups r \<and> rt_report r' = rt_report r"
proof -
  from assms(1) obtain hs g where gs: "gs = hs @ [g]" by (cases gs rule: rev_cases) (auto simp: holds_def)
  show ?thesis
  proof (cases "must_rotate p r")
    case True
    then have "overflows (rt_max r) g [p]"
      using assms(1) gs by (auto simp: must_rotate_def overflows_def holds_def)
    with assms(2) gs have "grouped (rt_max r) (gs @ [[p]])"
      by (simp add: grouped_def fits_def successively_append_iff)
    with write_opens_group [OF assms(1) True] show ?thesis
      by (intro exI [of _ "gs @ [[p]]"]) auto
  next
    case False
    have "fits (rt_max r) (g @ [p])"
      using must_rotate_no_rotation [OF False, of g] assms gs by (simp add: holds_def grouped_def)
    moreover have "overflows (rt_max r) h g \<Longrightarrow> overflows (rt_max r) h (g @ [p])" for h
      by (simp add: overflows_def)
    ultimately have "grouped (rt_max r) (hs @ [g @ [p]])"
      using assms(2) gs by (auto simp: grouped_def successively_append_iff)
    with write_keeps_group [OF assms(1) False] gs show ?thesis
      by (intro exI [of _ "hs @ [g @ [p]]"]) auto
  qed
qed

lemma write_all_holds:
  assumes "holds d gs r" and "grouped (rt_max r) gs"
  shows "\<exists>gs' r'. write_all (map (Pair no_faults) ps) r = (map (\<lambda>p. Written (int (length p))) ps, r') \<and>
    concat gs' = concat gs @ ps \<and> holds d gs' r' \<and> grouped (rt_max r') gs' \<and>
    rt_max r' = rt_max r \<and> rt_backups r' = rt_backups r \<and> rt_report r' = rt_report r"
  using assms
proof (induction ps arbitrary: gs r)
  case (Cons p ps)
  from write_step [OF Cons.prems, of p] obtain gs1 r1 where
    1: "Write_rotating no_faults p r = (Written (int (length p)), r1)" "concat gs1 = concat gs @ [p]"
      "holds d gs1 r1" "grouped (rt_max r1) gs1" "rt_max r1 = rt_max r" "rt_backups r1 = rt_backups r"
      "rt_report r1 = rt_report r" by blast
  from Cons.IH [OF 1(3,4)] obtain gs2 r2 where
    "write_all (map (Pair no_faults) ps) r1 = (map (\<lambda>p. Written (int (length p))) ps, r2)"
    "concat gs2 = concat gs1 @ ps" "holds d gs2 r2" "grouped (rt_max r2) gs2"
    "rt_max r2 = rt_max r1" "rt_backups r2 = rt_backups r1" "rt_report r2 = rt_report r1" by blast
  with 1 show ?case by (intro exI [of _ gs2] exI [of _ r2]) simp
qed (use assms in auto)

lemma opened_holds:
  assumes "OpenRotating no_faults m b report d = Inr r"
  shows "holds d [[case d 0 of None \<Rightarrow> [] | Some s \<Rightarrow> s]] r \<and> rt_max r = m \<and>
    rt_backups r = nat (if b \<le> 0 then DefaultMaxBackups else b) \<and> rt_report r = (if report then Some [] else None)"
  using assms by (auto simp: OpenRotating_def open_rotating_def Let_def holds_def DefaultMaxBackups_def)

lemma opens_without_faults: "\<exists>r. OpenRotating no_faults m b report d = Inr r"
  by (simp add: OpenRotating_def open_rotating_def Let_def)

text \<open>
  C26: When nothing fails, every write to a rotating file is taken whole, and what was written lies in
  the generations in order, the newest in the file, each generation being a run of whole writes: no
  write is split over two files, none is lost or repeated except that the generations beyond the
  number of backups are gone, and files that were there before move on in the same way. A generation
  is within the size limit or holds a single write, and each begins with the write that did not
  fit into the one before.\<close>
theorem rotation_keeps_newest:
  "\<exists>r r' gs. OpenRotating no_faults m b report d = Inr r \<and>
    write_all (map (Pair no_faults) ps) r = (map (\<lambda>p. Written (int (length p))) ps, r') \<and>
    concat gs = (case d 0 of None \<Rightarrow> [] | Some s \<Rightarrow> s) # ps \<and>
    (\<forall>i. rt_files r' i =
      (let k = length gs - 1; backups = nat (if b \<le> 0 then DefaultMaxBackups else b) in
       if i \<le> k \<and> i \<le> backups then Some (concat (gs ! (k - i)))
       else if i \<le> backups then d (i - k) else d i)) \<and>
    list_all (\<lambda>g. m \<le> 0 \<or> int (length (concat g)) \<le> m \<or> length (filter (\<lambda>p. p \<noteq> []) g) \<le> 1) gs \<and>
    successively (\<lambda>g g'. 0 < m \<and> g' \<noteq> [] \<and> m < int (length (concat g)) + int (length (hd g'))) gs"
proof -
  obtain r where r: "OpenRotating no_faults m b report d = Inr r" using opens_without_faults by blast
  let ?gs = "[[case d 0 of None \<Rightarrow> [] | Some s \<Rightarrow> s]]"
  have "grouped (rt_max r) ?gs" by (auto simp: grouped_def fits_def)
  with write_all_holds [of d ?gs r ps] opened_holds [OF r] obtain gs r' where
    "write_all (map (Pair no_faults) ps) r = (map (\<lambda>p. Written (int (length p))) ps, r')"
    "concat gs = (case d 0 of None \<Rightarrow> [] | Some s \<Rightarrow> s) # ps" "holds d gs r'" "grouped m gs"
    "rt_backups r' = nat (if b \<le> 0 then DefaultMaxBackups else b)" by auto
  note h = this
  have "\<forall>i. rt_files r' i =
      (let k = length gs - 1; backups = nat (if b \<le> 0 then DefaultMaxBackups else b) in
       if i \<le> k \<and> i \<le> backups then Some (concat (gs ! (k - i)))
       else if i \<le> backups then d (i - k) else d i)"
    using h(3) unfolding holds_def h(5) Let_def by blast
  with r h(1,2) h(4) [unfolded grouped_def fits_def [abs_def] overflows_def [abs_def]] show ?thesis by blast
qed

section \<open>Failures\<close>

definition handle_ok :: "rotating_file \<Rightarrow> bool" where
  "handle_ok r \<longleftrightarrow> \<not> rt_open r \<or> (\<exists>s. rt_files r 0 = Some s \<and> rt_size r = int (length s))"

lemma open_rotating_ok:
  assumes "\<not> rt_open r" and "open_rotating f r = (errs, r')"
  shows "handle_ok r' \<and> rt_open r' = (errs = []) \<and> (errs = []) = (\<not> rf_open f \<and> \<not> rf_stat f) \<and>
    rt_max r' = rt_max r \<and> rt_report r' = rt_report r"
  using assms by (auto simp: open_rotating_def handle_ok_def Let_def split: if_splits)

lemma rotate_log_ok:
  assumes "rotate_log f r = (errs, r')"
  shows "handle_ok r' \<and> rt_open r' = (\<not> rf_open f \<and> \<not> rf_stat f) \<and> (rt_open r' \<or> errs \<noteq> []) \<and>
    rt_max r' = rt_max r \<and> rt_report r' = rt_report r"
  using assms by (auto simp: rotate_log_def Let_def split: if_splits prod.splits dest!: open_rotating_ok [rotated])

lemma append_current_ok:
  assumes "handle_ok r" and "rt_open r"
  shows "\<exists>before. (case append_current f p r of (x, r') \<Rightarrow>
    rt_files r' = (rt_files r)(0 \<mapsto> before @ take (case rf_write f of None \<Rightarrow> length p | Some k \<Rightarrow> k) p) \<and>
    rt_files r 0 = Some before \<and> handle_ok r' \<and> rt_open r' \<and> rt_max r' = rt_max r \<and> rt_report r' = rt_report r \<and>
    x = (case rf_write f of None \<Rightarrow> Written (int (length p)) | Some k \<Rightarrow> Short (int (min k (length p)))))"
  using assms by (auto simp: append_current_def handle_ok_def Let_def min_def split: option.splits)

lemma write_ok:
  assumes "handle_ok r" and "Write_rotating f p r = (x, r')"
  shows "handle_ok r' \<and> rt_open r' = (if must_rotate p r then \<not> rf_open f \<and> \<not> rf_stat f else rt_open r) \<and>
    (x = Not_open) = (\<not> rt_open r') \<and>
    (\<not> rt_open r' \<or> (\<exists>before. rt_files r' 0 =
        Some (before @ take (case rf_write f of None \<Rightarrow> length p | Some k \<Rightarrow> k) p) \<and>
      x = (case rf_write f of None \<Rightarrow> Written (int (length p)) | Some k \<Rightarrow> Short (int (min k (length p))))))"
proof -
  define r1 where "r1 = (if must_rotate p r
    then (case rotate_log f r of (errs, r') \<Rightarrow> if errs \<noteq> [] then reportFailure errs r' else r') else r)"
  have r1: "handle_ok r1" "rt_open r1 = (if must_rotate p r then \<not> rf_open f \<and> \<not> rf_stat f else rt_open r)"
  proof -
    have reported: "handle_ok (reportFailure errs r') = handle_ok r'" "rt_open (reportFailure errs r') = rt_open r'"
      for errs r' by (simp_all add: reportFailure_def handle_ok_def)
    obtain errs r2 where r2: "rotate_log f r = (errs, r2)" by (cases "rotate_log f r")
    from rotate_log_ok [OF r2] assms(1) show "handle_ok r1"
      by (simp add: r1_def r2 reported)
    from rotate_log_ok [OF r2]
    show "rt_open r1 = (if must_rotate p r then \<not> rf_open f \<and> \<not> rf_stat f else rt_open r)"
      by (simp add: r1_def r2 reported)
  qed
  have w: "Write_rotating f p r = (if \<not> rt_open r1 then (Not_open, r1) else append_current f p r1)"
    by (simp add: Write_rotating_def r1_def Let_def)
  show ?thesis
  proof (cases "rt_open r1")
    case True
    then have "append_current f p r1 = (x, r')" using w assms(2) by simp
    with append_current_ok [where f = f and p = p, OF r1(1) True]
    have "handle_ok r' \<and> rt_open r' \<and> (\<exists>before. rt_files r' 0 =
        Some (before @ take (case rf_write f of None \<Rightarrow> length p | Some k \<Rightarrow> k) p)) \<and>
      x = (case rf_write f of None \<Rightarrow> Written (int (length p)) | Some k \<Rightarrow> Short (int (min k (length p))))"
      by auto
    with True r1(2) show ?thesis by (auto split: option.splits)
  next
    case False
    with w assms(2) r1 show ?thesis by auto
  qed
qed

lemma write_all_ok: "handle_ok r \<Longrightarrow> write_all ws r = (xs, r') \<Longrightarrow> handle_ok r'"
proof (induction ws r arbitrary: xs r' rule: write_all.induct)
  case (2 f p ws r)
  obtain x r1 ys where 1: "Write_rotating f p r = (x, r1)" "write_all ws r1 = (ys, r')"
    using "2.prems"(2) by (auto split: prod.splits)
  have "handle_ok r1" using write_ok [OF "2.prems"(1) 1(1)] by blast
  from "2.IH" [OF 1(1) [symmetric] this 1(2)] show ?case .
qed simp

lemma opened_ok: "OpenRotating f m b report d = Inr r \<Longrightarrow> handle_ok r"
  by (auto simp: OpenRotating_def Let_def split: prod.splits if_splits dest!: open_rotating_ok [rotated])

lemma rotation_silent:
  assumes "\<not> must_rotate p r" and "Write_rotating f p r = (x, r')"
  shows "(i = 0 \<or> rt_files r' i = rt_files r i) \<and> rt_report r' = rt_report r"
  using assms by (auto simp: Write_rotating_def append_current_def Let_def split: if_splits)

text \<open>
  Whatever the operating system refuses during any of the writes before it: a write to a rotating
  file is refused exactly when the file is not open after it; otherwise the file ends with what
  was taken of the text, all of it or the part that a short write leaves, and the answer says which.
  A write that rotates tries to open the file again, so logging continues as soon as opening works,
  and one that does not rotate changes no older generation.\<close>
theorem rotation_survives_failures:
  assumes "OpenRotating f0 m b report d = Inr r0" and "write_all ws r0 = (xs, r)"
    and "Write_rotating f p r = (x, r')"
  shows "(x = Not_open) = (\<not> rt_open r') \<and>
    rt_open r' = (if must_rotate p r then \<not> rf_open f \<and> \<not> rf_stat f else rt_open r) \<and>
    (\<not> rt_open r' \<or> (\<exists>before. rt_files r' 0 =
        Some (before @ take (case rf_write f of None \<Rightarrow> length p | Some k \<Rightarrow> k) p) \<and>
      x = (case rf_write f of None \<Rightarrow> Written (int (length p)) | Some k \<Rightarrow> Short (int (min k (length p)))))) \<and>
    (must_rotate p r \<or> (\<forall>i. i = 0 \<or> rt_files r' i = rt_files r i))"
proof -
  have "handle_ok r" by (rule write_all_ok [OF opened_ok [OF assms(1)] assms(2)])
  from write_ok [OF this assms(3)] rotation_silent [OF _ assms(3)] show ?thesis by blast
qed

definition open_refused :: rotate_faults where
  "open_refused = no_faults\<lparr>rf_open := True\<rparr>"

theorem rotation_survives_failures_witness:
  "\<exists>r0 r r'. OpenRotating no_faults 4 1 True Map.empty = Inr r0 \<and>
    write_all [(no_faults, ''one''), (open_refused, ''more'')] r0 = ([Written 3, Not_open], r) \<and>
    Write_rotating no_faults ''two'' r = (Written 3, r') \<and> rt_open r' \<and>
    (\<exists>before. rt_files r' 0 = Some (before @ ''two''))"
proof -
  have "\<exists>r0 r. OpenRotating no_faults 4 1 True Map.empty = Inr r0 \<and>
      write_all [(no_faults, ''one''), (open_refused, ''more'')] r0 = ([Written 3, Not_open], r) \<and> \<not> rt_open r \<and>
      must_rotate ''two'' r"
    by (simp add: OpenRotating_def open_rotating_def Write_rotating_def append_current_def must_rotate_def
        rotate_log_def rotate_files_def remove_oldest_def rename_next_def rename_current_def open_refused_def
        reportFailure_def Let_def)
  then obtain r0 r where r: "OpenRotating no_faults 4 1 True Map.empty = Inr r0"
      "write_all [(no_faults, ''one''), (open_refused, ''more'')] r0 = ([Written 3, Not_open], r)"
      "must_rotate ''two'' r" by blast
  obtain x r' where w: "Write_rotating no_faults ''two'' r = (x, r')" by (cases "Write_rotating no_faults ''two'' r")
  from rotation_survives_failures [OF r(1,2) w] r(3)
  have "x = Written 3 \<and> rt_open r' \<and> (\<exists>before. rt_files r' 0 = Some (before @ ''two''))" by auto
  with r(1,2) w show ?thesis by blast
qed

end
