(* ===== verification/Logging.thy ===== *)
theory Logging
  imports Events Rotate
begin

text \<open>
  The logger (\<^verbatim>\<open>internal/logging/logging.go\<close>, \<^verbatim>\<open>errors.go\<close>): levels, the attributes of a record with
  their groups and duplicates, the JSON and the text shape of a record, the choice of the handlers
  and the fan-out to several of them.

  Attributes are pairs of a key and a value; the values are the kinds that the program logs, which
  include no floating point number. What \<open>slog\<close> prints for a value that is not a string, where a
  string is expected, is an argument, and so are the terminal, the environment and the frame
  of a call. Texts are UTF-8 without U+2028 and U+2029, which the JSON encoder writes as they are.
\<close>

section \<open>Levels\<close>

type_synonym level = int

definition LevelTrace :: level where "LevelTrace = -8"
definition LevelDebug :: level where "LevelDebug = -4"
definition LevelInfo :: level where "LevelInfo = 0"
definition LevelWarn :: level where "LevelWarn = 4"
definition LevelError :: level where "LevelError = 8"
definition LevelFatal :: level where "LevelFatal = 12"

lemmas level_defs = LevelTrace_def LevelDebug_def LevelInfo_def LevelWarn_def LevelError_def LevelFatal_def

definition ParseLevel :: "string \<Rightarrow> level \<times> bool" where
  "ParseLevel s =
     (let n = ToLower (TrimSpace s) in
      if n = ''trace'' then (LevelTrace, True) else if n = ''debug'' then (LevelDebug, True)
      else if n = ''info'' then (LevelInfo, True)
      else if n = ''warn'' \<or> n = ''warning'' then (LevelWarn, True)
      else if n = ''error'' then (LevelError, True) else if n = ''fatal'' then (LevelFatal, True)
      else (LevelInfo, False))"

definition LevelName :: "level \<Rightarrow> string" where
  "LevelName l =
     (if l \<ge> LevelFatal then ''FATAL'' else if l \<ge> LevelError then ''ERROR''
      else if l \<ge> LevelWarn then ''WARN'' else if l \<ge> LevelInfo then ''INFO''
      else if l \<ge> LevelDebug then ''DEBUG'' else ''TRACE'')"

abbreviation escape_char :: char where "escape_char \<equiv> CHR 0x1B"
abbreviation tab :: char where "tab \<equiv> CHR 0x09"

definition colorReset :: string where "colorReset = escape_char # ''[0m''"

definition levelColor :: "level \<Rightarrow> string" where
  "levelColor l = escape_char #
     (if l \<ge> LevelError then ''[0;31m'' else if l \<ge> LevelWarn then ''[0;33m''
      else if l \<ge> LevelInfo then ''[0;36m'' else ''[0;90m'')"

section \<open>Attributes\<close>

datatype log_value =
    Str string
  | Num int
  | Boolean bool
  | Dur duration
  | Tm gotime
  | Strings "string list option"
  | Grp "(string \<times> log_value) list"

type_synonym attrs = "(string \<times> log_value) list"

fun flat_attr :: "string \<Rightarrow> string \<Rightarrow> log_value \<Rightarrow> attrs" where
  "flat_attr prefix key (Grp gs) =
     concat (map (\<lambda>(k, v). flat_attr (if key = [] then prefix else prefix @ key @ ''.'') k v) gs)"
| "flat_attr prefix key v = (if key = [] then [] else [(prefix @ key, v)])"

definition appendAttr :: "attrs \<Rightarrow> string \<Rightarrow> string \<times> log_value \<Rightarrow> attrs" where
  "appendAttr dst prefix a = (case a of (key, v) \<Rightarrow> dst @ flat_attr prefix key v)"

definition dedupe :: "attrs \<Rightarrow> attrs" where
  "dedupe as = fold (\<lambda>(k, v) out. AList.update k v out) as []"

definition hasKey :: "attrs \<Rightarrow> string \<Rightarrow> bool" where
  "hasKey as key = list_ex (\<lambda>(k, v). k = key) as"

text \<open>The call site: the function, the file and the line of a frame.\<close>

type_synonym frame = "string \<times> string \<times> int"

definition location :: "frame \<Rightarrow> string" where
  "location f =
     (case f of (function, path, line) \<Rightarrow>
       (let fn = last (Split function (CHR ''/''));
            fn' = (case Cut fn (CHR ''.'') of (a, b, found) \<Rightarrow> if found then b else fn)
        in (if path = [] then ''.'' else last (Split path (CHR ''/''))) @ '':'' @ fn' @ '':'' @ Itoa line))"

section \<open>The shapes of a record\<close>

definition log_json_char :: "char \<Rightarrow> string" where
  "log_json_char c = (if c \<in> {CHR ''<'', CHR ''>'', CHR ''&''} then [c] else json_char c)"

definition log_json :: "string \<Rightarrow> string" where
  "log_json s = [CHR 0x22] @ concat (map log_json_char s) @ [CHR 0x22]"

text \<open>\<open>Format(tsLayout)\<close> of a time in UTC, to the millisecond.\<close>

definition log_time :: "gotime \<Rightarrow> string" where
  "log_time t =
     (let sec = t div 1000000000; sod = sec mod 86400
      in case civil_from_days (sec div 86400) of (y, m, d) \<Rightarrow>
        pad 4 y @ ''-'' @ pad 2 m @ ''-'' @ pad 2 d @ ''T'' @
        pad 2 (sod div 3600) @ '':'' @ pad 2 (sod div 60 mod 60) @ '':'' @ pad 2 (sod mod 60) @ ''.'' @
        pad 3 (t div 1000000 mod 1000) @ ''Z'')"

fun writeValue :: "log_value \<Rightarrow> string" where
  "writeValue (Str s) = log_json s"
| "writeValue (Num n) = Itoa n"
| "writeValue (Boolean b) = (if b then ''true'' else ''false'')"
| "writeValue (Dur d) = Itoa (Milliseconds d)"
| "writeValue (Tm t) = log_json (log_time t)"
| "writeValue (Strings None) = ''null''"
| "writeValue (Strings (Some xs)) = ''['' @ Join (map log_json xs) '','' @ '']''"
| "writeValue (Grp gs) = ''null''"

definition member :: "string \<times> log_value \<Rightarrow> string" where
  "member a = (case a of (k, v) \<Rightarrow> log_json k @ '':'' @ writeValue v)"

record log_record =
  lr_time :: gotime
  lr_level :: level
  lr_message :: string
  lr_frame :: "frame option"
  lr_attrs :: attrs

definition writeJSONRecord :: "log_record \<Rightarrow> string \<Rightarrow> string \<Rightarrow> attrs \<Rightarrow> string" where
  "writeJSONRecord r reqID service rest =
     ''{'' @ log_json ''timestamp'' @ '':'' @ log_json (log_time (lr_time r))
     @ '','' @ log_json ''level'' @ '':'' @ log_json (LevelName (lr_level r))
     @ '','' @ log_json ''message'' @ '':'' @ log_json (lr_message r)
     @ '','' @ log_json ''requestId'' @ '':'' @ log_json reqID
     @ (if service \<noteq> [] then '','' @ log_json ''service'' @ '':'' @ log_json service else [])
     @ concat (map (\<lambda>a. '','' @ member a) rest)
     @ ''}'' @ [newline]"

definition oneLine :: "string \<Rightarrow> string" where
  "oneLine s = map (\<lambda>c. if c = tab \<or> c = newline \<or> c = carriage_return then CHR '' '' else c) s"

definition rest_text :: "attrs \<Rightarrow> string" where
  "rest_text rest = (if rest = [] then ''-'' else ''{'' @ Join (map member rest) '','' @ ''}'')"

definition writeText :: "bool \<Rightarrow> log_record \<Rightarrow> string \<Rightarrow> attrs \<Rightarrow> string" where
  "writeText color r reqID rest =
     (if color then levelColor (lr_level r) else [])
     @ log_time (lr_time r) @ [tab] @ oneLine reqID @ [tab] @ LevelName (lr_level r) @ [tab]
     @ oneLine (lr_message r) @ [tab] @ rest_text rest
     @ (if color then colorReset else []) @ [newline]"

section \<open>Handlers\<close>

abbreviation FormatAuto :: string where "FormatAuto \<equiv> ''auto''"
abbreviation FormatJSON :: string where "FormatJSON \<equiv> ''json''"
abbreviation FormatText :: string where "FormatText \<equiv> ''text''"

record handler =
  ha_level :: level
  ha_format :: string
  ha_color :: bool
  ha_attrs :: attrs
  ha_prefix :: string

definition newHandler :: "level \<Rightarrow> string \<Rightarrow> bool \<Rightarrow> handler" where
  "newHandler level format color =
     \<lparr>ha_level = level, ha_format = format, ha_color = color, ha_attrs = [], ha_prefix = []\<rparr>"

definition Enabled :: "handler \<Rightarrow> level \<Rightarrow> bool" where
  "Enabled h l \<longleftrightarrow> l \<ge> ha_level h"

definition WithAttrs :: "attrs \<Rightarrow> handler \<Rightarrow> handler" where
  "WithAttrs as h = h\<lparr>ha_attrs := fold (\<lambda>a dst. appendAttr dst (ha_prefix h) a) as (ha_attrs h)\<rparr>"

definition WithGroup :: "string \<Rightarrow> handler \<Rightarrow> handler" where
  "WithGroup name h = (if name = [] then h else h\<lparr>ha_prefix := ha_prefix h @ name @ ''.''\<rparr>)"

definition record_attrs :: "handler \<Rightarrow> log_record \<Rightarrow> attrs" where
  "record_attrs h r =
     (let as = dedupe (fold (\<lambda>a dst. appendAttr dst (ha_prefix h) a) (lr_attrs r) (ha_attrs h))
      in case lr_frame r of
           Some f \<Rightarrow> if lr_level r \<ge> LevelError \<and> \<not> hasKey as ''location''
                     then as @ [(''location'', Str (location f))] else as
         | None \<Rightarrow> as)"

text \<open>\<open>Value.String\<close>; \<open>other\<close> gives the text of the kinds that are not strings.\<close>

definition value_text :: "(log_value \<Rightarrow> string) \<Rightarrow> log_value \<Rightarrow> string" where
  "value_text other v = (case v of Str s \<Rightarrow> s | _ \<Rightarrow> other v)"

definition format_record :: "(log_value \<Rightarrow> string) \<Rightarrow> handler \<Rightarrow> log_record \<Rightarrow> string" where
  "format_record other h r =
     (let as = record_attrs h r;
          reqID = fold (\<lambda>(k, v) s. if k = ''requestId'' then value_text other v else s) as ''-'';
          service = fold (\<lambda>(k, v) s. if k = ''service'' then value_text other v else s) as [];
          rest = filter (\<lambda>(k, v). k \<noteq> ''requestId'' \<and> k \<noteq> ''service'') as
      in if ha_format h = FormatText then writeText (ha_color h) r reqID rest
         else writeJSONRecord r reqID service rest)"

text \<open>\<open>fanout\<close>: every handler that is enabled gets the record; the first error is the result.\<close>

definition fanout_Enabled :: "handler list \<Rightarrow> level \<Rightarrow> bool" where
  "fanout_Enabled hs l = list_ex (\<lambda>h. Enabled h l) hs"

fun fanout_Handle :: "(log_value \<Rightarrow> string) \<Rightarrow> (nat \<Rightarrow> string \<Rightarrow> string option) \<Rightarrow> nat \<Rightarrow> handler list \<Rightarrow> log_record
    \<Rightarrow> (nat \<times> string) list \<times> string option" where
  "fanout_Handle other write i [] r = ([], None)"
| "fanout_Handle other write i (h # hs) r =
     (case fanout_Handle other write (Suc i) hs r of (out, later) \<Rightarrow>
        if \<not> Enabled h (lr_level r) then (out, later)
        else (let line = format_record other h r
              in ((i, line) # out, case write i line of None \<Rightarrow> later | Some e \<Rightarrow> Some e)))"

definition fanout_WithAttrs :: "attrs \<Rightarrow> handler list \<Rightarrow> handler list" where
  "fanout_WithAttrs as hs = map (WithAttrs as) hs"

definition fanout_WithGroup :: "string \<Rightarrow> handler list \<Rightarrow> handler list" where
  "fanout_WithGroup name hs = map (WithGroup name) hs"

section \<open>New\<close>

record log_options =
  lo_level :: string
  lo_format :: string
  lo_file :: string
  lo_max_size_mb :: int
  lo_max_backups :: int
  lo_console :: bool

datatype log_target = To_file rotating_file | To_stderr

definition colorEnabled :: "bool \<Rightarrow> string \<Rightarrow> bool \<Rightarrow> bool" where
  "colorEnabled tty no_color vt \<longleftrightarrow> no_color = [] \<and> tty \<and> vt"

text \<open>
  The handlers of a logger, each with where it writes. \<open>tty\<close> says whether stderr is a terminal and \<open>vt\<close>
  whether it takes escape sequences; opening the log file uses the rotating file above.
\<close>

definition New_logger :: "rotate_faults \<Rightarrow> generations \<Rightarrow> bool \<Rightarrow> string \<Rightarrow> bool \<Rightarrow> log_options
    \<Rightarrow> rotate_error list + (log_target \<times> handler) list" where
  "New_logger f d tty no_color vt opts =
     (let level = (case ParseLevel (lo_level opts) of (l, ok) \<Rightarrow> if ok then l else LevelInfo);
          color = colorEnabled tty no_color vt;
          format = lo_format opts;
          handlers =
            (if lo_file opts \<noteq> [] then
               (case OpenRotating f (lo_max_size_mb opts * 2 ^ 20) (lo_max_backups opts) True d of
                  Inl errs \<Rightarrow> Inl errs
                | Inr rf \<Rightarrow> Inr (
                    (To_file rf, newHandler level (if format = [] \<or> format = FormatAuto then FormatJSON else format) False)
                    # (if lo_console opts \<and> tty then [(To_stderr, newHandler level FormatText color)] else [])))
             else
               (let format = (if format = [] \<or> format = FormatAuto
                              then if tty then FormatText else FormatJSON else format)
                in Inr [(To_stderr, newHandler level format (format = FormatText \<and> color))]))
      in case handlers of Inl errs \<Rightarrow> Inl errs
         | Inr hs \<Rightarrow> Inr (map (\<lambda>(w, h). (w, WithAttrs [(''service'', Str ''kickd'')] h)) hs))"

section \<open>Errors as attributes\<close>

text \<open>An error with the name of its type, the type's path, its text, and what it wraps.\<close>

datatype go_error =
  Go_error (ge_name: string) (ge_path: string) (ge_message: string)
           (ge_unwrap: "go_error option") (ge_joined: "go_error list")

definition genericWrapper :: "string \<Rightarrow> bool" where
  "genericWrapper path \<longleftrightarrow> path \<in> {''fmt.wrapError'', ''fmt.wrapErrors'', ''errors.joinError''}"

fun error_type :: "string \<Rightarrow> go_error \<Rightarrow> string" where
  "error_type outer (Go_error name path msg inner joined) =
     (let outer' = (if outer = [] then name else outer) in
      if \<not> genericWrapper path then name
      else (case inner of Some e \<Rightarrow> error_type outer' e
            | None \<Rightarrow> (case joined of e # es \<Rightarrow> error_type outer' e | [] \<Rightarrow> outer')))"

definition ErrorType :: "go_error \<Rightarrow> string" where
  "ErrorType e = error_type [] e"

definition Err_attr :: "go_error option \<Rightarrow> string \<times> log_value" where
  "Err_attr e =
     (case e of None \<Rightarrow> ([], Strings None)
      | Some e \<Rightarrow> ([], Grp [(''errorType'', Str (ErrorType e)), (''errorMessage'', Str (ge_message e))]))"

definition maxFrames :: nat where "maxFrames = 50"

text \<open>\<open>strings.LastIndex\<close>.\<close>

definition LastIndex :: "string \<Rightarrow> string \<Rightarrow> nat option" where
  "LastIndex s sub = find (\<lambda>i. HasPrefix (drop i s) sub) (rev [0..<Suc (length s)])"

definition function_name :: "string \<Rightarrow> string" where
  "function_name fn =
     (case LastIndex fn ''('' of
        Some j \<Rightarrow> if j > 0 \<and> HasSuffix fn '')'' then take j fn else fn
      | None \<Rightarrow> fn)"

definition frame_position :: "string \<Rightarrow> string" where
  "frame_position l =
     (let pos = TrimSpace l in case LastIndex pos '' +0x'' of Some j \<Rightarrow> take j pos | None \<Rightarrow> pos)"

fun stack_lines :: "string list \<Rightarrow> string list" where
  "stack_lines [] = []"
| "stack_lines (l # ls) =
     (let fn = TrimSpace l in
      if fn = [] \<or> HasPrefix fn ''goroutine '' then stack_lines ls
      else (case ls of
              next # rest \<Rightarrow>
                if HasPrefix next [tab]
                then (function_name fn @ '' ('' @ frame_position next @ '')'') # stack_lines rest
                else function_name fn # stack_lines ls
            | [] \<Rightarrow> [function_name fn]))"

definition StackFrames :: "string \<Rightarrow> string list" where
  "StackFrames stack =
     (let frames = stack_lines (Split (TrimSpace stack) newline);
          after = dropWhile (\<lambda>f. \<not> (HasPrefix f ''panic '' \<or> f = ''panic'')) frames
      in take maxFrames (if after = [] then frames else tl after))"

text \<open>\<open>Panic\<close>: the recovered value is an error, or another value with its text.\<close>

definition Panic :: "go_error option \<Rightarrow> string \<Rightarrow> string \<Rightarrow> string \<times> log_value" where
  "Panic err text stack =
     ([], Grp [(''errorType'', Str (case err of Some e \<Rightarrow> ErrorType e | None \<Rightarrow> ''panic'')),
               (''errorMessage'', Str text), (''stackTrace'', 
                 Strings (if stack_lines (Split (TrimSpace stack) newline) = [] then None else Some (StackFrames stack)))])"

end
