(* ===== verification/LogProps.thy ===== *)
theory LogProps
  imports Logging
begin

text \<open>
  What a log line says (\<^verbatim>\<open>internal/logging/logging.go\<close>): a record is one line whatever its texts hold,
  the columns of the text shape and the strings of the JSON can be read back, and of several
  attributes with one key the last one counts.
\<close>

section \<open>Texts without tabs and line breaks\<close>

definition flat_text :: "string \<Rightarrow> bool" where
  "flat_text s = list_all (\<lambda>c. c \<noteq> tab \<and> c \<noteq> newline \<and> c \<noteq> carriage_return) s"

lemma flat_text_simps [simp]:
  "flat_text []" "flat_text (c # s) = (c \<noteq> tab \<and> c \<noteq> newline \<and> c \<noteq> carriage_return \<and> flat_text s)"
  "flat_text (s @ t) = (flat_text s \<and> flat_text t)"
  by (auto simp: flat_text_def)

lemma flat_text_concat: "flat_text (concat ss) = list_all flat_text ss"
  by (induction ss) simp_all

lemma flat_text_Join: "list_all flat_text ss \<Longrightarrow> flat_text sep \<Longrightarrow> flat_text (Join ss sep)"
  by (induction ss sep rule: Join.induct) simp_all

lemma flat_text_replicate: "c \<noteq> tab \<and> c \<noteq> newline \<and> c \<noteq> carriage_return \<Longrightarrow> flat_text (replicate n c)"
  by (induction n) simp_all

lemma of_char_neqI: "of_char c \<noteq> (of_char d :: nat) \<Longrightarrow> c \<noteq> d" by auto

lemma visible_flat: "32 \<le> (of_char c :: nat) \<Longrightarrow> c \<noteq> tab \<and> c \<noteq> newline \<and> c \<noteq> carriage_return"
  by auto

lemma digit_flat: "n < 10 \<Longrightarrow> flat_text [digit_char n]"
  using visible_flat [of "digit_char n"] by (simp add: digit_char_def of_char_of)

lemma nat_digits_flat: "flat_text (nat_digits n)"
proof (induction n rule: nat_digits.induct)
  case (1 n)
  show ?case
    using digit_flat [of n] digit_flat [of "n mod 10"] 1 by (subst nat_digits.simps) auto
qed

lemma Itoa_flat: "flat_text (Itoa n)"
  by (simp add: Itoa_def nat_digits_flat)

lemma pad_flat: "flat_text (pad n v)"
  by (simp add: pad_def Let_def Itoa_flat flat_text_replicate)

lemma log_time_flat: "flat_text (log_time t)"
  by (simp add: log_time_def Let_def pad_flat split: prod.splits)

lemma hex_char_flat: "n < 16 \<Longrightarrow> flat_text [hex_char n]"
  using visible_flat [of "hex_char n"] by (simp add: hex_char_def of_char_of split: if_splits)

lemma json_char_flat: "flat_text (json_char c)"
proof -
  have n: "of_char c < (256::nat)" by (rule nat_of_char_less_256)
  have h: "flat_text [hex_char (of_char c div 16)]" "flat_text [hex_char (of_char c mod 16)]"
    by (rule hex_char_flat, use n in linarith) (rule hex_char_flat, simp)
  consider "of_char c < (32::nat)" | "32 \<le> (of_char c :: nat)" by linarith
  then show ?thesis
    using h visible_flat [of c] by cases (auto simp: json_char_def Let_def)
qed

lemma log_json_char_flat: "flat_text (log_json_char c)"
  using json_char_flat [of c] by (auto simp: log_json_char_def)

lemma log_json_flat: "flat_text (log_json s)"
  by (induction s) (simp_all add: log_json_def log_json_char_flat)

lemma writeValue_flat: "flat_text (writeValue v)"
  by (cases v rule: writeValue.cases)
    (simp_all add: log_json_flat Itoa_flat flat_text_Join list_all_iff)

lemma member_flat: "flat_text (member a)"
  by (cases a) (simp add: member_def log_json_flat writeValue_flat)

lemma rest_text_flat: "flat_text (rest_text rest)"
  by (simp add: rest_text_def flat_text_Join list_all_iff member_flat)

lemma oneLine_flat: "flat_text (oneLine s)"
  by (induction s) (simp_all add: oneLine_def)

lemma LevelName_flat: "flat_text (LevelName l)"
  by (simp add: LevelName_def)

lemma levelColor_flat: "flat_text (levelColor l)"
  by (simp add: levelColor_def)

lemma flat_text_no_newline: "flat_text s \<Longrightarrow> newline \<notin> set s"
  by (induction s) auto

text \<open>The line with which a rotating file reports a failure of its own, without its line break.\<close>

definition failure_report :: "gotime \<Rightarrow> string \<Rightarrow> go_error \<Rightarrow> string" where
  "failure_report now path e =
     log_time now @ [tab] @ ''-'' @ [tab] @ ''WARN'' @ [tab] @ ''Log rotation failed'' @ [tab] @ ''{'' @ log_json ''file'' @ '':''
     @ log_json path @ '','' @ log_json ''errorType'' @ '':'' @ log_json (ErrorType e)
     @ '','' @ log_json ''errorMessage'' @ '':'' @ log_json (ge_message e) @ ''}''"

lemma failure_report_one_line: "newline \<notin> set (failure_report now path e) \<and> carriage_return \<notin> set (failure_report now path e)"
proof -
  have flat: "flat_text s \<Longrightarrow> newline \<notin> set s \<and> carriage_return \<notin> set s" for s
    by (auto simp: flat_text_def list_all_iff)
  show ?thesis
    using flat [OF log_time_flat [of now]] flat [OF log_json_flat [of "''file''"]] flat [OF log_json_flat [of path]]
      flat [OF log_json_flat [of "''errorType''"]] flat [OF log_json_flat [of "ErrorType e"]]
      flat [OF log_json_flat [of "''errorMessage''"]] flat [OF log_json_flat [of "ge_message e"]]
    by (simp add: failure_report_def)
qed

section \<open>Reading back\<close>

lemma Split_flat: "flat_text a \<Longrightarrow> Split a tab = [a]"
  by (induction a) auto

lemma Split_column: "flat_text a \<Longrightarrow> Split (a @ tab # b) tab = a # Split b tab"
  by (induction a) auto

text \<open>A reader of JSON strings after RFC 8259, for the escapes of one byte.\<close>

definition hex_value :: "char \<Rightarrow> nat" where
  "hex_value c = (let n = of_char c :: nat in if n < 58 then n - 48 else n - 87)"

definition escaped :: "char \<Rightarrow> char option" where
  "escaped c = map_of [(CHR 0x22, CHR 0x22), (CHR 0x5C, CHR 0x5C), (CHR ''/'', CHR ''/''), (CHR ''b'', CHR 0x08),
     (CHR ''f'', CHR 0x0C), (CHR ''n'', newline), (CHR ''r'', carriage_return), (CHR ''t'', tab)] c"

fun read_string :: "string \<Rightarrow> (string \<times> string) option" where
  "read_string [] = None"
| "read_string (c # s) =
     (if c = CHR 0x22 then Some ([], s)
      else if c = CHR 0x5C then
        (case s of
           e # s1 \<Rightarrow>
             (if e = CHR ''u'' then
                (case s1 of z # z' # a # b # s2 \<Rightarrow>
                   map_option (\<lambda>(t, r). (char_of (16 * hex_value a + hex_value b) # t, r)) (read_string s2)
                 | _ \<Rightarrow> None)
              else (case escaped e of
                      Some x \<Rightarrow> map_option (\<lambda>(t, r). (x # t, r)) (read_string s1)
                    | None \<Rightarrow> None))
         | [] \<Rightarrow> None)
      else if of_char c < (32 :: nat) then None
      else map_option (\<lambda>(t, r). (c # t, r)) (read_string s))"

definition read_json :: "string \<Rightarrow> (string \<times> string) option" where
  "read_json s = (case s of q # t \<Rightarrow> if q = CHR 0x22 then read_string t else None | [] \<Rightarrow> None)"

lemma hex_value_char: "n < 16 \<Longrightarrow> hex_value (hex_char n) = n"
  by (auto simp: hex_value_def hex_char_def of_char_of Let_def)

lemma json_char_cases:
  "log_json_char c = [c] \<and> c \<noteq> CHR 0x22 \<and> c \<noteq> CHR 0x5C \<and> 32 \<le> (of_char c :: nat) \<or>
   (\<exists>e. log_json_char c = [CHR 0x5C, e] \<and> e \<noteq> CHR ''u'' \<and> escaped e = Some c) \<or>
   of_char c < (32::nat) \<and> log_json_char c =
     [CHR 0x5C, CHR ''u'', CHR ''0'', CHR ''0'', hex_char (of_char c div 16), hex_char (of_char c mod 16)]"
proof -
  have num: "(c = d) = (of_char c = n)" if "of_char d = n" for d :: char and n :: nat
    unfolding that [symmetric] by simp
  have eqs: "(c = CHR 0x22) = (of_char c = (34::nat))" "(c = CHR 0x5C) = (of_char c = (92::nat))"
    "(c = CHR ''<'') = (of_char c = (60::nat))" "(c = CHR ''>'') = (of_char c = (62::nat))"
    "(c = CHR ''&'') = (of_char c = (38::nat))" "(c = CHR 0x08) = (of_char c = (8::nat))"
    "(c = CHR 0x0C) = (of_char c = (12::nat))" "(c = newline) = (of_char c = (10::nat))"
    "(c = carriage_return) = (of_char c = (13::nat))" "(c = tab) = (of_char c = (9::nat))"
    by (rule num, simp)+
  let ?n = "of_char c :: nat"
  consider (short) "c \<in> {CHR 0x22, CHR 0x5C, CHR 0x08, CHR 0x0C, newline, carriage_return, tab}"
    | (html) "c \<in> {CHR ''<'', CHR ''>'', CHR ''&''}"
    | (hex) "?n < 32" "?n \<noteq> 8" "?n \<noteq> 12" "?n \<noteq> 10" "?n \<noteq> 13" "?n \<noteq> 9"
    | (plain) "32 \<le> ?n" "?n \<noteq> 34" "?n \<noteq> 92" "?n \<noteq> 60" "?n \<noteq> 62" "?n \<noteq> 38"
  proof (cases "c \<in> {CHR 0x22, CHR 0x5C, CHR 0x08, CHR 0x0C, newline, carriage_return, tab}")
    case not_short: False
    show thesis
    proof (cases "c \<in> {CHR ''<'', CHR ''>'', CHR ''&''}")
      case not_html: False
      show thesis
      proof (cases "?n < 32")
        case True
        from True not_short show thesis unfolding insert_iff empty_iff eqs by (intro hex) simp_all
      next
        case False
        from False not_short not_html show thesis unfolding insert_iff empty_iff eqs by (intro plain) simp_all
      qed
    qed (rule html)
  qed (rule short)
  then show ?thesis
  proof cases
    case short
    then have "\<exists>e. log_json_char c = [CHR 0x5C, e] \<and> e \<noteq> CHR ''u'' \<and> escaped e = Some c"
      by (elim insertE emptyE; simp add: log_json_char_def json_char_def escaped_def)
    then show ?thesis by (rule disjI2 [OF disjI1])
  next
    case html
    then show ?thesis by (auto simp: log_json_char_def)
  next
    case hex
    then have "log_json_char c = json_char c" unfolding log_json_char_def insert_iff empty_iff eqs by simp
    with hex show ?thesis by (simp add: json_char_def Let_def)
  next
    case plain
    then have "log_json_char c = json_char c" unfolding log_json_char_def insert_iff empty_iff eqs by simp
    with plain show ?thesis unfolding eqs by (simp add: json_char_def Let_def)
  qed
qed

lemma read_string_log: "read_string (concat (map log_json_char s) @ CHR 0x22 # r) = Some (s, r)"
proof (induction s)
  case (Cons c s)
  consider (plain) "log_json_char c = [c]" "c \<noteq> CHR 0x22" "c \<noteq> CHR 0x5C" "32 \<le> (of_char c :: nat)"
    | (short) e where "log_json_char c = [CHR 0x5C, e]" "e \<noteq> CHR ''u''" "escaped e = Some c"
    | (hex) "of_char c < (32::nat)" "log_json_char c =
        [CHR 0x5C, CHR ''u'', CHR ''0'', CHR ''0'', hex_char (of_char c div 16), hex_char (of_char c mod 16)]"
    using json_char_cases [of c] by blast
  then show ?case
  proof cases
    case hex
    have "of_char c div 16 < (16::nat)" using hex(1) by simp
    moreover have "char_of (16 * (of_char c div 16 :: nat) + of_char c mod 16) = c"
      by (simp add: mult_div_mod_eq)
    ultimately show ?thesis using Cons.IH hex(2) by (simp add: hex_value_char)
  qed (use Cons.IH in simp_all)
qed simp

lemma read_json_log: "read_json (log_json s @ r) = Some (s, r)"
  using read_string_log [of s r] by (simp add: read_json_def log_json_def)

section \<open>Attributes\<close>

lemma fold_update:
  "map_of (fold (\<lambda>(k, v) out. AList.update k v out) as out) k =
     (case map_of (rev as) k of Some v \<Rightarrow> Some v | None \<Rightarrow> map_of out k)"
  by (induction as arbitrary: out)
    (auto simp: AList.update_conv map_add_def split: option.splits)

lemma dedupe_map_of: "map_of (dedupe as) k = map_of (rev as) k"
  by (simp add: dedupe_def fold_update split: option.splits)

lemma dedupe_distinct: "distinct (map fst (dedupe as))"
proof -
  have "distinct (map fst (fold (\<lambda>(k, v) out. AList.update k v out) as out))" if "distinct (map fst out)"
    for out :: attrs
    using that by (induction as arbitrary: out) (auto simp: AList.distinct_update)
  from this [of "[]"] show ?thesis by (simp add: dedupe_def)
qed

text \<open>The attributes given to a record, in order: those of the handler and those of the call.\<close>

definition given_attrs :: "handler \<Rightarrow> log_record \<Rightarrow> attrs" where
  "given_attrs h r = fold (\<lambda>a dst. appendAttr dst (ha_prefix h) a) (lr_attrs r) (ha_attrs h)"

lemma hasKey_iff: "hasKey as k = (k \<in> fst ` set as)"
  by (induction as) (auto simp: hasKey_def)

lemma record_attrs_distinct: "distinct (map fst (record_attrs h r))"
  using dedupe_distinct [of "given_attrs h r"]
  by (auto simp: record_attrs_def Let_def given_attrs_def [symmetric] hasKey_iff split: option.splits)

lemma record_attrs_map_of:
  "k = ''location'' \<or> map_of (record_attrs h r) k = map_of (rev (given_attrs h r)) k"
  by (auto simp: record_attrs_def Let_def given_attrs_def [symmetric] map_add_def dedupe_map_of split: option.splits)

lemma record_attrs_location:
  "map_of (record_attrs h r) ''location'' =
     (case map_of (rev (given_attrs h r)) ''location'' of Some v \<Rightarrow> Some v
      | None \<Rightarrow> (case lr_frame r of
          Some f \<Rightarrow> if lr_level r \<ge> LevelError then Some (Str (location f)) else None | None \<Rightarrow> None))"
proof -
  have "hasKey (dedupe as) k = (map_of (rev as) k \<noteq> None)" for as k
    unfolding hasKey_iff dedupe_map_of [symmetric] by (auto simp: map_of_eq_None_iff)
  then show ?thesis
    by (auto simp: record_attrs_def Let_def given_attrs_def [symmetric] map_add_def dedupe_map_of split: option.splits)
qed

lemma fold_pick:
  "distinct (map fst as) \<Longrightarrow>
   fold (\<lambda>(k, v) s. if k = key then f v else s) as z = (case map_of as key of Some v \<Rightarrow> f v | None \<Rightarrow> z)"
proof (induction as arbitrary: z)
  case (Cons a as)
  show ?case
  proof (cases "fst a = key")
    case True
    with Cons.prems have "map_of as key = None" by (auto simp: map_of_eq_None_iff)
    with True Cons show ?thesis by (cases a) auto
  next
    case False
    with Cons show ?thesis by (cases a) auto
  qed
qed simp

definition text_or :: "(log_value \<Rightarrow> string) \<Rightarrow> string \<Rightarrow> log_value option \<Rightarrow> string" where
  "text_or other z v = (case v of Some v \<Rightarrow> value_text other v | None \<Rightarrow> z)"

definition rest_attrs :: "attrs \<Rightarrow> attrs" where
  "rest_attrs as = filter (\<lambda>(k, v). k \<noteq> ''requestId'' \<and> k \<noteq> ''service'') as"

lemma format_record_text:
  "format_record other h r =
     (if ha_format h = FormatText
      then writeText (ha_color h) r (text_or other ''-'' (map_of (record_attrs h r) ''requestId''))
        (rest_attrs (record_attrs h r))
      else writeJSONRecord r (text_or other ''-'' (map_of (record_attrs h r) ''requestId''))
        (text_or other [] (map_of (record_attrs h r) ''service'')) (rest_attrs (record_attrs h r)))"
  unfolding format_record_def Let_def
  by (simp add: fold_pick [OF record_attrs_distinct] text_or_def rest_attrs_def)

lemma json_record_flat:
  "\<exists>body. writeJSONRecord r reqID service rest = body @ [newline] \<and> flat_text body"
  by (auto simp: writeJSONRecord_def log_json_flat flat_text_concat list_all_iff member_flat)

lemma json_record_lines:
  "\<exists>body. writeJSONRecord r reqID service rest = body @ [newline] \<and> newline \<notin> set body \<and> tab \<notin> set body"
proof -
  have "flat_text s \<Longrightarrow> newline \<notin> set s \<and> tab \<notin> set s" for s by (induction s) auto
  with json_record_flat [of r reqID service rest] show ?thesis by blast
qed

definition text_columns :: "log_record \<Rightarrow> string \<Rightarrow> attrs \<Rightarrow> string list" where
  "text_columns r reqID rest =
     [log_time (lr_time r), oneLine reqID, LevelName (lr_level r), oneLine (lr_message r), rest_text rest]"

lemma text_record_columns:
  "\<exists>columns. writeText color r reqID rest =
      (if color then levelColor (lr_level r) else []) @ columns @ (if color then colorReset else []) @ [newline] \<and>
    Split columns tab = text_columns r reqID rest \<and> newline \<notin> set columns"
proof -
  let ?c = "log_time (lr_time r) @ tab # oneLine reqID @ tab # LevelName (lr_level r) @ tab #
    oneLine (lr_message r) @ tab # rest_text rest"
  have "Split ?c tab = text_columns r reqID rest"
    by (simp only: Split_column [OF log_time_flat] Split_column [OF oneLine_flat] Split_column [OF LevelName_flat]
        Split_flat [OF rest_text_flat] text_columns_def)
  moreover have "newline \<notin> set ?c"
    using flat_text_no_newline [OF log_time_flat] flat_text_no_newline [OF oneLine_flat]
      flat_text_no_newline [OF LevelName_flat] flat_text_no_newline [OF rest_text_flat] by simp
  moreover have "writeText color r reqID rest =
      (if color then levelColor (lr_level r) else []) @ ?c @ (if color then colorReset else []) @ [newline]"
    by (simp add: writeText_def)
  ultimately show ?thesis by blast
qed


end
