(* ===== verification/Cli.thy ===== *)
theory Cli
  imports GoBase
begin

text \<open>
  The arguments of the subcommands (\<^verbatim>\<open>cmd/kickd/ops.go\<close>: \<open>parse\<close>, \<open>runID\<close>, the exit codes) and their
  help (\<^verbatim>\<open>cmd/kickd/help.go\<close>). The package \<open>flag\<close> of Go is written out as far as the code uses
  it: the syntax of a flag, and the setting of its value, whose check for numbers and durations is an
  argument.
\<close>

section \<open>Exit codes and errors\<close>

definition exitOK :: int where "exitOK = 0"
definition exitFailed :: int where "exitFailed = 1"
definition exitUsage :: int where "exitUsage = 2"
definition exitTimeout :: int where "exitTimeout = 124"

datatype cli_error = Usage string | Help_request | Failure string

section \<open>Flags\<close>

datatype flag_kind = Bool_flag | String_flag | Int_flag | Duration_flag

record flag_def =
  fd_name :: string
  fd_kind :: flag_kind
  fd_default :: string
  fd_usage :: string

definition lookup_flag :: "flag_def list \<Rightarrow> string \<Rightarrow> flag_def option" where
  "lookup_flag fs name = find (\<lambda>f. fd_name f = name) fs"

definition isHelp :: "string \<Rightarrow> bool" where
  "isHelp arg \<longleftrightarrow> arg = ''-h'' \<or> arg = ''-help'' \<or> arg = ''--help''"

definition dash :: char where "dash = CHR ''-''"

definition is_flag_arg :: "string \<Rightarrow> bool" where
  "is_flag_arg a \<longleftrightarrow> HasPrefix a ''-'' \<and> a \<noteq> ''-'' \<and> a \<noteq> ''--''"

text \<open>The loop of \<open>parse\<close>: the flags with their values, and the positional arguments.\<close>

definition with_flags :: "string list \<Rightarrow> cli_error + string list \<times> string list \<Rightarrow> cli_error + string list \<times> string list" where
  "with_flags fs r = (case r of Inl e \<Rightarrow> Inl e | Inr (flags, pos) \<Rightarrow> Inr (fs @ flags, pos))"

definition with_position :: "string \<Rightarrow> cli_error + string list \<times> string list \<Rightarrow> cli_error + string list \<times> string list" where
  "with_position a r = (case r of Inl e \<Rightarrow> Inl e | Inr (flags, pos) \<Rightarrow> Inr (flags, a # pos))"

fun split_args :: "flag_def list \<Rightarrow> string \<Rightarrow> string list \<Rightarrow> cli_error + string list \<times> string list" where
  "split_args fs cmd [] = Inr ([], [])"
| "split_args fs cmd (a # as) =
     (if a = ''--'' then Inr ([], as)
      else if \<not> HasPrefix a ''-'' \<or> a = ''-'' then with_position a (split_args fs cmd as)
      else if isHelp a then Inl Help_request
      else (case Cut (TrimLeft a dash) (CHR ''='') of (name, value, hasValue) \<Rightarrow>
        (case lookup_flag fs name of
           None \<Rightarrow> Inl (Usage (''unknown flag '' @ a @ ''; kickd help '' @ cmd @ '' lists the flags''))
         | Some f \<Rightarrow>
             if hasValue \<or> fd_kind f = Bool_flag then with_flags [a] (split_args fs cmd as)
             else (case as of
                     [] \<Rightarrow> Inl (Usage (''flag '' @ a @ '' needs a value''))
                   | v # rest \<Rightarrow> with_flags [a, v] (split_args fs cmd rest)))))"

text \<open>
  \<open>FlagSet.Parse\<close> of Go: the values set, in order, and the arguments left over. A flag starts with one
  or two dashes; \<open>check\<close> says what is wrong with a value of a kind.
\<close>

definition parse_bool :: "string \<Rightarrow> bool" where
  "parse_bool v \<longleftrightarrow> v \<in> {''1'', ''t'', ''T'', ''TRUE'', ''true'', ''True'', ''0'', ''f'', ''F'', ''FALSE'', ''false'', ''False''}"

definition quote :: "string \<Rightarrow> string" where
  "quote s = [CHR 0x22] @ s @ [CHR 0x22]"

fun flag_parse :: "(flag_kind \<Rightarrow> string \<Rightarrow> string option) \<Rightarrow> flag_def list \<Rightarrow> string list
    \<Rightarrow> string + (string \<times> string) list \<times> string list" where
  "flag_parse check fs [] = Inr ([], [])"
| "flag_parse check fs (s # args) =
     (if length s < 2 \<or> hd s \<noteq> dash then Inr ([], s # args)
      else if s = ''--'' then Inr ([], args)
      else (let name = (if hd (tl s) = dash then tl (tl s) else tl s) in
        if name = [] \<or> hd name = dash \<or> hd name = CHR ''='' then Inl (''bad flag syntax: '' @ s)
        else (case Cut name (CHR ''='') of (n, value, hasValue) \<Rightarrow>
          (case lookup_flag fs n of
             None \<Rightarrow> Inl (''flag provided but not defined: -'' @ n)
           | Some f \<Rightarrow>
               if fd_kind f = Bool_flag then
                 (let v = (if hasValue then value else ''true'') in
                  if \<not> parse_bool v then Inl (''invalid boolean value '' @ quote value @ '' for -'' @ n @ '': parse error'')
                  else (case flag_parse check fs args of Inl e \<Rightarrow> Inl e
                        | Inr (set_values, rest) \<Rightarrow> Inr ((n, v) # set_values, rest)))
               else if hasValue then
                 (case check (fd_kind f) value of
                    Some e \<Rightarrow> Inl (''invalid value '' @ quote value @ '' for flag -'' @ n @ '': '' @ e)
                  | None \<Rightarrow> (case flag_parse check fs args of Inl e \<Rightarrow> Inl e
                        | Inr (set_values, rest) \<Rightarrow> Inr ((n, value) # set_values, rest)))
               else
                 (case args of
                    [] \<Rightarrow> Inl (''flag needs an argument: -'' @ n)
                  | v # args' \<Rightarrow>
                      (case check (fd_kind f) v of
                         Some e \<Rightarrow> Inl (''invalid value '' @ quote v @ '' for flag -'' @ n @ '': '' @ e)
                       | None \<Rightarrow> (case flag_parse check fs args' of Inl e \<Rightarrow> Inl e
                           | Inr (set_values, rest) \<Rightarrow> Inr ((n, v) # set_values, rest))))))))"

definition parse_args :: "(flag_kind \<Rightarrow> string \<Rightarrow> string option) \<Rightarrow> flag_def list \<Rightarrow> string \<Rightarrow> string list
    \<Rightarrow> cli_error + (string \<times> string) list \<times> string list" where
  "parse_args check fs cmd args =
     (case split_args fs cmd args of
        Inl e \<Rightarrow> Inl e
      | Inr (flags, pos) \<Rightarrow>
          (case flag_parse check fs flags of Inl msg \<Rightarrow> Inl (Usage msg) | Inr (set_values, rest) \<Rightarrow> Inr (set_values, pos)))"

text \<open>The value of a flag after the parse: the last one set, or the default.\<close>

definition flag_value :: "(string \<times> string) list \<Rightarrow> string \<Rightarrow> string option" where
  "flag_value set_values name = map_of (rev set_values) name"

definition flag_on :: "(string \<times> string) list \<Rightarrow> string \<Rightarrow> bool" where
  "flag_on set_values name \<longleftrightarrow>
     (case flag_value set_values name of Some v \<Rightarrow> v \<in> {''1'', ''t'', ''T'', ''TRUE'', ''true'', ''True''} | None \<Rightarrow> False)"

definition flag_string :: "(string \<times> string) list \<Rightarrow> string \<Rightarrow> string" where
  "flag_string set_values name = (case flag_value set_values name of Some v \<Rightarrow> v | None \<Rightarrow> [])"

section \<open>Run ids\<close>

text \<open>\<open>strconv.ParseInt\<close> in base 10 and 64 bits.\<close>

definition digit_value :: "char \<Rightarrow> int option" where
  "digit_value c = (let n = of_char c :: nat in if 48 \<le> n \<and> n \<le> 57 then Some (int n - 48) else None)"

fun digits_value :: "int \<Rightarrow> string \<Rightarrow> int option" where
  "digits_value acc [] = Some acc"
| "digits_value acc (c # s) = (case digit_value c of Some d \<Rightarrow> digits_value (10 * acc + d) s | None \<Rightarrow> None)"

definition ParseInt :: "string \<Rightarrow> int option" where
  "ParseInt s =
     (let (negative, ds) = (case s of [] \<Rightarrow> (False, [])
            | c # t \<Rightarrow> if c = CHR ''+'' then (False, t) else if c = dash then (True, t) else (False, s))
      in if ds = [] then None
         else (case digits_value 0 ds of None \<Rightarrow> None
               | Some v \<Rightarrow> (let n = (if negative then - v else v) in
                   if - (2 ^ 63) \<le> n \<and> n < 2 ^ 63 then Some n else None)))"

definition runID :: "string list \<Rightarrow> cli_error + int" where
  "runID pos =
     (case pos of
        [a] \<Rightarrow> (case ParseInt (TrimPrefix a ''#'') of
                  None \<Rightarrow> Inl (Usage (''RUN_ID '' @ quote a @ '' must be a positive number''))
                | Some i \<Rightarrow> if i \<le> 0 then Inl (Usage (''RUN_ID '' @ quote a @ '' must be a positive number'')) else Inr i)
      | _ \<Rightarrow> Inl (Usage ''one RUN_ID is required''))"

end
