(* ===== verification/CliProps.thy ===== *)
theory CliProps
  imports Cli "HOL-Library.Sublist" "HOL-Library.Multiset"
begin

text \<open>
  The arguments of the subcommands: flags may stand anywhere among the positional arguments, and run
  ids are read back as they are printed.
\<close>

section \<open>Flags anywhere\<close>

text \<open>How arguments divide into flags, each with its value, and positional arguments.\<close>

definition alone :: "flag_def list \<Rightarrow> string \<Rightarrow> bool \<Rightarrow> bool" where
  "alone fs a single \<longleftrightarrow> is_flag_arg a \<and> \<not> isHelp a \<and>
     (case Cut (TrimLeft a dash) (CHR ''='') of (name, value, hasValue) \<Rightarrow>
       (case lookup_flag fs name of None \<Rightarrow> False | Some f \<Rightarrow> (hasValue \<or> fd_kind f = Bool_flag) = single))"

inductive splits :: "flag_def list \<Rightarrow> string list \<Rightarrow> string list \<Rightarrow> string list \<Rightarrow> bool" for fs where
  no_args: "splits fs [] [] []"
| stop: "splits fs (''--'' # as) [] as"
| positional: "\<not> is_flag_arg a \<Longrightarrow> a \<noteq> ''--'' \<Longrightarrow> splits fs as flags pos \<Longrightarrow> splits fs (a # as) flags (a # pos)"
| switch: "alone fs a True \<Longrightarrow> splits fs as flags pos \<Longrightarrow> splits fs (a # as) (a # flags) pos"
| valued: "alone fs a False \<Longrightarrow> splits fs as flags pos \<Longrightarrow> splits fs (a # v # as) (a # v # flags) pos"

inductive_cases splits_Nil: "splits fs [] flags pos"
inductive_cases splits_Cons: "splits fs (a # as) flags pos"

lemma splits_sound: "split_args fs cmd args = Inr (flags, pos) \<Longrightarrow> splits fs args flags pos"
proof (induction args arbitrary: flags pos rule: length_induct)
  case (1 args)
  show ?case
  proof (cases args)
    case Nil
    with 1 show ?thesis by (auto intro: no_args)
  next
    case (Cons a as)
    have IH: "splits fs xs f p" if "split_args fs cmd xs = Inr (f, p)" and "length xs < length args" for xs f p
      using 1 that by blast
    consider "a = ''--''" | "\<not> is_flag_arg a" "a \<noteq> ''--''" | "is_flag_arg a" by blast
    then show ?thesis
    proof cases
      case 1
      with "1.prems" Cons show ?thesis by (auto intro: stop)
    next
      case 2
      with "1.prems" Cons IH [of as] show ?thesis
        by (auto simp: is_flag_arg_def with_position_def intro: positional split: sum.splits)
    next
      case 3
      then have flag: "HasPrefix a ''-''" "a \<noteq> ''-''" "a \<noteq> ''--''" by (auto simp: is_flag_arg_def)
      obtain name val hasValue where cut: "Cut (TrimLeft a dash) (CHR ''='') = (name, val, hasValue)"
        by (cases "Cut (TrimLeft a dash) (CHR ''='')") auto
      with "1.prems" Cons flag obtain f where f: "lookup_flag fs name = Some f" and asks: "\<not> isHelp a"
        by (auto split: if_splits option.splits)
      show ?thesis
      proof (cases "hasValue \<or> fd_kind f = Bool_flag")
        case True
        with 3 cut f asks have "alone fs a True" by (simp add: alone_def)
        with "1.prems" Cons flag cut f asks True IH [of as] show ?thesis
          by (auto simp: with_flags_def intro: switch split: sum.splits)
      next
        case False
        with 3 cut f asks have "alone fs a False" by (simp add: alone_def)
        with "1.prems" Cons flag cut f asks False IH show ?thesis
          by (auto simp: with_flags_def intro: valued split: sum.splits list.splits)
      qed
    qed
  qed
qed

lemma split_args_positional: "\<not> is_flag_arg a \<Longrightarrow> a \<noteq> ''--'' \<Longrightarrow>
    split_args fs cmd (a # as) = with_position a (split_args fs cmd as)"
  by (auto simp: is_flag_arg_def)

lemma split_args_alone: "alone fs a True \<Longrightarrow> split_args fs cmd (a # as) = with_flags [a] (split_args fs cmd as)"
  by (auto simp: alone_def is_flag_arg_def split: prod.splits option.splits)

lemma split_args_valued: "alone fs a False \<Longrightarrow>
    split_args fs cmd (a # v # as) = with_flags [a, v] (split_args fs cmd as)"
  by (auto simp: alone_def is_flag_arg_def split: prod.splits option.splits)

lemma splits_complete: "splits fs args flags pos \<Longrightarrow> split_args fs cmd args = Inr (flags, pos)"
proof (induction rule: splits.induct)
  case (positional a as flags pos)
  then show ?case
    by (simp only: split_args_positional [OF positional(1,2)] with_position_def sum.case prod.case)
next
  case (switch a as flags pos)
  then show ?case
    by (simp only: split_args_alone [OF switch(1)] with_flags_def sum.case prod.case append.simps)
next
  case (valued a as flags pos v)
  then show ?case
    by (simp only: split_args_valued [OF valued(1)] with_flags_def sum.case prod.case append.simps)
qed simp_all

lemma splits_normal: "splits fs args flags pos \<Longrightarrow> splits fs (flags @ ''--'' # tail) flags tail"
  by (induction rule: splits.induct) (auto intro: splits.intros)

lemma splits_all: "splits fs args flags pos \<Longrightarrow> subseq flags args \<and> subseq pos args \<and>
    (mset args = mset flags + mset pos \<or> mset args = mset flags + mset pos + {#''--''#})"
  by (induction rule: splits.induct) auto

text \<open>The name that \<open>parse\<close> looks up is the name that the package \<open>flag\<close> sees, where the syntax is right.\<close>

lemma flag_name_agrees:
  assumes "HasPrefix a ''-''" and "a \<noteq> ''-''"
    and "name = (if hd (tl a) = dash then tl (tl a) else tl a)" and "name \<noteq> []" and "hd name \<noteq> dash"
  shows "TrimLeft a dash = name"
proof -
  from assms(1,2) obtain c t where a: "a = dash # c # t"
    by (cases a; cases "tl a") (auto simp: HasPrefix_def dash_def)
  show ?thesis
  proof (cases "c = dash")
    case True
    with a assms(3-5) show ?thesis by (cases t) (auto simp: TrimLeft_def)
  next
    case False
    with a assms(3-5) show ?thesis by (auto simp: TrimLeft_def)
  qed
qed

text \<open>\<open>flag\<close> takes what \<open>parse\<close> collected one flag at a time and stops nowhere before the end.\<close>

lemma flag_parse_name:
  assumes "alone fs a single" and "flag_parse check fs (a # args) = Inr (vs, rest)"
  shows "2 \<le> length a \<and> hd a = dash \<and> a \<noteq> ''--'' \<and>
    (let name = (if hd (tl a) = dash then tl (tl a) else tl a) in
     name \<noteq> [] \<and> hd name \<noteq> dash \<and> hd name \<noteq> CHR ''='' \<and> name = TrimLeft a dash)"
proof -
  from assms(1) have a: "HasPrefix a ''-''" "a \<noteq> ''-''" "a \<noteq> ''--''" by (auto simp: alone_def is_flag_arg_def)
  then have len: "2 \<le> length a" "hd a = dash" by (cases a; cases "tl a"; auto simp: HasPrefix_def dash_def)+
  let ?name = "if hd (tl a) = dash then tl (tl a) else tl a"
  have "\<not> (?name = [] \<or> hd ?name = dash \<or> hd ?name = CHR ''='')"
    using assms(2) len a(3) by (simp only: flag_parse.simps Let_def) (simp split: if_splits)
  moreover from this have "TrimLeft a dash = ?name" using flag_name_agrees [OF a(1,2) refl] by blast
  ultimately show ?thesis using len a(3) by (simp add: Let_def)
qed

lemma flag_parse_alone:
  assumes "alone fs a True" and "flag_parse check fs (a # args) = Inr (vs, rest)"
  shows "\<exists>vs'. flag_parse check fs args = Inr (vs', rest)"
proof -
  note n = flag_parse_name [OF assms, unfolded Let_def]
  from assms(1) obtain name val hasValue f where
    "Cut (TrimLeft a dash) (CHR ''='') = (name, val, hasValue)" "lookup_flag fs name = Some f"
    "hasValue \<or> fd_kind f = Bool_flag" by (auto simp: alone_def split: prod.splits option.splits)
  with n assms(2) show ?thesis
    by (auto simp: Let_def split: if_splits option.splits sum.splits)
qed

lemma flag_parse_valued:
  assumes "alone fs a False" and "flag_parse check fs (a # v # args) = Inr (vs, rest)"
  shows "\<exists>vs'. flag_parse check fs args = Inr (vs', rest)"
proof -
  note n = flag_parse_name [OF assms, unfolded Let_def]
  from assms(1) obtain name val hasValue f where
    "Cut (TrimLeft a dash) (CHR ''='') = (name, val, hasValue)" "lookup_flag fs name = Some f"
    "\<not> hasValue" "fd_kind f \<noteq> Bool_flag" by (auto simp: alone_def split: prod.splits option.splits)
  with n assms(2) show ?thesis
    by (auto simp: Let_def split: if_splits option.splits sum.splits)
qed

lemma splits_consumed: "splits fs args flags pos \<Longrightarrow> flag_parse check fs flags = Inr (vs, rest) \<Longrightarrow> rest = []"
proof (induction arbitrary: vs rule: splits.induct)
  case (switch a as flags pos)
  from flag_parse_alone [OF switch(1,4)] switch(3) show ?case by blast
next
  case (valued a as flags pos v)
  from flag_parse_valued [OF valued(1,4)] valued(3) show ?case by blast
qed simp_all

text \<open>
  Flags and their values may stand before, between or after the positional arguments: the result is
  that of all flags first, a double dash, and then the positional arguments in their order. Both
  are taken from the arguments in order, nothing else is dropped but one double dash, and no
  collected flag is left unread: each is set, or its error is the error of the command.\<close>
theorem flags_anywhere:
  "case split_args fs cmd args of
     Inl e \<Rightarrow> parse_args check fs cmd args = Inl e
   | Inr (flags, pos) \<Rightarrow>
       parse_args check fs cmd args = parse_args check fs cmd (flags @ ''--'' # pos) \<and>
       subseq flags args \<and> subseq pos args \<and>
       (mset args = mset flags + mset pos \<or> mset args = mset flags + mset pos + {#''--''#}) \<and>
       (case flag_parse check fs flags of
          Inl msg \<Rightarrow> parse_args check fs cmd args = Inl (Usage msg)
        | Inr (vs, rest) \<Rightarrow> rest = [] \<and> parse_args check fs cmd args = Inr (vs, pos))"
proof (cases "split_args fs cmd args")
  case (Inl e)
  then show ?thesis by (simp add: parse_args_def)
next
  case (Inr r)
  then obtain flags pos where r: "split_args fs cmd args = Inr (flags, pos)" by (cases r) simp
  note sp = splits_sound [OF r]
  have "split_args fs cmd (flags @ ''--'' # pos) = Inr (flags, pos)"
    by (rule splits_complete [OF splits_normal [OF sp]])
  with r splits_all [OF sp] splits_consumed [OF sp] show ?thesis
    by (auto simp: parse_args_def split: sum.splits)
qed

end
