(* ===== verification/Help.thy ===== *)
theory Help
  imports Cli
begin

text \<open>
  The help of kickd (\<^verbatim>\<open>cmd/kickd/help.go\<close>), the flags of its subcommands as \<^verbatim>\<open>cmd/kickd/ops.go\<close> and
  \<^verbatim>\<open>cmd/kickd/main.go\<close> declare them, and its version (\<^verbatim>\<open>cmd/kickd/version.go\<close>). The table of flags is
  given by its rows; the package \<open>text/tabwriter\<close> only lays it out.
\<close>

section \<open>Flags of the subcommands\<close>

definition flag :: "string \<Rightarrow> flag_kind \<Rightarrow> string \<Rightarrow> string \<Rightarrow> flag_def" where
  "flag name kind initial txt = \<lparr>fd_name = name, fd_kind = kind, fd_default = initial, fd_usage = txt\<rparr>"

definition json_flag :: flag_def where
  "json_flag = flag ''json'' Bool_flag ''false'' ''print JSON''"

definition event_flags :: "flag_def list" where
  "event_flags =
     [flag ''data'' String_flag [] ''the parameters as a `JSON` object of strings'',
      flag ''wait'' Bool_flag ''false'' ''wait for the run, and exit 0 only if it succeeds'',
      flag ''timeout'' Duration_flag ''0s'' ''with --wait, give up after this `DURATION`, with exit code 124'',
      json_flag]"

definition history_flags :: "flag_def list" where
  "history_flags =
     [flag ''event'' String_flag [] ''only the runs of the event `NAME`'',
      flag ''status'' String_flag [] (''only the runs with this `STATUS`: queued, running, succeeded, failed, '' @
        ''canceled, skipped, dropped, interrupted, retried or abandoned''),
      flag ''limit'' Int_flag ''20'' ''show `N` runs at most'',
      json_flag]"

definition cancel_flags :: "flag_def list" where
  "cancel_flags =
     [flag ''event'' String_flag [] ''cancel every queued and running run of the event `NAME` instead of one run'']"

definition initFlags :: "flag_def list" where
  "initFlags = [flag ''no-examples'' Bool_flag ''false''
     ''write the config file alone, without the file of example events'']"

section \<open>Commands\<close>

record command =
  cm_name :: string
  cm_args :: string
  cm_summary :: string

definition commands :: "command list" where
  "commands = map (\<lambda>(n, a, s). \<lparr>cm_name = n, cm_args = a, cm_summary = s\<rparr>) [
     (''run'', [], ''Run the agent in the foreground, or as a service when started by one''),
     (''event'', ''NAME [KEY=VALUE ...] [--data JSON] [--wait] [--timeout DURATION] [--json]'',
        ''Fire an event; --wait waits for the run and exits 0 only if it succeeds''),
     (''events'', ''[--json]'', ''List the events and what fires them''),
     (''history'', ''[--event NAME] [--status STATUS] [--limit N] [--json]'',
        ''Show the runs, newest first, so the runs that run or wait come first''),
     (''show'', ''RUN_ID [--json]'', ''Show one run, including its output''),
     (''cancel'', ''RUN_ID | --event NAME'',
        ''Cancel a queued run, or stop a running one; --event does so for every run of an event''),
     (''status'', ''[--json]'', ''Show whether the agent is running and how many runs wait''),
     (''check'', [], ''Validate the config and print a summary''),
     (''init'', ''[--no-examples]'',
        ''Write an example config and an example events file; --no-examples writes the config alone''),
     (''service'', ''ACTION'',
        ''Install or control the service that runs the agent; ACTION is install, uninstall, start, stop, restart or status''),
     (''licenses'', [], ''Print the licenses of kickd and of the software it includes''),
     (''version'', [], ''Print the version''),
     (''help'', ''[COMMAND]'', ''Show this help, or the help of one command'')]"

definition opsCommands :: "string list" where
  "opsCommands = [''event'', ''events'', ''history'', ''show'', ''cancel'', ''status'']"

definition configHelp :: string where
  "configHelp = Join [
     [],
     ''The user who runs kickd decides its config file:'',
     ''  ~/.kickd/config.yaml                            for a user'',
     ''  /etc/kickd/config.yaml                          for the whole machine: as root on Linux'',
     ''  /Library/Application Support/kickd/config.yaml  for the whole machine: as root on macOS'',
     ''  C:'' @ [CHR 0x5C] @ ''ProgramData'' @ [CHR 0x5C] @ ''kickd'' @ [CHR 0x5C] @
       ''config.yaml                for the whole machine: as an administrator on Windows'',
     ''kickd also reads the events of the other .yaml and .yml files next to the'',
     ''config file. kickd service works on the service of the user, or on the'',
     ''service of the whole machine as root or as an administrator.'',
     [],
     ''kickd help COMMAND shows the usage and the flags of one command.'',
     []] [newline]"

text \<open>\<open>%-8s\<close> of \<open>fmt\<close>.\<close>

definition pad_right :: "nat \<Rightarrow> string \<Rightarrow> string" where
  "pad_right n s = s @ replicate (n - length s) CHR '' ''"

definition usage_line :: "command \<Rightarrow> string" where
  "usage_line c =
     (let left = TrimRight (''  kickd '' @ pad_right 8 (cm_name c) @ cm_args c) CHR '' '' in
      if length left < 42 then pad_right 43 left @ cm_summary c @ [newline]
      else left @ [newline] @ pad_right 43 [] @ cm_summary c @ [newline])"

definition usage :: string where
  "usage = ''kickd - run named events from cron, webhooks, file changes or the command line'' @
     [newline, newline] @ ''Usage:'' @ [newline] @ concat (map usage_line commands) @ configHelp"

text \<open>\<open>flag.UnquoteUsage\<close>: the name in backquotes and the text without them, or a name by the kind.\<close>

definition UnquoteUsage :: "flag_def \<Rightarrow> string \<times> string" where
  "UnquoteUsage f =
     (case Cut (fd_usage f) CHR ''`'' of (before, r, found) \<Rightarrow>
       (case Cut r CHR ''`'' of (name, after, closed) \<Rightarrow>
          if found \<and> closed then (name, before @ name @ after)
          else ((case fd_kind f of Bool_flag \<Rightarrow> [] | String_flag \<Rightarrow> ''string'' | Int_flag \<Rightarrow> ''int''
                 | Duration_flag \<Rightarrow> ''duration''), fd_usage f)))"

definition flag_row :: "flag_def \<Rightarrow> string list" where
  "flag_row f =
     (case UnquoteUsage f of (val, txt) \<Rightarrow>
       [''  --'' @ fd_name f @ (if val \<noteq> [] then '' '' @ val else []),
        txt @ (if fd_default f \<in> {[], ''false'', ''0'', ''0s''} then [] else '' (default '' @ fd_default f @ '')'')])"

text \<open>The help of a subcommand: its text and the rows of its flags, in the order of their names.\<close>

definition commandHelp :: "string \<Rightarrow> flag_def list \<Rightarrow> string + string \<times> string list list" where
  "commandHelp name fs =
     (case find (\<lambda>c. cm_name c = name) commands of
        None \<Rightarrow> Inl (''unknown command '' @ quote name @ ''; kickd help lists the commands'')
      | Some c \<Rightarrow>
          Inr (''Usage: '' @ TrimSpace (''kickd '' @ cm_name c @ '' '' @ cm_args c) @ [newline, newline] @
                 cm_summary c @ ''.'' @ [newline] @ (if fs \<noteq> [] then [newline] @ ''Flags:'' @ [newline] else []),
               map flag_row (sort_key fd_name fs)))"

datatype help_out = Help_usage | Help_too_many "string list" | Help_unknown string | Help_of string "string list list"

definition flags_of :: "string \<Rightarrow> flag_def list" where
  "flags_of cmd =
     (if cmd = ''event'' then event_flags else if cmd = ''history'' then history_flags
      else if cmd = ''cancel'' then cancel_flags
      else if cmd \<in> {''events'', ''show'', ''status''} then [json_flag]
      else if cmd = ''init'' then initFlags else [])"

definition help_command :: "string list \<Rightarrow> int \<times> help_out" where
  "help_command args =
     (case args of
        [] \<Rightarrow> (exitOK, Help_usage)
      | [cmd] \<Rightarrow>
          (case commandHelp cmd (flags_of cmd) of
             Inl e \<Rightarrow> (exitUsage, Help_unknown e) | Inr (txt, rows) \<Rightarrow> (exitOK, Help_of txt rows))
      | _ \<Rightarrow> (exitUsage, Help_too_many args))"

section \<open>Version\<close>

text \<open>\<open>main_version\<close> is the version of the main module in the build information, if there is any.\<close>

definition resolveVersion :: "string \<Rightarrow> string option \<Rightarrow> string" where
  "resolveVersion set_version main_version =
     (if set_version \<noteq> ''dev'' then set_version
      else (case main_version of None \<Rightarrow> set_version
            | Some v \<Rightarrow> if v \<noteq> [] \<and> v \<noteq> ''(devel)'' then v else set_version))"

end
