(* ===== verification/Ops.thy ===== *)
theory Ops
  imports Help Logging ConfigLoad Dispatcher
begin

text \<open>
  The operation subcommands (\<^verbatim>\<open>cmd/kickd/ops.go\<close>): \<open>event\<close>, \<open>events\<close>, \<open>history\<close>, \<open>show\<close>,
  \<open>cancel\<close> and \<open>status\<close>. They work on the configuration and the database of the agent from a process of
  their own: their result is an exit code with what they print, and the database that they leave.

  \<open>world\<close> holds what the process sees around it: the loaded configuration, whether the database opens,
  the clock, the local time zone, the JSON decoder and the texts of the library for durations and
  database errors. Tables are given by their cells and JSON by the values that are encoded.
\<close>

section \<open>What a command prints\<close>

record run_view =
  rv_run :: run
  rv_queued_at :: string
  rv_not_before :: string
  rv_started_at :: string
  rv_finished_at :: string
  rv_duration_ms :: "int option"
  rv_output :: string
  rv_payload :: "payload option"

record event_view =
  vw_name :: string
  vw_description :: string
  vw_file :: string
  vw_concurrency :: string
  vw_on_interrupt :: string
  vw_max_attempts :: int
  vw_triggers :: "string list"
  vw_params :: "param list"

datatype json_out =
    Queued_json int string string strmap
  | Runs_json "run_view list"
  | Run_json run_view
  | Events_json "event_view list"
  | Status_json bool int int nat string "agent option"

text \<open>\<open>Out\<close> and \<open>Err\<close> are lines on the two outputs, \<open>Verbatim\<close> is printed as it is.\<close>

datatype cli_line = Out string | Verbatim string | Err string | Table "string list list" | Json json_out

record world =
  w_check :: "flag_kind \<Rightarrow> string \<Rightarrow> string option"
  w_int :: "string \<Rightarrow> int"
  w_duration :: "string \<Rightarrow> duration"
  w_load :: "string + config"
  w_open :: "(bool \<times> string) option"
  w_unmarshal :: "string \<Rightarrow> string + strmap option"
  w_now :: gotime
  w_request_id :: string
  w_source :: string
  w_local :: "gotime \<Rightarrow> string"
  w_duration_text :: "duration \<Rightarrow> string"
  w_db_error :: "db_error \<Rightarrow> string"
  w_base :: "string \<Rightarrow> string"
  w_db_path :: string

type_synonym cli_end = "int \<times> cli_line list"

text \<open>\<open>cli.exit\<close> for an error; the message of a usage error and of any other error differ in the code.\<close>

definition cli_exit :: "string \<Rightarrow> cli_error \<Rightarrow> cli_end" where
  "cli_exit cmd e =
     (case e of
        Help_request \<Rightarrow>
          (case commandHelp cmd (flags_of cmd) of
             Inl m \<Rightarrow> (exitUsage, [Err (''kickd: '' @ m)])
           | Inr (txt, rows) \<Rightarrow> (exitOK, [Verbatim txt, Table rows]))
      | Usage m \<Rightarrow> (exitUsage, [Err (''kickd: '' @ m)])
      | Failure m \<Rightarrow> (exitFailed, [Err (''kickd: '' @ m)]))"

definition open_store :: "world \<Rightarrow> cli_error + unit" where
  "open_store w =
     (case w_open w of
        None \<Rightarrow> Inr ()
      | Some (permission, e) \<Rightarrow>
          Inl (Failure (if permission
            then e @ '' (kickd may run as another user; try sudo, or an administrator shell on Windows)'' else e)))"

section \<open>Texts\<close>

definition orDash :: "string \<Rightarrow> string" where
  "orDash s = (if s = [] then ''-'' else s)"

definition timeText :: "world \<Rightarrow> gotime \<Rightarrow> string" where
  "timeText w t = (if IsZero t then ''-'' else w_local w t)"

definition rfc :: "gotime \<Rightarrow> string" where
  "rfc t = (if IsZero t then [] else log_time t)"

text \<open>\<open>Duration.Round\<close> for durations that are not near the bounds of 64 bits.\<close>

definition round_to :: "duration \<Rightarrow> duration \<Rightarrow> duration" where
  "round_to m d =
     (let a = \<bar>d\<bar>; r = a mod m; b = (if 2 * r < m then a - r else a + m - r) in if d < 0 then - b else b)"

definition ago :: "world \<Rightarrow> gotime \<Rightarrow> string" where
  "ago w t =
     (if IsZero t then ''-''
      else (let d = w_now w - t in
            if d < minute then Itoa (trunc_div d second) @ ''s ago''
            else if d < hour then Itoa (trunc_div d minute) @ ''m ago''
            else if d < 48 * hour then Itoa (trunc_div d hour) @ ''h ago''
            else timeText w t))"

definition reasonText :: "world \<Rightarrow> run \<Rightarrow> string" where
  "reasonText w r =
     (if run_status r = StatusQueued \<and> run_not_before r - w_now w > 0 then ''starts at '' @ timeText w (run_not_before r)
      else if run_reason r \<noteq> [] \<and> run_detail r \<noteq> [] then run_reason r @ '': '' @ run_detail r
      else if run_reason r \<noteq> [] then run_reason r
      else run_detail r)"

definition statusText :: "run \<Rightarrow> string" where
  "statusText r =
     (if run_status r = StatusRunning \<and> run_cancel_requested r then ''running (cancel requested)''
      else status_name (run_status r))"

definition exitText :: "run \<Rightarrow> string" where
  "exitText r = (case run_exit_code r of None \<Rightarrow> ''-'' | Some c \<Rightarrow> Itoa c)"

definition durationText :: "world \<Rightarrow> run \<Rightarrow> string" where
  "durationText w r =
     (if run_exit_code r = None \<and> run_status r \<noteq> StatusRunning then ''-''
      else if \<not> IsZero (run_finished_at r) \<and> \<not> IsZero (run_started_at r)
        then w_duration_text w (round_to millisecond (run_duration r))
      else if run_status r = StatusRunning \<and> \<not> IsZero (run_started_at r)
        then w_duration_text w (round_to second (w_now w - run_started_at r)) @ '' so far''
      else ''-'')"

definition runView :: "run \<Rightarrow> run_view" where
  "runView r =
     \<lparr>rv_run = r, rv_queued_at = rfc (run_created_at r), rv_not_before = rfc (run_not_before r),
      rv_started_at = rfc (run_started_at r), rv_finished_at = rfc (run_finished_at r),
      rv_duration_ms = (if \<not> IsZero (run_finished_at r) \<and> \<not> IsZero (run_started_at r)
                        then Some (Milliseconds (run_duration r)) else None),
      rv_output = [], rv_payload = None\<rparr>"

definition runViews :: "run list \<Rightarrow> run_view list" where
  "runViews rs = map runView rs"

definition triggerNames :: "event_config \<Rightarrow> string list" where
  "triggerNames e = concat (map (\<lambda>t.
     (let ty = tr_type t in
      if ty = TriggerManual then [''manual'']
      else if ty = TriggerCron then [''cron '' @ tr_schedule t]
      else if ty = TriggerWebhook then [''webhook '' @ tr_path t]
      else if ty = TriggerFile then [''file '' @ tr_path t]
      else if ty = TriggerAfter then [''after '' @ tr_event t]
      else if ty = TriggerStartup \<or> ty = TriggerWake then [ty] else [])) (ec_triggers e))"

section \<open>Firing an event\<close>

text \<open>What \<open>event\<close> makes of a bad argument; \<open>Panics\<close> is a write to a nil map.\<close>

datatype arg_error = Bad_arg string | Panics

text \<open>The loop over the arguments KEY=VALUE. \<open>None\<close> is a nil map, which takes no key.\<close>

fun put_args :: "string list \<Rightarrow> strmap option \<Rightarrow> arg_error + strmap option" where
  "put_args [] data = Inr data"
| "put_args (a # as) data =
     (case Cut a CHR ''='' of (k, v, found) \<Rightarrow>
        if \<not> found \<or> k = [] then Inl (Bad_arg (''argument '' @ quote a @ '' must be KEY=VALUE''))
        else (case data of None \<Rightarrow> Inl Panics | Some m \<Rightarrow> put_args as (Some (AList.update k v m))))"

definition kick_data :: "world \<Rightarrow> string \<Rightarrow> string list \<Rightarrow> arg_error + strmap option" where
  "kick_data w dataJSON kvs =
     (if dataJSON = [] then put_args kvs (Some [])
      else (case w_unmarshal w dataJSON of
              Inl e \<Rightarrow> Inl (Bad_arg (''--data must be a JSON object of strings: '' @ e))
            | Inr m \<Rightarrow> put_args kvs m))"

fun param_error_text :: "param_error \<Rightarrow> string" where
  "param_error_text (Invalid_parameter e k) = ''event '' @ quote e @ '': invalid parameter name '' @ quote k"
| "param_error_text (Required_parameter e p) = ''event '' @ quote e @ '': parameter '' @ p @ '' is required''"
| "param_error_text (Unknown_parameter e k names) =
     ''event '' @ quote e @ '': unknown parameter '' @ k @ '' (declared: '' @ Join names '', '' @ '')''"

definition manual_event :: "world \<Rightarrow> string \<Rightarrow> strmap \<Rightarrow> event" where
  "manual_event w name data =
     zero_event\<lparr>ev_request_id := w_request_id w, ev_attempt := 1, ev_name := name, ev_trigger := KindManual,
       ev_trigger_id := ''manual'', ev_time := w_now w, ev_data := Some data, ev_source := w_source w\<rparr>"

definition manual_run :: "world \<Rightarrow> string \<Rightarrow> payload \<Rightarrow> run" where
  "manual_run w name pl =
     new_run (w_request_id w) name KindManual ''manual'' (w_source w) pl (w_now w) zero_time"

definition kick_limit :: "event_config \<Rightarrow> int" where
  "kick_limit e = (if ec_concurrency e = ConcurrencyQueue then MaxQueuedPerEvent else 0)"

definition HeartbeatWindow :: duration where "HeartbeatWindow = 15 * second"

definition agentAlive :: "world \<Rightarrow> db \<Rightarrow> bool \<times> db" where
  "agentAlive w d =
     (case AgentInfo d of
        (Inr (Some a), d') \<Rightarrow> (Alive (w_now w) a HeartbeatWindow, d')
      | (r, d') \<Rightarrow> (False, d'))"

text \<open>What \<open>event\<close> does before it touches the database: the event, its data, and the flags.\<close>

datatype kick_decision = Kick_refused cli_end | Kick_panics | Kick_ready event_config strmap "(string \<times> string) list"

definition kick_check :: "world \<Rightarrow> string list \<Rightarrow> kick_decision" where
  "kick_check w args =
     (let refuse = (\<lambda>e. Kick_refused (cli_exit ''event'' e)) in
      case parse_args (w_check w) event_flags ''event'' args of
        Inl e \<Rightarrow> refuse e
      | Inr (vs, pos) \<Rightarrow>
          (case pos of
             [] \<Rightarrow> refuse (Usage ''event name is required: kickd event NAME [KEY=VALUE ...]'')
           | name # kvs \<Rightarrow>
               (case w_load w of
                  Inl e \<Rightarrow> refuse (Failure e)
                | Inr cfg \<Rightarrow>
                    (case EventByName cfg name of
                       None \<Rightarrow> refuse (Usage (''event '' @ quote name @ '' is not defined in '' @ cf_path cfg @
                         '' or the files next to it (defined: '' @ Join (EventNames cfg) '', '' @ '')''))
                     | Some e \<Rightarrow>
                         if \<not> Manual e then refuse (Usage (''event '' @ quote name @
                           '' has no manual trigger, so kickd event cannot fire it; add '' @ quote ''- type: manual'' @
                           '' to its triggers in '' @ ec_file e))
                         else (case kick_data w (flag_string vs ''data'') kvs of
                             Inl (Bad_arg m) \<Rightarrow> refuse (Usage m)
                           | Inl Panics \<Rightarrow> Kick_panics
                           | Inr data \<Rightarrow>
                               (case Apply e (case data of None \<Rightarrow> [] | Some m \<Rightarrow> m) of
                                  Inl errs \<Rightarrow> refuse (Usage (Join (map param_error_text errs) [newline]))
                                | Inr applied \<Rightarrow>
                                    (case open_store w of Inl e' \<Rightarrow> refuse e' | Inr u \<Rightarrow> Kick_ready e applied vs)))))))"

text \<open>The firing itself: queued or dropped, and what is printed unless the command waits.\<close>

datatype kick_result = Kick_ended cli_end | Kick_crashed | Kick_waits int

definition kick_queue :: "world \<Rightarrow> event_config \<Rightarrow> strmap \<Rightarrow> (string \<times> string) list \<Rightarrow> db
    \<Rightarrow> (kick_result \<times> cli_line list) \<times> db" where
  "kick_queue w e data vs d =
     (case marshal_event (manual_event w (ec_name e) data) of
        None \<Rightarrow> ((Kick_ended (cli_exit ''event'' 
         (Failure ''json: error calling MarshalJSON for type time.Time: Time.MarshalJSON: year outside of range [0,9999]'')), []), d)
      | Some pl \<Rightarrow>
          (case Enqueue (w_now w) (manual_run w (ec_name e) pl) (kick_limit e) d of
             (Inl err, d1) \<Rightarrow> ((Kick_ended (cli_exit ''event'' (Failure (w_db_error w err))), []), d1)
           | (Inr (i, dropped), d1) \<Rightarrow>
               if dropped then
                 ((Kick_ended (exitFailed, [Err (''kickd: event '' @ ec_name e @ '' already has '' @ Itoa (kick_limit e) @
                    '' queued runs; run '' @ Itoa i @ '' was recorded as dropped'')]), []), d1)
               else (case agentAlive w d1 of (alive, d2) \<Rightarrow>
                 (let warning = (if alive then [] else [Err (''kickd: the agent is not running; the run stays '' @
                         ''queued until '' @ quote ''kickd run'' @ '' or the service starts'')]) in
                  if flag_on vs ''wait'' then ((Kick_waits i, warning), d2)
                  else if flag_on vs ''json'' then
                    ((Kick_ended (exitOK, [Json (Queued_json i (w_request_id w) (ec_name e) data)]), warning), d2)
                  else ((Kick_ended (exitOK, [Out (''queued run '' @ Itoa i @ '' (event '' @ ec_name e @ '', request '' @
                         w_request_id w @ '')'')]), warning), d2)))))"

definition kick_event :: "world \<Rightarrow> string list \<Rightarrow> db \<Rightarrow> (kick_result \<times> cli_line list) \<times> db" where
  "kick_event w args d =
     (case kick_check w args of
        Kick_refused x \<Rightarrow> ((Kick_ended x, []), d)
      | Kick_panics \<Rightarrow> ((Kick_crashed, []), d)
      | Kick_ready e data vs \<Rightarrow> kick_queue w e data vs d)"

section \<open>Waiting for a run\<close>

text \<open>
  One turn of the loop of \<open>waitRun\<close>: the database as the turn reads it, first the run and then its rerun,
  and whether the timeout had expired at the read and at the wait for the next tick.
\<close>

record poll =
  po_db :: db
  po_retry_db :: db
  po_read_expired :: bool
  po_expired :: bool

datatype wait_end = Reported "run list" | Timed_out int | Wait_failed db_error

fun waitRun :: "poll list \<Rightarrow> run list \<Rightarrow> int \<Rightarrow> wait_end option" where
  "waitRun [] chain cur = None"
| "waitRun (p # ps) chain cur =
     (let pause = (if po_expired p then Some (Timed_out cur) else waitRun ps chain cur) in
      case fst (GetRun cur (po_db p)) of
        Inl e \<Rightarrow> if \<not> po_read_expired p then Some (Wait_failed e) else pause
      | Inr r \<Rightarrow>
          if run_status r = StatusRetried then
            (case fst (RetryOf cur (po_retry_db p)) of
               Inr (Some next) \<Rightarrow> waitRun ps (chain @ [r]) (run_id next)
             | _ \<Rightarrow> pause)
          else if Final (run_status r) then Some (Reported (chain @ [r]))
          else pause)"

definition run_row :: "world \<Rightarrow> run \<Rightarrow> string list" where
  "run_row w r = [Itoa (run_id r), run_event r, Itoa (run_attempt r), statusText r, exitText r, durationText w r,
     orDash (reasonText w r)]"

definition reportRuns :: "world \<Rightarrow> bool \<Rightarrow> run list \<Rightarrow> cli_end" where
  "reportRuns w asJSON runs =
     ((if run_status (last runs) = StatusSucceeded then exitOK else exitFailed),
      if asJSON then [Json (Runs_json (runViews runs))]
      else [Table ([''RUN'', ''EVENT'', ''ATTEMPT'', ''STATUS'', ''EXIT'', ''DURATION'', ''DETAIL''] # map (run_row w) runs)])"

definition wait_result :: "world \<Rightarrow> duration \<Rightarrow> bool \<Rightarrow> wait_end \<Rightarrow> cli_end" where
  "wait_result w timeout asJSON x =
     (case x of
        Reported runs \<Rightarrow> reportRuns w asJSON runs
      | Timed_out cur \<Rightarrow> (exitTimeout, [Err (''kickd: timed out after '' @ w_duration_text w timeout @ '' waiting for run '' @ Itoa cur)])
      | Wait_failed e \<Rightarrow> cli_exit ''event'' (Failure (w_db_error w e)))"

text \<open>\<open>kickd event\<close> as a whole: \<open>None\<close> while it still waits after the given turns.\<close>

definition event_command :: "world \<Rightarrow> poll list \<Rightarrow> string list \<Rightarrow> db \<Rightarrow> (int \<times> cli_line list) option \<times> db" where
  "event_command w polls args d =
     (case kick_event w args d of
        ((Kick_ended (code, ls), warning), d') \<Rightarrow> (Some (code, warning @ ls), d')
      | ((Kick_crashed, warning), d') \<Rightarrow> (Some (exitUsage, [Err ''panic: assignment to entry in nil map'']), d')
      | ((Kick_waits i, warning), d') \<Rightarrow>
          (case parse_args (w_check w) event_flags ''event'' args of
             Inl e \<Rightarrow> (None, d')
           | Inr (vs, pos) \<Rightarrow>
               (map_option (\<lambda>x. case wait_result w (w_duration w (flag_string vs ''timeout'')) (flag_on vs ''json'') x of
                    (code, ls) \<Rightarrow> (code, warning @ ls)) (waitRun polls [] i), d')))"

section \<open>The other subcommands\<close>

definition param_text :: "param \<Rightarrow> string" where
  "param_text p =
     (if pa_required p then pa_name p @ '' (required)''
      else if pa_default p \<noteq> [] then pa_name p @ ''='' @ pa_default p else pa_name p)"

definition event_view_of :: "event_config \<Rightarrow> event_view" where
  "event_view_of e =
     \<lparr>vw_name = ec_name e, vw_description = ec_description e, vw_file = ec_file e,
      vw_concurrency = ec_concurrency e, vw_on_interrupt = ec_on_interrupt e,
      vw_max_attempts = ec_max_attempts e, vw_triggers = triggerNames e, vw_params = ec_params e\<rparr>"

definition event_row :: "world \<Rightarrow> event_config \<Rightarrow> string list" where
  "event_row w e =
     [ec_name e, Join (triggerNames e) '', '', ec_concurrency e,
      (if ec_on_interrupt e = InterruptRerun then ''rerun (max '' @ Itoa (ec_max_attempts e) @ '')'' else ec_on_interrupt e),
      orDash (Join (map param_text (ec_params e)) '', ''), w_base w (ec_file e), orDash (ec_description e)]"

definition events_command :: "world \<Rightarrow> string list \<Rightarrow> cli_end" where
  "events_command w args =
     (case parse_args (w_check w) [json_flag] ''events'' args of
        Inl e \<Rightarrow> cli_exit ''events'' e
      | Inr (vs, pos) \<Rightarrow>
          (case w_load w of
             Inl e \<Rightarrow> cli_exit ''events'' (Failure e)
           | Inr cfg \<Rightarrow>
               (exitOK,
                if flag_on vs ''json'' then [Json (Events_json (map event_view_of (cf_events cfg)))]
                else [Table ([''EVENT'', ''TRIGGERS'', ''CONCURRENCY'', ''ON INTERRUPT'', ''PARAMS'', ''FILE'', ''DESCRIPTION'']
                        # map (event_row w) (cf_events cfg))])))"

text \<open>The configuration and the database of a subcommand, once its arguments are read.\<close>

definition with_store :: "world \<Rightarrow> string \<Rightarrow> (config \<Rightarrow> db \<Rightarrow> cli_end \<times> db) \<Rightarrow> db \<Rightarrow> cli_end \<times> db" where
  "with_store w cmd f d =
     (case w_load w of
        Inl e \<Rightarrow> (cli_exit cmd (Failure e), d)
      | Inr cfg \<Rightarrow> (case open_store w of Inl e \<Rightarrow> (cli_exit cmd e, d) | Inr u \<Rightarrow> f cfg d))"

definition db_failed :: "world \<Rightarrow> string \<Rightarrow> db_error \<Rightarrow> cli_end" where
  "db_failed w cmd e = cli_exit cmd (Failure (w_db_error w e))"

definition history_row :: "world \<Rightarrow> run \<Rightarrow> string list" where
  "history_row w r = [Itoa (run_id r), run_event r, run_trigger_id r, statusText r, exitText r, durationText w r,
     timeText w (run_finished_at r), orDash (reasonText w r)]"

definition history_command :: "world \<Rightarrow> string list \<Rightarrow> db \<Rightarrow> cli_end \<times> db" where
  "history_command w args d =
     (case parse_args (w_check w) history_flags ''history'' args of
        Inl e \<Rightarrow> (cli_exit ''history'' e, d)
      | Inr (vs, pos) \<Rightarrow>
          (let status = flag_string vs ''status'';
               f = \<lparr>flt_event = flag_string vs ''event'', flt_statuses = (if status \<noteq> [] then [status] else []),
                    flt_limit = (case flag_value vs ''limit'' of None \<Rightarrow> 20 | Some v \<Rightarrow> w_int w v)\<rparr>
           in with_store w ''history'' (\<lambda>cfg d.
             case ListRuns f d of
               (Inl e, d') \<Rightarrow> (db_failed w ''history'' e, d')
             | (Inr runs, d') \<Rightarrow>
                 ((exitOK,
                   if flag_on vs ''json'' then [Json (Runs_json (runViews runs))]
                   else if runs = [] then [Out ''no runs'']
                   else [Table ([''RUN'', ''EVENT'', ''TRIGGER'', ''STATUS'', ''EXIT'', ''DURATION'', ''FINISHED'', ''DETAIL'']
                           # map (history_row w) runs)]), d')) d))"

definition run_table :: "world \<Rightarrow> run \<Rightarrow> string list list" where
  "run_table w r =
     [[''run'', Itoa (run_id r)], [''event'', run_event r], [''trigger'', run_trigger_id r]]
     @ (if run_source r \<noteq> [] then [[''source'', run_source r]] else [])
     @ [[''request'', run_request_id r], [''attempt'', Itoa (run_attempt r)]]
     @ (if run_retry_of r \<noteq> 0 then [[''rerun of'', ''run '' @ Itoa (run_retry_of r)]] else [])
     @ [[''status'', statusText r]]
     @ (if run_reason r \<noteq> [] then [[''reason'', run_reason r]] else [])
     @ (if run_detail r \<noteq> [] then [[''detail'', run_detail r]] else [])
     @ [[''exit'', exitText r]]
     @ (if run_signal r \<noteq> [] then [[''signal'', run_signal r]] else [])
     @ [[''queued'', timeText w (run_created_at r)]]
     @ (if \<not> IsZero (run_not_before r) then [[''not before'', timeText w (run_not_before r)]] else [])
     @ [[''started'', timeText w (run_started_at r)], [''finished'', timeText w (run_finished_at r)],
        [''duration'', durationText w r]]
     @ (if run_skipped r > 0
        then [[''skipped'', Itoa (run_skipped r) @ '' firings arrived while this run was active'']] else [])"

definition payload_lines :: "run \<Rightarrow> cli_line list" where
  "payload_lines r =
     (case unmarshal_event (run_payload r) of
        None \<Rightarrow> []
      | Some ev \<Rightarrow>
          (let data = entries (ev_data ev) in
           if data = [] then []
           else Out ''--- parameters ---'' # map (\<lambda>k. Out (k @ ''='' @ value_of data k)) (sorted_keys data)))"

definition output_lines :: "run \<Rightarrow> cli_line list" where
  "output_lines r =
     (if run_output r = [] then []
      else [Out ''--- output ---'',
            Verbatim (if HasSuffix (run_output r) [newline] then run_output r else run_output r @ [newline])]
        @ (if run_output_truncated r then [Out ''--- output truncated at 64 KB ---''] else []))"

definition show_command :: "world \<Rightarrow> string list \<Rightarrow> db \<Rightarrow> cli_end \<times> db" where
  "show_command w args d =
     (case parse_args (w_check w) [json_flag] ''show'' args of
        Inl e \<Rightarrow> (cli_exit ''show'' e, d)
      | Inr (vs, pos) \<Rightarrow>
          (case runID pos of
             Inl e \<Rightarrow> (cli_exit ''show'' e, d)
           | Inr i \<Rightarrow> with_store w ''show'' (\<lambda>cfg d.
               case GetRun i d of
                 (Inl e, d') \<Rightarrow>
                   (if e = ErrNotFound then cli_exit ''show'' (Failure (''run '' @ Itoa i @
                       '' not found (finished runs are kept for '' @ w_duration_text w (dc_retention (cf_database cfg)) @ '')''))
                    else db_failed w ''show'' e, d')
               | (Inr r, d') \<Rightarrow>
                   ((exitOK,
                     if flag_on vs ''json'' then
                       [Json (Run_json ((runView r)\<lparr>rv_output := run_output r, rv_payload := Some (run_payload r)\<rparr>))]
                     else [Table (run_table w r)] @ payload_lines r @ output_lines r), d')) d))"

definition canceled_line :: "run \<Rightarrow> cli_line" where
  "canceled_line r = Out (''canceled run '' @ Itoa (run_id r) @ '' ('' @ run_event r @ ''); it had not started'')"

definition asked_line :: "run \<Rightarrow> cli_line" where
  "asked_line r = Out (''asked kickd to stop run '' @ Itoa (run_id r) @ '' ('' @ run_event r @ '')'')"

definition not_running_line :: "string \<Rightarrow> bool \<times> db \<Rightarrow> cli_line list" where
  "not_running_line what alive =
     (if fst alive then [] else [Err (''kickd: the agent is not running; it handles the '' @ what @
        '' as interrupted when it starts'')])"

definition cancel_by_id :: "world \<Rightarrow> int \<Rightarrow> db \<Rightarrow> cli_end \<times> db" where
  "cancel_by_id w i d =
     (case RequestCancel (w_now w) i d of
        (Inl e, d1) \<Rightarrow>
          (if e = ErrNotFound then cli_exit ''cancel'' (Failure (''run '' @ Itoa i @ '' not found''))
           else db_failed w ''cancel'' e, d1)
      | (Inr r, d1) \<Rightarrow>
          if run_status r = StatusCanceled \<and> \<not> run_cancel_requested r then ((exitOK, [canceled_line r]), d1)
          else if run_cancel_requested r then
            ((exitOK, asked_line r # not_running_line ''run'' (agentAlive w d1)), snd (agentAlive w d1))
          else (cli_exit ''cancel'' (Failure (''run '' @ Itoa (run_id r) @ '' is '' @ status_name (run_status r) @
                  '' and cannot be canceled'')), d1))"

definition cancelEvent :: "world \<Rightarrow> string \<Rightarrow> config \<Rightarrow> db \<Rightarrow> cli_end \<times> db" where
  "cancelEvent w name cfg d =
     (case RequestCancelEvent (w_now w) name d of
        (Inl e, d1) \<Rightarrow> (db_failed w ''cancel'' e, d1)
      | (Inr runs, d1) \<Rightarrow>
          if runs = [] then
            ((case EventByName cfg name of
                None \<Rightarrow> cli_exit ''cancel'' (Failure (''unknown event '' @ quote name))
              | Some e \<Rightarrow> (exitOK, [Out (''no run of '' @ name @ '' is queued or running'')])), d1)
          else (let ls = map (\<lambda>r. if run_cancel_requested r then asked_line r else canceled_line r) runs in
                if list_ex run_cancel_requested runs
                then ((exitOK, ls @ not_running_line ''runs'' (agentAlive w d1)), snd (agentAlive w d1))
                else ((exitOK, ls), d1)))"

definition cancel_command :: "world \<Rightarrow> string list \<Rightarrow> db \<Rightarrow> cli_end \<times> db" where
  "cancel_command w args d =
     (case parse_args (w_check w) cancel_flags ''cancel'' args of
        Inl e \<Rightarrow> (cli_exit ''cancel'' e, d)
      | Inr (vs, pos) \<Rightarrow>
          (let name = flag_string vs ''event'' in
           if name \<noteq> [] \<and> pos \<noteq> [] then (cli_exit ''cancel'' (Usage ''give either a RUN_ID or --event, not both''), d)
           else if name = [] then
             (case runID pos of
                Inl e \<Rightarrow> (cli_exit ''cancel'' e, d)
              | Inr i \<Rightarrow> with_store w ''cancel'' (\<lambda>cfg. cancel_by_id w i) d)
           else with_store w ''cancel'' (cancelEvent w name) d))"

definition agent_line :: "world \<Rightarrow> agent option \<Rightarrow> bool \<Rightarrow> string" where
  "agent_line w known alive =
     (case known of
        None \<Rightarrow> ''agent: has not started with this database yet''
      | Some a \<Rightarrow>
          if alive then ''agent: running (pid '' @ Itoa (agent_pid a) @ '', version '' @ agent_version a @ '', since '' @
            timeText w (agent_started_at a) @ '', heartbeat '' @ ago w (agent_heartbeat_at a) @ '')''
          else if \<not> IsZero (agent_stopped_at a) then ''agent: stopped at '' @ timeText w (agent_stopped_at a)
          else ''agent: not responding (last heartbeat '' @ ago w (agent_heartbeat_at a) @ '', pid '' @
            Itoa (agent_pid a) @ '')'')"

definition status_command :: "world \<Rightarrow> string list \<Rightarrow> db \<Rightarrow> cli_end \<times> db" where
  "status_command w args d =
     (case parse_args (w_check w) [json_flag] ''status'' args of
        Inl e \<Rightarrow> (cli_exit ''status'' e, d)
      | Inr (vs, pos) \<Rightarrow> with_store w ''status'' (\<lambda>cfg d.
          case AgentInfo d of
            (Inl e, d1) \<Rightarrow> (db_failed w ''status'' e, d1)
          | (Inr known, d1) \<Rightarrow>
              (case Counts d1 of
                 (Inl e, d2) \<Rightarrow> (db_failed w ''status'' e, d2)
               | (Inr (queued, running), d2) \<Rightarrow>
                   (case ListRuns \<lparr>flt_event = [], flt_statuses = [status_name StatusInterrupted], flt_limit = 0\<rparr> d2 of
                      (Inl e, d3) \<Rightarrow> (db_failed w ''status'' e, d3)
                    | (Inr interrupted, d3) \<Rightarrow>
                        (let alive = (case known of None \<Rightarrow> False | Some a \<Rightarrow> Alive (w_now w) a HeartbeatWindow) in
                         ((exitOK,
                           if flag_on vs ''json'' then
                             [Json (Status_json alive queued running (length interrupted) (w_db_path w) known)]
                           else [Out (agent_line w known alive),
                                 Out (''queue: '' @ Itoa queued @ '' queued, '' @ Itoa running @ '' running, '' @
                                   Itoa (int (length interrupted)) @ '' interrupted''),
                                 Out (''database: '' @ w_db_path w)]), d3))))) d)"

definition runOps :: "world \<Rightarrow> poll list \<Rightarrow> string list \<Rightarrow> db \<Rightarrow> cli_end option \<times> db" where
  "runOps w polls args d =
     (let done = (\<lambda>(x, d'). (Some x, d')) in
      case args of
        [] \<Rightarrow> (None, d)
      | cmd # rest \<Rightarrow>
          if cmd = ''event'' then event_command w polls rest d
          else if cmd = ''events'' then (Some (events_command w rest), d)
          else if cmd = ''history'' then done (history_command w rest d)
          else if cmd = ''show'' then done (show_command w rest d)
          else if cmd = ''cancel'' then done (cancel_command w rest d)
          else if cmd = ''status'' then done (status_command w rest d)
          else (Some (exitUsage, [Err (''kickd: unknown command '' @ quote cmd)]), d))"

end
