(* ===== verification/OpsProps.thy ===== *)
theory OpsProps
  imports Ops StoreSpecs
begin

text \<open>
  What the subcommands do to the queue and how \<open>kickd event --wait\<close> follows a run: firing by hand
  against the database that the agent shares, and the wait over the databases of later moments.
\<close>

section \<open>Waiting\<close>

lemma GetRun_ok: "fst (GetRun i d) = Inr r \<Longrightarrow> \<exists>c. c \<in> set (tbl_runs d) \<and> c_id c = i \<and> r = scanRun c"
  by (auto simp: GetRun_def query_def sql_def db_then_def db_ret_def db_fail_def
      split: list.splits option.splits prod.splits dest: find_row_Some)

lemma rows_take_one: "sql_limit 1 rs = (case rs of [] \<Rightarrow> [] | r # x \<Rightarrow> [r])"
  by (cases rs) (simp_all add: sql_limit_def)

lemma RetryOf_ok:
  assumes "fst (RetryOf i d) = Inr (Some r)"
  shows "\<exists>c. c \<in> set (tbl_runs d) \<and> c_retry_of c = Some i \<and> r = scanRun c"
proof -
  from assms obtain fs where "(case sql_limit 1 (rows_by_id (\<lambda>r. c_retry_of r = Some i) (d\<lparr>faults := fs\<rparr>)) of
      [] \<Rightarrow> None | r # rs \<Rightarrow> Some (scanRun r)) = Some r \<or>
      (case sql_limit 1 (rows_by_id (\<lambda>r. c_retry_of r = Some i) d) of [] \<Rightarrow> None | r # rs \<Rightarrow> Some (scanRun r)) = Some r"
    by (auto simp: RetryOf_def query_def sql_def split: list.splits option.splits prod.splits)
  then have "\<exists>c cs. rows_by_id (\<lambda>r. c_retry_of r = Some i) d = c # cs \<and> r = scanRun c"
    by (auto simp: rows_take_one split: list.splits)
  then obtain c cs where c: "rows_by_id (\<lambda>r. c_retry_of r = Some i) d = c # cs" "r = scanRun c" by blast
  then have "c \<in> set (rows_by_id (\<lambda>r. c_retry_of r = Some i) d)" by simp
  with c(2) show ?thesis unfolding rows_by_id_set by blast
qed

text \<open>A row that another one was queued for keeps saying so, in whatever the database becomes.\<close>

definition queued_for :: "db \<Rightarrow> int \<Rightarrow> int \<Rightarrow> bool" where
  "queued_for d cur prev \<longleftrightarrow> cur \<le> tbl_seq d \<and>
     list_all (\<lambda>c. c_id c \<noteq> cur \<or> c_retry_of c = Some prev) (tbl_runs d)"

lemma queued_for_evolves:
  assumes "evolves d d'" and "queued_for d cur prev"
  shows "queued_for d' cur prev"
proof -
  have "c_retry_of c' = Some prev" if c': "c' \<in> set (tbl_runs d')" "c_id c' = cur" for c'
  proof -
    from assms c' obtain c where "c \<in> set (tbl_runs d)" "row_evolves c c'"
      by (auto simp: evolves_def queued_for_def)
    with assms(2) c'(2) show ?thesis by (auto simp: row_evolves_def queued_for_def list_all_iff)
  qed
  with assms show ?thesis by (auto simp: queued_for_def list_all_iff evolves_def)
qed

lemma queued_for_rerun:
  assumes "db_wf d" and "c \<in> set (tbl_runs d)" and "c_retry_of c = Some prev"
  shows "queued_for d (c_id c) prev"
proof -
  have "c' = c" if "c' \<in> set (tbl_runs d)" "c_id c' = c_id c" for c'
    using find_row_wf [OF assms(1) assms(2)] find_row_wf [OF assms(1) that(1)] that(2) by simp
  with assms show ?thesis by (auto simp: queued_for_def list_all_iff db_wf_def)
qed

definition poll_dbs :: "poll list \<Rightarrow> db list" where
  "poll_dbs ps = concat (map (\<lambda>p. [po_db p, po_retry_db p]) ps)"

definition rerun_link :: "run \<Rightarrow> run \<Rightarrow> bool" where
  "rerun_link a b \<longleftrightarrow> run_status a = StatusRetried \<and> run_retry_of b = run_id a"

lemma waitRun_chain:
  assumes "waitRun ps chain cur = Some (Reported runs)"
    and "sorted_wrt evolves (poll_dbs ps)" and "list_all db_wf (poll_dbs ps)"
    and "successively rerun_link chain"
    and "chain \<noteq> [] \<Longrightarrow> run_status (last chain) = StatusRetried \<and>
      list_all (\<lambda>d. queued_for d cur (run_id (last chain))) (poll_dbs ps)"
  shows "\<exists>rest r. runs = chain @ r # rest \<and> run_id r = cur \<and> successively rerun_link runs \<and>
    Final (run_status (last runs)) \<and> run_status (last runs) \<noteq> StatusRetried"
  using assms
proof (induction ps chain cur rule: waitRun.induct)
  case (2 p ps chain cur)
  have ps: "sorted_wrt evolves (poll_dbs ps)" "list_all db_wf (poll_dbs ps)"
    using "2.prems"(2,3) by (auto simp: poll_dbs_def)
  have later: "list_all (evolves (po_retry_db p)) (poll_dbs ps)" and wf: "db_wf (po_retry_db p)"
    using "2.prems"(2,3) by (auto simp: poll_dbs_def list_all_iff)
  have pause: ?case if "(if po_expired p then Some (Timed_out cur) else waitRun ps chain cur) = Some (Reported runs)"
  proof -
    from that have w: "\<not> po_expired p" "waitRun ps chain cur = Some (Reported runs)" by (auto split: if_splits)
    have "chain \<noteq> [] \<Longrightarrow> run_status (last chain) = StatusRetried \<and>
        list_all (\<lambda>d. queued_for d cur (run_id (last chain))) (poll_dbs ps)"
      using "2.prems"(5) by (simp add: poll_dbs_def)
    then show ?case using "2.IH" w ps "2.prems"(4) by blast
  qed
  show ?case
  proof (cases "fst (GetRun cur (po_db p))")
    case (Inl e)
    with "2.prems"(1) pause show ?thesis by (auto simp: Let_def split: if_splits)
  next
    case (Inr r)
    from GetRun_ok [OF this] obtain c where c: "c \<in> set (tbl_runs (po_db p))" "c_id c = cur" "r = scanRun c" by blast
    have link: "chain \<noteq> [] \<Longrightarrow> rerun_link (last chain) r"
      using "2.prems"(5) c by (auto simp: rerun_link_def poll_dbs_def queued_for_def list_all_iff scanRun_def)
    have chain: "successively rerun_link (chain @ [r])" and id: "run_id r = cur"
      using "2.prems"(4) link c by (auto simp: successively_append_iff scanRun_def)
    show ?thesis
    proof (cases "run_status r = StatusRetried")
      case True
      show ?thesis
      proof (cases "fst (RetryOf cur (po_retry_db p))")
        case (Inl e)
        with Inr True "2.prems"(1) pause show ?thesis by (auto simp: Let_def)
      next
        case found: (Inr x)
        show ?thesis
        proof (cases x)
          case None
          with Inr found True "2.prems"(1) pause show ?thesis by (auto simp: Let_def)
        next
          case (Some n)
          with found obtain c' where c': "c' \<in> set (tbl_runs (po_retry_db p))" "c_retry_of c' = Some cur" "n = scanRun c'"
            using RetryOf_ok by blast
          have w: "waitRun ps (chain @ [r]) (run_id n) = Some (Reported runs)"
            using "2.prems"(1) Inr True found Some by (simp add: Let_def)
          have "list_all (\<lambda>d. queued_for d (run_id n) (run_id r)) (poll_dbs ps)"
            using queued_for_rerun [OF wf c'(1,2)] later c'(3) id
            by (auto simp: list_all_iff scanRun_def intro: queued_for_evolves)
          then have "\<exists>rest r'. runs = (chain @ [r]) @ r' # rest \<and> run_id r' = run_id n \<and> successively rerun_link runs \<and>
              Final (run_status (last runs)) \<and> run_status (last runs) \<noteq> StatusRetried"
            using "2.IH" Inr True found Some w ps chain by simp
          with id show ?thesis by auto
        qed
      qed
    next
      case False
      show ?thesis
      proof (cases "Final (run_status r)")
        case True
        with Inr False "2.prems"(1) have "runs = chain @ [r]" by (simp add: Let_def)
        with True False chain id show ?thesis by auto
      next
        case nf: False
        with Inr False "2.prems"(1) pause show ?thesis by (auto simp: Let_def)
      qed
    qed
  qed
qed simp

text \<open>
  C22: Whatever happens to the database while \<open>kickd event --wait\<close> waits, runs rerun after interruptions
  included: what it reports begins with the run that it was asked to wait for, each further run was
  queued as the rerun of the one before, which has the status retried, and the last one has ended;
  the exit code is 0 exactly when that last run succeeded.\<close>
theorem wait_follows_reruns:
  assumes "waitRun polls [] i = Some (Reported runs)"
    and "successively evolves (poll_dbs polls)" and "list_all db_wf (poll_dbs polls)"
  shows "runs \<noteq> [] \<and> run_id (hd runs) = i \<and>
    successively (\<lambda>a b. run_status a = StatusRetried \<and> run_retry_of b = run_id a) runs \<and>
    Final (run_status (last runs)) \<and> run_status (last runs) \<noteq> StatusRetried \<and>
    fst (reportRuns w asJSON runs) = (if run_status (last runs) = StatusSucceeded then exitOK else exitFailed)"
proof -
  have "sorted_wrt evolves (poll_dbs polls)"
    using assms(2) evolves_trans by (subst (asm) successively_conv_sorted_wrt) (auto intro: transpI)
  from waitRun_chain [OF assms(1) this assms(3)] obtain rest r where
    "runs = [] @ r # rest" "run_id r = i" "successively rerun_link runs"
    "Final (run_status (last runs))" "run_status (last runs) \<noteq> StatusRetried" by auto
  then show ?thesis by (simp add: reportRuns_def rerun_link_def [abs_def])
qed

definition retried_row :: "row list" where
  "retried_row = [demo_row 1 ''backup'' StatusRetried, (demo_row 2 ''backup'' StatusSucceeded)\<lparr>c_retry_of := Some 1\<rparr>]"

definition still :: "db \<Rightarrow> poll" where
  "still d = \<lparr>po_db = d, po_retry_db = d, po_read_expired = False, po_expired = False\<rparr>"

lemmas wait_evals = still_def GetRun_def RetryOf_def query_def sql_def db_then_def db_ret_def find_row_def
  rows_by_id_def sql_limit_def scanRun_def

theorem wait_follows_reruns_witness:
  "\<exists>runs. waitRun [still (demo_db retried_row), still (demo_db retried_row)] [] 1 = Some (Reported runs) \<and>
    run_id (hd runs) = 1 \<and> (\<forall>w. fst (reportRuns w False runs) = exitOK)"
proof -
  let ?d = "demo_db retried_row"
  obtain runs where w: "waitRun [still ?d, still ?d] [] 1 = Some (Reported runs)"
      and last: "run_status (last runs) = StatusSucceeded"
    by (simp add: wait_evals retried_row_def demo_defs)
  have "successively evolves (poll_dbs [still ?d, still ?d])"
    by (simp add: poll_dbs_def still_def evo.R_refl)
  moreover have "list_all db_wf (poll_dbs [still ?d, still ?d])"
    by (simp add: poll_dbs_def still_def db_wf_def retried_row_def demo_defs)
  ultimately show ?thesis using wait_follows_reruns [OF w] last w by simp
qed

text \<open>
  A database at rest: no statement fails, every run has ended, a run with the status retried has its
  rerun, and a rerun is younger than the run it repeats.
\<close>

definition settled_row :: "row list \<Rightarrow> row \<Rightarrow> bool" where
  "settled_row rs c \<longleftrightarrow> Final (c_status c) \<and>
     (c_status c \<noteq> StatusRetried \<or> list_ex (\<lambda>c'. c_retry_of c' = Some (c_id c)) rs) \<and>
     (case c_retry_of c of None \<Rightarrow> True | Some j \<Rightarrow> j < c_id c)"

definition settled_db :: "db \<Rightarrow> bool" where
  "settled_db d \<longleftrightarrow> faults d = [] \<and> db_wf d \<and> list_all (settled_row (tbl_runs d)) (tbl_runs d)"

definition not_older :: "db \<Rightarrow> int \<Rightarrow> nat" where
  "not_older d cur = length (filter (\<lambda>c. cur \<le> c_id c) (tbl_runs d))"

lemma not_older_less:
  assumes "c \<in> set (tbl_runs d)" and "c_id c < j"
  shows "not_older d j < not_older d (c_id c)"
proof -
  have "length (filter (\<lambda>x. j \<le> c_id x) xs) < length (filter (\<lambda>x. c_id c \<le> c_id x) xs)" if "c \<in> set xs" for xs
  proof -
    have sub: "filter (\<lambda>x. j \<le> c_id x) (filter (\<lambda>x. c_id c \<le> c_id x) xs) = filter (\<lambda>x. j \<le> c_id x) xs"
      using assms(2) by (induction xs) auto
    from that assms(2) have "\<exists>x \<in> set (filter (\<lambda>x. c_id c \<le> c_id x) xs). \<not> j \<le> c_id x" by (intro bexI [of _ c]) auto
    from length_filter_less [of _ "filter (\<lambda>x. c_id c \<le> c_id x) xs"] this show ?thesis unfolding sub [symmetric]
      by (metis (no_types, lifting) length_filter_less)
  qed
  with assms(1) show ?thesis by (simp add: not_older_def)
qed

lemma GetRun_settled:
  "settled_db d \<Longrightarrow> c \<in> set (tbl_runs d) \<Longrightarrow> fst (GetRun (c_id c) d) = Inr (scanRun c)"
  by (auto simp: settled_db_def GetRun_def query_def sql_def db_then_def db_ret_def find_row_wf)

lemma RetryOf_settled:
  assumes "settled_db d" and "c \<in> set (tbl_runs d)" and "c_status c = StatusRetried"
  shows "\<exists>c' \<in> set (tbl_runs d). fst (RetryOf (c_id c) d) = Inr (Some (scanRun c')) \<and> c_id c < c_id c'"
proof -
  let ?rs = "rows_by_id (\<lambda>r. c_retry_of r = Some (c_id c)) d"
  from assms have "\<exists>c' \<in> set (tbl_runs d). c_retry_of c' = Some (c_id c)"
    by (auto simp: settled_db_def settled_row_def list_all_iff list_ex_iff)
  then have "?rs \<noteq> []" using rows_by_id_set [of "\<lambda>r. c_retry_of r = Some (c_id c)" d] by auto
  then obtain c' cs where rs: "?rs = c' # cs" by (cases ?rs) auto
  then have c': "c' \<in> set (tbl_runs d)" "c_retry_of c' = Some (c_id c)"
    using rows_by_id_set [of "\<lambda>r. c_retry_of r = Some (c_id c)" d] by auto
  with assms(1) have "c_id c < c_id c'" by (auto simp: settled_db_def settled_row_def list_all_iff)
  with c'(1) rs assms(1) show ?thesis
    by (intro bexI [of _ c']) (auto simp: RetryOf_def query_def sql_def settled_db_def rows_take_one)
qed

lemma waitRun_settled:
  assumes "settled_db d" and "c \<in> set (tbl_runs d)" and "not_older d (c_id c) \<le> n"
  shows "\<exists>runs. waitRun (replicate n (still d)) chain (c_id c) = Some (Reported runs)"
  using assms(2,3)
proof (induction n arbitrary: c chain)
  case 0
  then show ?case by (auto simp: not_older_def filter_empty_conv)
next
  case (Suc n)
  have fin: "Final (c_status c)" using Suc.prems(1) assms(1) by (auto simp: settled_db_def settled_row_def list_all_iff)
  have get: "fst (GetRun (c_id c) (po_db (still d))) = Inr (scanRun c)"
    using GetRun_settled [OF assms(1) Suc.prems(1)] by (simp add: still_def)
  show ?case
  proof (cases "c_status c = StatusRetried")
    case True
    from RetryOf_settled [OF assms(1) Suc.prems(1) True] obtain c' where
      c': "c' \<in> set (tbl_runs d)" "fst (RetryOf (c_id c) d) = Inr (Some (scanRun c'))" "c_id c < c_id c'" by blast
    with not_older_less [OF Suc.prems(1), of "c_id c'"] Suc.prems(2) have "not_older d (c_id c') \<le> n" by linarith
    from Suc.IH [OF c'(1) this] c'(2) get True show ?thesis
      by (simp add: Let_def scanRun_def still_def)
  next
    case False
    with fin get show ?thesis by (simp add: Let_def scanRun_def)
  qed
qed

text \<open>
  C34: The wait ends: over a database at rest, \<open>kickd event --wait\<close> reports after at most as many turns of
  its loop as there are runs, however many reruns it has to follow.\<close>
theorem wait_returns:
  assumes "settled_db d" and "c \<in> set (tbl_runs d)"
  shows "\<exists>runs. waitRun (replicate (length (tbl_runs d)) (still d)) [] (c_id c) = Some (Reported runs)"
  by (rule waitRun_settled [OF assms]) (simp add: not_older_def)

theorem wait_returns_witness:
  "\<exists>runs. waitRun (replicate (length (tbl_runs (demo_db retried_row))) (still (demo_db retried_row))) []
     (c_id (demo_row 1 ''backup'' StatusRetried)) = Some (Reported runs)"
proof (rule wait_returns)
  show "settled_db (demo_db retried_row)"
    by (simp add: settled_db_def settled_row_def db_wf_def retried_row_def demo_defs)
  show "demo_row 1 ''backup'' StatusRetried \<in> set (tbl_runs (demo_db retried_row))"
    by (simp add: demo_db_def retried_row_def)
qed

section \<open>Firing by hand\<close>

lemma cli_exit_event_code:
  "fst (cli_exit ''event'' e) = (case e of Help_request \<Rightarrow> exitOK | Usage m \<Rightarrow> exitUsage | Failure m \<Rightarrow> exitFailed)"
proof -
  have "\<exists>x. commandHelp ''event'' (flags_of ''event'') = Inr x"
    by (simp add: commandHelp_def commands_def)
  then show ?thesis by (auto simp: cli_exit_def split: cli_error.splits prod.splits)
qed

lemma agentAlive_tables: "same_tables d (snd (agentAlive w d))"
  by (auto simp: agentAlive_def AgentInfo_def query_def sql_def split: list.splits option.splits)

lemma kick_ready:
  assumes "kick_check w args = Kick_ready e data vs"
  shows "\<exists>cfg kvs given. w_load w = Inr cfg \<and> EventByName cfg (ec_name e) = Some e \<and> Manual e \<and>
    parse_args (w_check w) event_flags ''event'' args = Inr (vs, ec_name e # kvs) \<and>
    kick_data w (flag_string vs ''data'') kvs = Inr given \<and>
    Apply e (case given of None \<Rightarrow> [] | Some m \<Rightarrow> m) = Inr data"
proof -
  from assms obtain n kvs where p: "parse_args (w_check w) event_flags ''event'' args = Inr (vs, n # kvs)"
    by (auto simp: kick_check_def Let_def split: sum.splits list.splits option.splits if_splits arg_error.splits)
  with assms obtain cfg where cfg: "w_load w = Inr cfg"
    by (auto simp: kick_check_def Let_def split: sum.splits)
  with assms p have e: "EventByName cfg n = Some e" "Manual e"
    by (auto simp: kick_check_def Let_def split: sum.splits list.splits option.splits if_splits arg_error.splits)
  with assms p cfg obtain given where g: "kick_data w (flag_string vs ''data'') kvs = Inr given"
    by (auto simp: kick_check_def Let_def split: sum.splits arg_error.splits)
  with assms p cfg e have a: "Apply e (case given of None \<Rightarrow> [] | Some m \<Rightarrow> m) = Inr data"
    by (auto simp: kick_check_def Let_def split: sum.splits)
  have "n = ec_name e" using e(1) by (auto simp: EventByName_def find_Some_iff)
  with p cfg e g a show ?thesis by blast
qed

lemma kick_refused:
  assumes "kick_check w args = Kick_refused x"
  shows "(fst x = exitOK) = (parse_args (w_check w) event_flags ''event'' args = Inl Help_request) \<and>
    (fst x = exitOK \<or> fst x = exitFailed \<or> fst x = exitUsage)"
  using assms
  by (auto simp: kick_check_def Let_def cli_exit_event_code open_store_def exitOK_def exitFailed_def exitUsage_def
      split: sum.splits list.splits option.splits if_splits arg_error.splits cli_error.splits)

definition fired_row :: "world \<Rightarrow> string \<Rightarrow> payload \<Rightarrow> bool \<Rightarrow> row" where
  "fired_row w name pl full =
     fresh_row (manual_run w name pl) pl (if full then StatusDropped else StatusQueued)
       (if full then ''queue_full'' else []) 1 None (UnixMilli (w_now w))
       (if full then Some (UnixMilli (w_now w)) else None) None"

lemma fired_row_eq: "enqueued_row (w_now w) (manual_run w name pl) full = fired_row w name pl full"
  by (simp add: enqueued_row_def fired_row_def manual_run_def new_run_def nullID_def IsZero_def)

lemma kick_queue_effect:
  assumes "kick_queue w e data vs d = ((x, warning), d')"
  shows "(tbl_runs d' = tbl_runs d \<and> (\<exists>ls. x = Kick_ended (exitFailed, ls))) \<or>
    (\<exists>pl. marshal_event (manual_event w (ec_name e) data) = Some pl \<and>
      (let full = (ec_concurrency e = ConcurrencyQueue \<and> MaxQueuedPerEvent \<le> count_queued (ec_name e) d) in
       tbl_runs d' = tbl_runs d @ [(fired_row w (ec_name e) pl full)\<lparr>c_id := tbl_seq d + 1\<rparr>] \<and>
       (if full then \<exists>ls. x = Kick_ended (exitFailed, ls)
        else x = Kick_waits (tbl_seq d + 1) \<or> (\<exists>ls. x = Kick_ended (exitOK, ls)))))"
proof (cases "marshal_event (manual_event w (ec_name e) data)")
  case None
  with assms show ?thesis by (auto simp: kick_queue_def cli_exit_def)
next
  case (Some pl)
  obtain res d1 where en: "Enqueue (w_now w) (manual_run w (ec_name e) pl) (kick_limit e) d = (res, d1)"
    by (cases "Enqueue (w_now w) (manual_run w (ec_name e) pl) (kick_limit e) d")
  from en show ?thesis
  proof (cases rule: Enqueue_elim)
    case (error err fs)
    with assms Some en show ?thesis by (auto simp: kick_queue_def cli_exit_def)
  next
    case (ok fs)
    let ?full = "full_for (manual_run w (ec_name e) pl) (kick_limit e) d"
    have full: "?full = (ec_concurrency e = ConcurrencyQueue \<and> MaxQueuedPerEvent \<le> count_queued (ec_name e) d)"
      by (simp add: full_for_def kick_limit_def MaxQueuedPerEvent_def manual_run_def new_run_def)
    have rows: "tbl_runs d1 = tbl_runs d @ [(fired_row w (ec_name e) pl ?full)\<lparr>c_id := tbl_seq d + 1\<rparr>]"
      unfolding ok(2) fired_row_eq by (simp add: insert_row_def Let_def)
    have "tbl_runs d' = tbl_runs d1"
      using assms Some en ok(1) agentAlive_tables [of d1 w]
      by (auto simp: kick_queue_def Let_def same_tables_def split: if_splits prod.splits dest: arg_cong [where f = tbl_runs])
    moreover have "if ?full then \<exists>ls. x = Kick_ended (exitFailed, ls)
        else x = Kick_waits (tbl_seq d + 1) \<or> (\<exists>ls. x = Kick_ended (exitOK, ls))"
      using assms Some en ok(1) by (auto simp: kick_queue_def Let_def split: if_splits prod.splits)
    ultimately show ?thesis using Some rows unfolding Let_def full by auto
  qed
qed

text \<open>
  C21: \<open>kickd event\<close> fires only an event that the configuration defines with a manual trigger, with data that
  its parameters accept: exactly one run joins the queue, as the next row, with the name, the user, the
  time and the data of this firing, and the command ends with 0 or waits for that run. It is
  recorded as dropped, with exit code 1, exactly when the event queues its runs and 1000 of them wait.
  In every other case the runs stay as they were and the exit code is 1 or 2, or 0 when the
  arguments ask for help.\<close>
theorem kick_event_behaviour:
  "case kick_event w args d of ((x, warning), d') \<Rightarrow>
     tbl_runs d' = tbl_runs d \<and>
       (x = Kick_crashed \<or> (\<exists>code ls. x = Kick_ended (code, ls) \<and>
          (code = exitFailed \<or> code = exitUsage \<or>
           code = exitOK \<and> parse_args (w_check w) event_flags ''event'' args = Inl Help_request))) \<or>
     (\<exists>cfg e vs kvs given data pl. w_load w = Inr cfg \<and> EventByName cfg (ec_name e) = Some e \<and> Manual e \<and>
       parse_args (w_check w) event_flags ''event'' args = Inr (vs, ec_name e # kvs) \<and>
       kick_data w (flag_string vs ''data'') kvs = Inr given \<and>
       Apply e (case given of None \<Rightarrow> [] | Some m \<Rightarrow> m) = Inr data \<and>
       marshal_event (manual_event w (ec_name e) data) = Some pl \<and>
       (let full = (ec_concurrency e = ConcurrencyQueue \<and> MaxQueuedPerEvent \<le> count_queued (ec_name e) d) in
        tbl_runs d' = tbl_runs d @ [(fired_row w (ec_name e) pl full)\<lparr>c_id := tbl_seq d + 1\<rparr>] \<and>
        (if full then \<exists>ls. x = Kick_ended (exitFailed, ls)
         else x = Kick_waits (tbl_seq d + 1) \<or> (\<exists>ls. x = Kick_ended (exitOK, ls)))))"
proof (cases "kick_check w args")
  case (Kick_refused y)
  with kick_refused [OF this] show ?thesis by (cases y) (auto simp: kick_event_def)
next
  case Kick_panics
  then show ?thesis by (simp add: kick_event_def)
next
  case (Kick_ready e data vs)
  obtain x warning d' where q: "kick_queue w e data vs d = ((x, warning), d')" by (metis prod.exhaust)
  have eq: "kick_event w args d = ((x, warning), d')" using Kick_ready q by (simp add: kick_event_def)
  from kick_queue_effect [OF q] show ?thesis
  proof (elim disjE)
    assume "tbl_runs d' = tbl_runs d \<and> (\<exists>ls. x = Kick_ended (exitFailed, ls))"
    then show ?thesis unfolding eq prod.case by blast
  next
    assume "\<exists>pl. marshal_event (manual_event w (ec_name e) data) = Some pl \<and>
      (let full = (ec_concurrency e = ConcurrencyQueue \<and> MaxQueuedPerEvent \<le> count_queued (ec_name e) d) in
       tbl_runs d' = tbl_runs d @ [(fired_row w (ec_name e) pl full)\<lparr>c_id := tbl_seq d + 1\<rparr>] \<and>
       (if full then \<exists>ls. x = Kick_ended (exitFailed, ls)
        else x = Kick_waits (tbl_seq d + 1) \<or> (\<exists>ls. x = Kick_ended (exitOK, ls))))"
    with kick_ready [OF Kick_ready] show ?thesis unfolding eq prod.case by blast
  qed
qed

text \<open>
  \<open>--data null\<close> leaves the map of the data nil, and the first argument KEY=VALUE then writes to it.
\<close>

theorem null_data_panics:
  assumes "w_unmarshal w ''null'' = Inr None" and "Cut a CHR ''='' = (k, v, True)" and "k \<noteq> []"
  shows "kick_data w ''null'' (a # as) = Inl Panics"
  using assms by (simp add: kick_data_def)

end
