(* ===== verification/Kickd.thy ===== *)
theory Kickd
  imports Ops
begin

text \<open>
  The program itself (\<^verbatim>\<open>cmd/kickd/main.go\<close>): which subcommand runs, \<open>run\<close> up to the agent, \<open>check\<close>,
  \<open>init\<close>, \<open>service\<close>, and the service that \<open>service install\<close> describes.

  \<open>process\<close> extends what a subcommand sees around it (\<open>world\<close>) with the rest of the operating system:
  its name, whether the user is root or an administrator, the files, the embedded texts, the build, the
  service manager, and what the agent returned.
\<close>

section \<open>The process\<close>

datatype service_status = StatusRunning_service | StatusStopped_service | StatusUnknown_service

record process =
  pr_world :: world
  pr_goos :: string
  pr_system :: bool
  pr_path :: string
  pr_getenv :: "string \<Rightarrow> string"
  pr_file_exists :: "string \<Rightarrow> bool"
  pr_dir :: "string \<Rightarrow> string"
  pr_join :: "string \<Rightarrow> string \<Rightarrow> string"
  pr_mkdir :: "string \<Rightarrow> string option"
  pr_write :: "string \<Rightarrow> string option"
  pr_example_config :: string
  pr_example_unix :: string
  pr_example_windows :: string
  pr_licenses :: string
  pr_version :: string
  pr_build :: "string option"
  pr_split_host_port :: "string \<Rightarrow> string option"
  pr_interactive :: bool
  pr_error :: "string \<Rightarrow> go_error"
  pr_rotate :: rotate_faults
  pr_log_files :: generations
  pr_rotate_error :: "rotate_error list \<Rightarrow> string"
  pr_tty :: bool
  pr_vt :: bool
  pr_open_files :: "int option"
  pr_agent :: "string option"
  pr_service_new :: "string option"
  pr_service_run :: "string option"
  pr_service_status :: "string + service_status"
  pr_service_control :: "string \<Rightarrow> string option"

text \<open>How a subcommand of \<open>main\<close> ends: \<open>None\<close> is success.\<close>

datatype main_error = Help_shown | Already_logged | Bad_usage string | Failed_with string

text \<open>What such a subcommand leaves: lines printed, records logged and files written.\<close>

datatype effect =
    Printed cli_line
  | Logged log_options Logging.level string attrs
  | Made_dir string
  | Wrote string string

type_synonym outcome = "main_error option \<times> effect list"

definition println :: "string \<Rightarrow> effect" where
  "println s = Printed (Out s)"

section \<open>Arguments\<close>

definition first_word :: "string \<Rightarrow> string" where
  "first_word s = fst (Cut s CHR '' '')"

definition noArgs :: "string \<Rightarrow> string list \<Rightarrow> outcome" where
  "noArgs cmd args =
     (case args of
        [] \<Rightarrow> (None, [])
      | a # as \<Rightarrow>
          if isHelp a then
            (case commandHelp (first_word cmd) [] of
               Inl e \<Rightarrow> (Some (Failed_with e), [])
             | Inr (txt, rows) \<Rightarrow> (Some Help_shown, [Printed (Verbatim txt)]))
          else (Some (Bad_usage (''kickd '' @ cmd @ '' takes no arguments: '' @ Join args '' '' @ ''; kickd help '' @
                  first_word cmd @ '' shows its usage'')), []))"

text \<open>The command of a subcommand without arguments.\<close>

definition without_args :: "string \<Rightarrow> string list \<Rightarrow> outcome \<Rightarrow> outcome" where
  "without_args cmd args x = (case noArgs cmd args of (Some e, out) \<Rightarrow> (Some e, out) | (None, out) \<Rightarrow> x)"

definition sudo :: "string \<Rightarrow> bool \<Rightarrow> string" where
  "sudo goos system = (if system \<and> goos \<noteq> ''windows'' then ''sudo '' else [])"

definition perUser :: "process \<Rightarrow> bool" where
  "perUser p \<longleftrightarrow> pr_goos p \<noteq> ''windows'' \<and> \<not> pr_system p"

section \<open>The config file\<close>

definition systemPath :: "process \<Rightarrow> string" where
  "systemPath p = pr_join p (SystemDir (pr_getenv p) (pr_goos p)) ''config.yaml''"

text \<open>The home directory, when there is one, and \<open>filepath.Abs\<close>, when it succeeds.\<close>

definition userPath :: "process \<Rightarrow> string option \<Rightarrow> (string \<Rightarrow> string option) \<Rightarrow> string" where
  "userPath p home make_abs =
     (let home = (case home of None \<Rightarrow> ''.'' | Some h \<Rightarrow> h);
          path = pr_join p (pr_join p home ''.kickd'') ''config.yaml''
      in case make_abs path of None \<Rightarrow> path | Some a \<Rightarrow> a)"

definition Path :: "process \<Rightarrow> string option \<Rightarrow> (string \<Rightarrow> string option) \<Rightarrow> string" where
  "Path p home make_abs = (if pr_system p then systemPath p else userPath p home make_abs)"

section \<open>kickd run\<close>

definition boot_logger :: "process \<Rightarrow> log_options \<Rightarrow> rotate_error list + (log_target \<times> handler) list" where
  "boot_logger p opts = New_logger (pr_rotate p) (pr_log_files p) (pr_tty p) (pr_getenv p ''NO_COLOR'') (pr_vt p) opts"

definition stderr_options :: "string \<Rightarrow> string \<Rightarrow> log_options" where
  "stderr_options lvl fmt =
     \<lparr>lo_level = lvl, lo_format = fmt, lo_file = [], lo_max_size_mb = 0, lo_max_backups = 0, lo_console = False\<rparr>"

definition fatal_record :: "process \<Rightarrow> log_options \<Rightarrow> string \<Rightarrow> attrs \<Rightarrow> string \<Rightarrow> effect" where
  "fatal_record p opts msg extra e =
     Logged opts LevelFatal msg ((''requestId'', Str (w_request_id (pr_world p))) # extra @
       [Err_attr (Some (pr_error p e)), (''exitCode'', Num 1)])"

definition fatal :: "process \<Rightarrow> log_options \<Rightarrow> string \<Rightarrow> string \<Rightarrow> attrs \<Rightarrow> effect list" where
  "fatal p opts msg e extra =
     (case boot_logger p opts of
        Inl errs \<Rightarrow> [Printed (Err (''kickd: '' @ e))]
      | Inr hs \<Rightarrow> [fatal_record p opts msg extra e])"

definition run_options :: "process \<Rightarrow> config \<Rightarrow> log_options" where
  "run_options p cfg =
     \<lparr>lo_level = lc_level (cf_log cfg), lo_format = lc_format (cf_log cfg), lo_file = lc_path (cf_log cfg),
      lo_max_size_mb = lc_max_size_mb (cf_log cfg), lo_max_backups = lc_max_backups (cf_log cfg),
      lo_console = pr_interactive p\<rparr>"

definition logged_failure :: "process \<Rightarrow> log_options \<Rightarrow> string \<Rightarrow> string option \<Rightarrow> outcome \<Rightarrow> outcome" where
  "logged_failure p opts msg e x =
     (case e of Some m \<Rightarrow> (Some Already_logged, [fatal_record p opts msg [] m]) | None \<Rightarrow> x)"

text \<open>In the foreground \<open>run\<close> returns with the agent; as a service, with the service manager.\<close>

definition cmdRun :: "process \<Rightarrow> string list \<Rightarrow> outcome" where
  "cmdRun p args = without_args ''run'' args
     (case w_load (pr_world p) of
        Inl e \<Rightarrow> (Some Already_logged,
          fatal p (stderr_options (pr_getenv p EnvLogLevel) (pr_getenv p EnvLogFormat)) ''Config load failed'' e
            [(''file'', Str (pr_path p))])
      | Inr cfg \<Rightarrow>
          (let opts = run_options p cfg in
           case boot_logger p opts of
             Inl errs \<Rightarrow> (Some Already_logged,
               fatal p (stderr_options (lc_level (cf_log cfg)) (lc_format (cf_log cfg))) ''Log file open failed''
                 (pr_rotate_error p errs) [(''file'', Str (lc_path (cf_log cfg)))])
           | Inr hs \<Rightarrow>
               (let limit = (case pr_open_files p of None \<Rightarrow> []
                      | Some n \<Rightarrow> [Logged opts LevelDebug ''Open file limit''
                          [(''requestId'', Str (w_request_id (pr_world p))), (''count'', Num n)]]);
                    (e, out) = (if pr_interactive p then logged_failure p opts ''Agent start failed'' (pr_agent p) (None, [])
                      else logged_failure p opts ''Service setup failed'' (pr_service_new p)
                        (logged_failure p opts ''Service run failed'' (pr_service_run p) (None, [])))
                in (e, limit @ out))))"

section \<open>kickd check\<close>

text \<open>\<open>EqualFold\<close> with PATH; the order of the entries is the order in which Go walks the map.\<close>

definition envPath :: "strmap \<Rightarrow> string option" where
  "envPath env = map_option snd (find (\<lambda>(k, v). ToUpper k = ''PATH'') env)"

definition double_quotes :: "string \<Rightarrow> string" where
  "double_quotes s = concat (map (\<lambda>c. if c = CHR 0x27 then [CHR 0x27, CHR 0x27] else [c]) s)"

definition commandText :: "string \<Rightarrow> string list \<Rightarrow> string" where
  "commandText shell args =
     (if shell \<noteq> [] \<or> args = [] then shell
      else ''['' @ Join (map (\<lambda>a. single_quoted (double_quotes a)) args) '', '' @ '']'')"

definition eventsIn :: "config \<Rightarrow> string \<Rightarrow> nat" where
  "eventsIn cfg file = length (filter (\<lambda>e. ec_file e = file) (cf_events cfg))"

definition plural :: "nat \<Rightarrow> string \<Rightarrow> string" where
  "plural n noun = (if n = 1 then ''1 '' @ noun else Itoa (int n) @ '' '' @ noun @ ''s'')"

definition kick_param :: "param \<Rightarrow> string" where
  "kick_param q =
     (if pa_required q then '' '' @ pa_name q @ ''=...''
      else if pa_default q \<noteq> [] then '' ['' @ pa_name q @ ''='' @ pa_default q @ '']''
      else '' ['' @ pa_name q @ ''=...]'')"

definition describeKick :: "event_config \<Rightarrow> string" where
  "describeKick e = ''manual   kickd event '' @ ec_name e @ concat (map kick_param (ec_params e))"

definition describeTrigger :: "process \<Rightarrow> trigger \<Rightarrow> string" where
  "describeTrigger p t =
     (let ty = tr_type t in
      if ty = TriggerAfter then ''after    '' @ tr_event t @ '' ('' @ Join (tr_status t) '', '' @ '')''
      else if ty = TriggerStartup then ''startup  when the agent starts''
      else if ty = TriggerWake then ''wake     when the machine wakes from sleep''
      else if ty = TriggerFile then
        ''file     '' @ tr_path t @ '' (changes='' @ Join (tr_changes t) '','' @ '', debounce='' @
          w_duration_text (pr_world p) (tr_debounce t) @ (if tr_recursive t then '', recursive'' else []) @
          (if tr_include t \<noteq> [] then '', include='' @ Join (tr_include t) '','' else []) @
          (if tr_exclude t \<noteq> [] then '', exclude='' @ Join (tr_exclude t) '','' else []) @ '')''
      else if ty = TriggerCron then
        ''cron     '' @ tr_schedule t @ '' ('' @
          Join ((if tr_timezone t \<noteq> [] then [tr_timezone t] else []) @ [''missed='' @ tr_missed t]) '', '' @ '')''
      else if ty = TriggerWebhook then
        (let auth = (if tr_token t \<noteq> [] then [''token''] else []) @ (if tr_secret t \<noteq> [] then [''secret''] else [])
         in ''webhook  '' @ (if tr_methods t \<noteq> [] then Join (tr_methods t) '','' else ''ANY'') @ '' '' @ tr_path t @
              '' ('' @ Join (if auth = [] then [''no auth''] else auth) ''+'' @ (if tr_wait t then '', wait'' else []) @ '')'')
      else ty)"

definition fromEnv :: "string \<Rightarrow> string" where
  "fromEnv source = (if HasPrefix source ''log.'' then [] else '' (from '' @ source @ '')'')"

definition file_lines :: "config \<Rightarrow> string list" where
  "file_lines cfg =
     map (\<lambda>f. ''events: '' @ f @ '' ('' @ plural (eventsIn cfg f) ''event'' @ '')'')
       (filter (\<lambda>f. eventsIn cfg f > 0 \<or> f \<noteq> cf_path cfg) (cf_path cfg # cf_event_files cfg))
     @ map (\<lambda>f. ''not read: '' @ f @ '' (no events section)'') (cf_skipped cfg)"

definition setting_lines :: "process \<Rightarrow> config \<Rightarrow> string list" where
  "setting_lines p cfg =
     (let l = cf_log cfg in
      [''log: '' @ (if lc_path l = [] then ''standard error'' else lc_path l) @ '' (level='' @ lc_level l @
         fromEnv (lc_level_from l) @ '' format='' @ lc_format l @ fromEnv (lc_format_from l) @ '' max_size_mb='' @
         Itoa (lc_max_size_mb l) @ '' max_backups='' @ Itoa (lc_max_backups l) @ '')'',
       ''database: '' @ dc_path (cf_database cfg) @ '' (retention '' @
         w_duration_text (pr_world p) (dc_retention (cf_database cfg)) @ '')'']
      @ (if WebhookServer cfg then [''webhook: listen='' @ wc_listen (cf_webhook cfg)]
         else if HasWebhook cfg then [''webhook: disabled by webhook.enabled, so webhook triggers do not fire''] else [])
      @ (if cf_env cfg \<noteq> [] then [''env: '' @ Join (sorted_keys (cf_env cfg)) '', '' @ '' (for every event)''] else []))"

definition restart_text :: "process \<Rightarrow> event_config \<Rightarrow> string" where
  "restart_text p e =
     (if ec_restart e = RestartNever then []
      else ''; restart: '' @ ec_restart e @ '', after '' @ w_duration_text (pr_world p) (ec_restart_delay e) @ '' to '' @
        w_duration_text (pr_world p) (ec_restart_max_delay e))"

definition event_lines :: "process \<Rightarrow> config \<Rightarrow> event_config \<Rightarrow> string list" where
  "event_lines p cfg e =
     (let dur = w_duration_text (pr_world p);
          interrupt = (if ec_on_interrupt e = InterruptRerun
            then ''rerun, up to '' @ Itoa (ec_max_attempts e) @ '' attempts'' else ec_on_interrupt e);
          stop = commandText (ec_stop_shell e) (ec_stop_command e)
      in [''- '' @ ec_name e @ '' ['' @ ec_concurrency e @ ''; on interrupt: '' @ interrupt @ restart_text p e @ '']: '' @
            commandText (ec_shell e) (ec_command e),
          ''    file     '' @ w_base (pr_world p) (ec_file e),
          ''    workdir  '' @ ec_workdir e]
         @ (if stop \<noteq> [] then [''    stop     '' @ stop @ '' (stop_timeout '' @ dur (ec_stop_timeout e) @ '')''] else [])
         @ (case envPath (ec_env e) of
              Some path \<Rightarrow> [''    PATH     '' @ path]
            | None \<Rightarrow> (case envPath (cf_env cfg) of
                         Some path \<Rightarrow> [''    PATH     '' @ path @ '' (env of the config file)'']
                       | None \<Rightarrow> []))
         @ map (\<lambda>t. ''    '' @ (if tr_type t = TriggerManual then describeKick e else describeTrigger p t)) (ec_triggers e))"

definition check_lines :: "process \<Rightarrow> config \<Rightarrow> string list" where
  "check_lines p cfg =
     (''OK: '' @ cf_path cfg @ '' ('' @ Itoa (int (length (cf_events cfg))) @ '' events, '' @
        Itoa (int (sum_list (map (\<lambda>e. length (ec_triggers e)) (cf_events cfg)))) @ '' triggers)'')
     # file_lines cfg @ setting_lines p cfg @ concat (map (event_lines p cfg) (cf_events cfg))
     @ map (\<lambda>x. ''warning: event '' @ quote (wn_event x) @ '': '' @ wn_detail x) (Warnings (pr_split_host_port p) cfg)"

definition cmdCheck :: "process \<Rightarrow> string list \<Rightarrow> outcome" where
  "cmdCheck p args = without_args ''check'' args
     (case w_load (pr_world p) of
        Inl e \<Rightarrow> (Some (Failed_with e), [])
      | Inr cfg \<Rightarrow> (None, map println (check_lines p cfg)))"

section \<open>kickd init\<close>

definition ExampleEventsName :: string where "ExampleEventsName = ''event.example.yaml''"

text \<open>\<open>flag.ErrHelp\<close>: the flag that is not defined is \<open>-h\<close> or \<open>-help\<close>.\<close>

definition flag_help :: "string \<Rightarrow> bool" where
  "flag_help e \<longleftrightarrow> e \<in> {''flag provided but not defined: -h'', ''flag provided but not defined: -help''}"

definition docs_line :: string where
  "docs_line = ''Every key is described in https://github.com/etak64n/kickd/blob/main/docs/config-keys.md''"

definition paths_lines :: "process \<Rightarrow> string list" where
  "paths_lines p = (case PathsFor (pr_getenv p) (pr_goos p) (pr_system p) of
     (log, database) \<Rightarrow> [''log:      '' @ log, ''database: '' @ database])"

definition written_lines :: "process \<Rightarrow> bool \<Rightarrow> string \<Rightarrow> string \<Rightarrow> string list" where
  "written_lines p no_examples path events =
     (let cmd = sudo (pr_goos p) (pr_system p) @ ''kickd check'' in
      (''wrote '' @ path) #
      (if no_examples then
         paths_lines p @ [''Add a .yaml file of events next to it, then run: '' @ cmd, docs_line]
       else (''wrote '' @ events) # paths_lines p @
         [''Edit them, then run: '' @ cmd,
          ''kickd reads the events of every .yaml and .yml file next to the config file.'', docs_line]))"

text \<open>The writes, in order: the directory, the config file, and the file of examples unless it is not wanted.\<close>

definition init_write :: "process \<Rightarrow> bool \<Rightarrow> string \<Rightarrow> string \<Rightarrow> outcome" where
  "init_write p no_examples path events =
     (case pr_mkdir p (pr_dir p path) of
        Some e \<Rightarrow> (Some (Failed_with e), [])
      | None \<Rightarrow>
          (case pr_write p path of
             Some e \<Rightarrow> (Some (Failed_with e), [Made_dir (pr_dir p path)])
           | None \<Rightarrow>
               (let out = [Made_dir (pr_dir p path),
                      Wrote path (ExampleConfig (pr_getenv p) (pr_example_config p) (pr_goos p) (pr_system p))] in
                if no_examples then (None, out @ map println (written_lines p no_examples path events))
                else (case pr_write p events of
                        Some e \<Rightarrow> (Some (Failed_with e), out)
                      | None \<Rightarrow> (None,
                          out @ [Wrote events (ExampleEvents (pr_example_unix p) (pr_example_windows p) (pr_goos p))] @
                          map println (written_lines p no_examples path events))))))"

definition cmdInit :: "process \<Rightarrow> string list \<Rightarrow> outcome" where
  "cmdInit p args =
     (case flag_parse (w_check (pr_world p)) initFlags args of
        Inl e \<Rightarrow>
          if flag_help e then
            (case commandHelp ''init'' initFlags of
               Inl m \<Rightarrow> (Some Help_shown, [Printed (Verbatim [])])
             | Inr (txt, rows) \<Rightarrow> (Some Help_shown, [Printed (Verbatim txt), Printed (Table rows)]))
          else (Some (Bad_usage (''kickd init: '' @ e @ ''; kickd help init shows its usage'')), [])
      | Inr (vs, rest) \<Rightarrow> without_args ''init'' rest
          (let path = pr_path p; events = pr_join p (pr_dir p path) ExampleEventsName;
               no_examples = flag_on vs ''no-examples'';
               files = (if no_examples then [path] else [path, events])
           in case find (pr_file_exists p) files of
                Some f \<Rightarrow> (Some (Failed_with (f @ '' already exists'')), [])
              | None \<Rightarrow> init_write p no_examples path events))"

section \<open>kickd service\<close>

definition serviceName :: string where "serviceName = ''kickd''"

definition statusName :: "service_status \<Rightarrow> string" where
  "statusName st = (case st of StatusRunning_service \<Rightarrow> ''running'' | StatusStopped_service \<Rightarrow> ''stopped''
     | StatusUnknown_service \<Rightarrow> ''unknown'')"

definition service_actions :: "string list" where
  "service_actions = [''install'', ''uninstall'', ''start'', ''stop'', ''restart'', ''status'']"

text \<open>An action on the service that \<open>service.New\<close> found.\<close>

definition service_act :: "process \<Rightarrow> string \<Rightarrow> outcome" where
  "service_act p action =
     (case pr_service_new p of
        Some e \<Rightarrow> (Some (Failed_with e), [])
      | None \<Rightarrow>
          if action = ''status'' then
            (case pr_service_status p of
               Inl e \<Rightarrow> (Some (Failed_with e), [])
             | Inr st \<Rightarrow> (None, [println (serviceName @ '': '' @ statusName st)]))
          else (case pr_service_control p action of
                  Some e \<Rightarrow> (Some (Failed_with e), [])
                | None \<Rightarrow> (None, map println ((serviceName @ '': '' @ action @ '' done'') #
                    (if action = ''install''
                     then [''config: '' @ pr_path p, ''start it with: '' @ sudo (pr_goos p) (\<not> perUser p) @ ''kickd service start'']
                     else [])))))"

definition cmdService :: "process \<Rightarrow> string list \<Rightarrow> outcome" where
  "cmdService p args =
     (case args of
        [] \<Rightarrow> (Some (Bad_usage ''kickd service needs an action: install, uninstall, start, stop, restart or status''), [])
      | action # rest \<Rightarrow>
          if isHelp action then noArgs ''service'' args
          else if HasPrefix action ''-'' then
            (Some (Bad_usage ''kickd service needs an action: install, uninstall, start, stop, restart or status''), [])
          else if action \<notin> set service_actions then
            (Some (Bad_usage (''unknown service action '' @ quote action @ ''; kickd help service lists the actions'')), [])
          else without_args (''service '' @ action) rest
            (if pr_goos p = ''windows'' \<and> \<not> pr_system p then
               (Some (Failed_with (''kickd service needs a PowerShell opened as administrator: the Windows service '' @
                  ''runs as SYSTEM, with the config file '' @ systemPath p)), [])
             else if action = ''install'' then
               (case w_load (pr_world p) of
                  Inl e \<Rightarrow> (Some (Failed_with (''config must be valid before installing: '' @ e)), [])
                | Inr cfg \<Rightarrow> service_act p action)
             else service_act p action))"

datatype option_value = Text_option string | Int_option int | Bool_option bool

record service_config =
  sc_name :: string
  sc_display_name :: string
  sc_description :: string
  sc_arguments :: "string list"
  sc_working_directory :: string
  sc_options :: "(string \<times> option_value) list"

definition systemdUnit :: "bool \<Rightarrow> string" where
  "systemdUnit user = Join [
     ''[Unit]'',
     ''Description={{Description}}'',
     ''ConditionFileIsExecutable={{Path | cmdEscape}}'',
     ''{{range Dependencies}}{{.}}'',
     ''{{end}}'',
     ''[Service]'',
     ''StartLimitInterval=5'',
     ''StartLimitBurst=10'',
     ''ExecStart={{Path | cmdEscape}}{{range Arguments}} {{. | cmd}}{{end}}'',
     ''{{if ChRoot}}RootDirectory={{ChRoot | cmd}}'',
     ''{{end}}{{if WorkingDirectory}}WorkingDirectory={{WorkingDirectory | cmdEscape}}'',
     ''{{end}}{{if UserName}}User={{UserName}}'',
     ''{{end}}{{if ReloadSignal}}ExecReload=/bin/kill -{{ReloadSignal}} '' @ quote ''$MAINPID'',
     ''{{end}}{{if PIDFile}}PIDFile={{PIDFile | cmd}}'',
     ''{{end}}{{if OutputFileSupport}}StandardOutput=file:{{LogDirectory}}/{{Name}}.out'',
     ''StandardError=file:{{LogDirectory}}/{{Name}}.err'',
     ''{{end}}{{if LimitNOFILE}}LimitNOFILE={{LimitNOFILE}}'',
     ''{{end}}{{if Restart}}Restart={{Restart}}'',
     ''{{end}}{{if SuccessExitStatus}}SuccessExitStatus={{SuccessExitStatus}}'',
     ''{{end}}RestartSec=5'',
     ''EnvironmentFile=-/etc/sysconfig/{{Name}}'',
     [],
     ''{{range EnvVars}}{{.}}'',
     ''{{end}}[Install]'',
     ''WantedBy='' @ (if user then ''default.target'' else ''multi-user.target''),
     []] [newline]"

definition serviceConfig :: "process \<Rightarrow> string \<Rightarrow> bool \<Rightarrow> service_config" where
  "serviceConfig p cfg_path user =
     \<lparr>sc_name = serviceName, sc_display_name = serviceName @ '' (event-driven command runner)'',
      sc_description = ''Runs configured commands on file changes, cron schedules and webhooks.'',
      sc_arguments = [''run''], sc_working_directory = pr_dir p cfg_path,
      sc_options = [(''Restart'', Text_option ''always''), (''ReloadSignal'', Text_option ''HUP''),
        (''OnFailure'', Text_option ''restart''), (''OnFailureDelayDuration'', Text_option ''5s''),
        (''OnFailureResetPeriod'', Int_option 10), (''KeepAlive'', Bool_option True), (''RunAtLoad'', Bool_option True)]
        @ (if user then [(''UserService'', Bool_option True)] else [])
        @ [(''SystemdScript'', Text_option (systemdUnit user))]\<rparr>"

section \<open>main\<close>

text \<open>How the error of a subcommand ends the process.\<close>

definition main_exit :: "outcome \<Rightarrow> int \<times> effect list" where
  "main_exit x =
     (case x of
        (None, out) \<Rightarrow> (exitOK, out)
      | (Some Help_shown, out) \<Rightarrow> (exitOK, out)
      | (Some Already_logged, out) \<Rightarrow> (exitFailed, out)
      | (Some (Bad_usage m), out) \<Rightarrow> (exitUsage, out @ [Printed (Err (''kickd: '' @ m))])
      | (Some (Failed_with m), out) \<Rightarrow> (exitFailed, out @ [Printed (Err (''kickd: '' @ m))]))"

definition help_effects :: "help_out \<Rightarrow> effect list" where
  "help_effects h =
     (case h of
        Help_usage \<Rightarrow> [Printed (Verbatim usage)]
      | Help_too_many args \<Rightarrow> [Printed (Err (''kickd: kickd help takes one command: '' @ Join args '' ''))]
      | Help_unknown e \<Rightarrow> [Printed (Err (''kickd: '' @ e))]
      | Help_of txt rows \<Rightarrow> [Printed (Verbatim txt), Printed (Table rows)])"

text \<open>
  The arguments are those after the name of the program. \<open>None\<close> stands for \<open>event --wait\<close> that still
  waits after the given turns.
\<close>

definition main :: "process \<Rightarrow> poll list \<Rightarrow> string list \<Rightarrow> db \<Rightarrow> (int \<times> effect list) option \<times> db" where
  "main p polls args d =
     (case args of
        [] \<Rightarrow> (Some (exitUsage, [Printed (Err (TrimRight usage newline))]), d)
      | cmd # rest \<Rightarrow>
          (let done = (\<lambda>x. (Some (main_exit x), d)) in
           if cmd = ''run'' then done (cmdRun p rest)
           else if cmd = ''check'' then done (cmdCheck p rest)
           else if cmd = ''init'' then done (cmdInit p rest)
           else if cmd = ''service'' then done (cmdService p rest)
           else if cmd = ''licenses'' then
             done (without_args ''licenses'' rest (None, [Printed (Verbatim (pr_licenses p))]))
           else if cmd \<in> {''version'', ''-v'', ''--version''} then
             done (without_args ''version'' rest
               (None, [println (''kickd '' @ resolveVersion (pr_version p) (pr_build p))]))
           else if cmd \<in> {''help'', ''-h'', ''--help''} then
             (case help_command rest of (code, h) \<Rightarrow> (Some (code, help_effects h), d))
           else if cmd \<notin> set opsCommands then
             (Some (exitUsage, [Printed (Err (''kickd: unknown command '' @ quote cmd @ ''; kickd help lists the commands''))]), d)
           else (case runOps (pr_world p) polls args d of
                   (x, d') \<Rightarrow> (map_option (\<lambda>(code, ls). (code, map Printed ls)) x, d'))))"

end
