(* ===== verification/KickdProps.thy ===== *)
theory KickdProps
  imports Kickd StoreLaws
begin

text \<open>
  What the program as a whole leaves alone: the queue, for every subcommand but \<open>event\<close> and \<open>cancel\<close>, and
  the files that exist, for \<open>init\<close>.
\<close>

section \<open>Subcommands that only read\<close>

lemma query_tables: "query q d = (x, d') \<Longrightarrow> same_tables d d'"
  by (auto simp: query_def sql_def split: list.splits option.splits)

lemma GetRun_tables: "GetRun i d = (x, d') \<Longrightarrow> same_tables d d'"
  by (auto simp: GetRun_def db_then_def db_ret_def db_fail_def dest!: query_tables
      split: prod.splits sum.splits option.splits)

lemma ListRuns_tables: "ListRuns f d = (x, d') \<Longrightarrow> same_tables d d'"
  unfolding ListRuns_def by (rule query_tables)

lemma with_store_tables:
  "(\<And>cfg. same_tables d (snd (f cfg d))) \<Longrightarrow> same_tables d (snd (with_store w cmd f d))"
  by (auto simp: with_store_def split: sum.splits)

lemma history_tables: "same_tables d (snd (history_command w args d))"
  by (auto simp: history_command_def Let_def dest: ListRuns_tables intro!: with_store_tables
      split: sum.splits prod.splits)

lemma show_tables: "same_tables d (snd (show_command w args d))"
  by (auto simp: show_command_def Let_def dest: GetRun_tables intro!: with_store_tables
      split: sum.splits prod.splits)

lemma status_tables: "same_tables d (snd (status_command w args d))"
proof -
  have "same_tables d d'" if "AgentInfo d = (x, d')" for d d' x
    using that unfolding AgentInfo_def by (rule query_tables)
  moreover have "same_tables d d'" if "Counts d = (x, d')" for d d' x
    using that unfolding Counts_def by (rule query_tables)
  ultimately show ?thesis
    by (auto simp: status_command_def Let_def intro!: with_store_tables split: sum.splits prod.splits)
      (meson ListRuns_tables same_tables_trans)+
qed

lemma runOps_tables:
  assumes "cmd \<noteq> ''event''" and "cmd \<noteq> ''cancel''"
  shows "same_tables d (snd (runOps w polls (cmd # rest) d))"
proof -
  have keep: "same_tables d (snd (case x of (y, d') \<Rightarrow> (Some y, d')))" if "same_tables d (snd x)" for x :: "cli_end \<times> db"
    using that by (cases x) simp
  show ?thesis
    unfolding runOps_def list.case Let_def
    using assms history_tables [of d w rest, THEN keep] show_tables [of d w rest, THEN keep]
      status_tables [of d w rest, THEN keep]
    by simp
qed


section \<open>kickd init\<close>

fun writes_new :: "process \<Rightarrow> effect \<Rightarrow> bool" where
  "writes_new p (Wrote f txt) = (\<not> pr_file_exists p f)"
| "writes_new p x = True"

fun written_text :: "effect \<Rightarrow> (string \<times> string) list" where
  "written_text (Wrote f txt) = [(f, txt)]"
| "written_text x = []"

definition written :: "effect list \<Rightarrow> (string \<times> string) list" where
  "written out = concat (map written_text out)"

lemma println_writes_nothing [simp]:
  "list_all (writes_new p) (map println ls)" "concat (map (written_text \<circ> println) ls) = []"
  by (simp_all add: println_def list_all_iff)

lemma noArgs_writes_nothing: "noArgs cmd args = (e, out) \<Longrightarrow> list_all (writes_new p) out \<and> written out = []"
  by (auto simp: noArgs_def written_def split: list.splits sum.splits if_splits prod.splits)

definition init_files :: "process \<Rightarrow> bool \<Rightarrow> (string \<times> string) list" where
  "init_files p no_examples =
     (pr_path p, ExampleConfig (pr_getenv p) (pr_example_config p) (pr_goos p) (pr_system p)) #
     (if no_examples then []
      else [(pr_join p (pr_dir p (pr_path p)) ExampleEventsName,
             ExampleEvents (pr_example_unix p) (pr_example_windows p) (pr_goos p))])"

lemma init_write_effect:
  assumes "init_write p no_examples path events = (e, out)"
    and "\<not> pr_file_exists p path" and "no_examples \<or> \<not> pr_file_exists p events"
    and "path = pr_path p" and "events = pr_join p (pr_dir p path) ExampleEventsName"
  shows "list_all (writes_new p) out \<and> (\<exists>n. written out = take n (init_files p no_examples)) \<and>
    (e = None \<longrightarrow> written out = init_files p no_examples)"
proof -
  have "\<exists>n. [] = take n xs" "\<exists>n. [x] = take n (x # xs)" "\<exists>n. xs = take n xs" for x :: "'a" and xs
    by (auto intro: exI [of _ 0] exI [of _ 1] exI [of _ "length xs"])
  note takes = this
  show ?thesis
    using assms takes
    by (auto simp: init_write_def written_def init_files_def Let_def split: option.splits if_splits)
qed

text \<open>
  C35: \<open>kickd init\<close> never overwrites a file: what it writes was not there before, it is the example
  config file and, unless \<open>--no-examples\<close> is given, the file of examples next to it, in this order, and all of
  it when \<open>init\<close> succeeds.\<close>
theorem init_never_overwrites:
  "case cmdInit p args of (e, out) \<Rightarrow>
     list_all (writes_new p) out \<and>
     (\<exists>no_examples n. written out = take n (init_files p no_examples) \<and>
        (case e of None \<Rightarrow> written out = init_files p no_examples | Some m \<Rightarrow> True))"
proof -
  obtain e out where eq: "cmdInit p args = (e, out)" by fastforce
  have none: "\<exists>no_examples n. [] = take n (init_files p no_examples)" by (rule exI, rule exI [of _ 0]) simp
  show ?thesis
  proof (cases "flag_parse (w_check (pr_world p)) initFlags args")
    case (Inl m)
    with eq none show ?thesis
      by (auto simp: cmdInit_def written_def split: if_splits sum.splits prod.splits)
  next
    case (Inr x)
    obtain vs rest where x: "x = (vs, rest)" by fastforce
    let ?events = "pr_join p (pr_dir p (pr_path p)) ExampleEventsName" and ?no = "flag_on vs ''no-examples''"
    show ?thesis
    proof (cases "fst (noArgs ''init'' rest)")
      case (Some m)
      with eq Inr x none noArgs_writes_nothing [of "''init''" rest e out p] show ?thesis
        by (auto simp: cmdInit_def without_args_def split: prod.splits option.splits)
    next
      case None
      show ?thesis
      proof (cases "find (pr_file_exists p) (if ?no then [pr_path p] else [pr_path p, ?events])")
        case (Some f)
        with eq Inr x None none show ?thesis
          by (auto simp: cmdInit_def without_args_def written_def Let_def split: prod.splits)
      next
        case found: None
        then have free: "\<not> pr_file_exists p (pr_path p)" "?no \<or> \<not> pr_file_exists p ?events"
          by (auto split: if_splits)
        from eq Inr x None found have "init_write p ?no (pr_path p) ?events = (e, out)"
          by (auto simp: cmdInit_def without_args_def Let_def split: prod.splits option.splits)
        from init_write_effect [OF this free refl refl] obtain n where "list_all (writes_new p) out"
          "written out = take n (init_files p ?no)" "e = None \<longrightarrow> written out = init_files p ?no" by blast
        then show ?thesis unfolding eq prod.case
          by (intro conjI exI [of _ ?no] exI [of _ n]) (simp_all split: option.split)
      qed
    qed
  qed
qed

section \<open>kickd run\<close>

text \<open>A logger to standard error opens always, so \<open>fatal\<close> leaves one FATAL record and \<open>main\<close> prints no more.\<close>

lemma fatal_logs: "fatal p (stderr_options lvl fmt) msg e extra = [fatal_record p (stderr_options lvl fmt) msg extra e]"
  by (simp add: fatal_def boot_logger_def New_logger_def stderr_options_def Let_def)

fun is_fatal :: "effect \<Rightarrow> bool" where
  "is_fatal (Logged opts lvl msg as) = (lvl = LevelFatal)"
| "is_fatal x = False"

lemma run_fails_with_one_fatal:
  assumes "cmdRun p [] = (Some e, out)"
  shows "e = Already_logged \<and> length (filter is_fatal out) = 1 \<and> is_fatal (last out)"
  using assms
  by (auto simp: cmdRun_def without_args_def noArgs_def fatal_logs logged_failure_def fatal_record_def Let_def
      LevelDebug_def LevelFatal_def split: sum.splits option.splits if_splits)

end
