(* ===== verification/MaskProps.thy ===== *)
theory MaskProps
  imports Mask
begin

text \<open>
  What the masking of logged text hides: the values of the usual spellings of a secret, whatever letters and
  digits they are made of.
\<close>

section \<open>Values of letters and digits\<close>

definition secret_value :: "string \<Rightarrow> bool" where
  "secret_value v \<longleftrightarrow> v \<noteq> [] \<and> list_all rx_alnum v"

lemma space_simps:
  "rx_space CHR '' ''" "\<not> rx_space CHR ''=''" "\<not> rx_space CHR '':''" "\<not> rx_space CHR ''-''" "\<not> rx_space CHR ''*''" "\<not> rx_space CHR ''@''" "\<not> rx_space CHR ''u''" "\<not> rx_space CHR ''d''"
  "\<not> rx_space CHR ''c''" "\<not> rx_space CHR ''i''" "\<not> rx_space CHR ''n''" "\<not> rx_space CHR ''r''" "\<not> rx_space CHR ''s''" "\<not> rx_space CHR ''k''"
  "\<not> rx_space CHR ''o''" "\<not> rx_space CHR ''e''" "\<not> rx_space CHR ''a''" "\<not> rx_space CHR ''t''" "\<not> rx_space CHR ''b''" "\<not> rx_space CHR ''B''"
  by (simp_all add: rx_space_def)

text \<open>The characters that the patterns look for and that no letter or digit is.\<close>

lemma alnum_other:
  assumes "rx_alnum c"
  shows "\<not> rx_space c" "c \<noteq> CHR '':''" "c \<noteq> CHR ''=''" "c \<noteq> CHR ''/''" "c \<noteq> CHR ''@''" "c \<noteq> CHR ''-''"
    "c \<noteq> CHR 0x22" "c \<noteq> CHR 0x27" "c \<noteq> CHR ''&''" "c \<noteq> CHR '',''" "c \<noteq> CHR '';''"
  using assms by (auto simp: rx_space_def rx_alnum_def rx_range_def)

lemma rx_many_byte [simp]:
  "rx_many (rx_byte P) (b, []) = [(b, [])]"
  "rx_many (rx_byte P) (b, c # s) = (if P c then rx_many (rx_byte P) (Some c, s) @ [(b, c # s)] else [(b, c # s)])"
  by (simp_all add: rx_many.simps [of _ "(b, [])"] rx_many.simps [of _ "(b, c # s)"] rx_advance_def)

lemma many_all:
  assumes "list_all P v" and "w \<noteq> [] \<Longrightarrow> \<not> P (hd w)"
  shows "\<exists>b' ys. rx_many (rx_byte P) (b, v @ w) = (b', w) # ys"
  using assms(1)
proof (induction v arbitrary: b)
  case Nil
  then show ?case using assms(2) by (cases w) simp_all
next
  case (Cons c v)
  from Cons obtain b' ys where "rx_many (rx_byte P) (Some c, v @ w) = (b', w) # ys" by fastforce
  with Cons.prems show ?case by simp
qed

lemma value_absent:
  assumes "secret_value v"
  shows "list_all (\<lambda>c. \<not> rx_space c) v" "list_all (\<lambda>c. c \<noteq> CHR '':'' \<and> c \<noteq> CHR ''='') v" "list_all (\<lambda>c. c \<noteq> CHR ''/'') v"
    "list_all (\<lambda>c. \<not> rx_space c \<and> c \<noteq> CHR 0x22 \<and> c \<noteq> CHR 0x27 \<and> c \<noteq> CHR ''&'' \<and> c \<noteq> CHR '','' \<and> c \<noteq> CHR '';'') v"
  using assms by (auto simp: secret_value_def list_all_iff dest: alnum_other)

lemma rx_letter_simps [simp]:
  "rx_letter l [] = 0"
  "rx_letter l (c # s) =
     (if c = l \<or> c = to_upper_char l then 1
      else if l = CHR ''s'' \<and> HasPrefix (c # s) [CHR 0xC5, CHR 0xBF] then 2
      else if l = CHR ''k'' \<and> HasPrefix (c # s) [CHR 0xE2, CHR 0x84, CHR 0xAA] then 3 else 0)"
  by (simp_all add: rx_letter_def HasPrefix_def)

lemmas rx_defs = rx_word_def rx_opt_def rx_some_def rx_spaces_def rx_quote_def rx_assigns_def rx_joined_def
  rx_dash_def

lemma needs_simps [simp]:
  "rx_needs q (Rx_item r) \<longleftrightarrow> r = q"
  "rx_needs q (rx_some r) \<longleftrightarrow> r = q"
  by (auto simp: rx_needs_def rx_some_def)

lemma no_spaces:
  assumes "list_all (\<lambda>c. \<not> rx_space c) s"
  shows "rx_replace bearer_pattern (b, s) = s" "rx_replace option_pattern (b, s) = s"
  using assms by (auto intro!: rx_replace_missing [of "rx_byte rx_space"]
      simp: bearer_pattern_def option_pattern_def rx_absent_byte)

lemma no_assignments:
  assumes "list_all (\<lambda>c. c \<noteq> CHR '':'' \<and> c \<noteq> CHR ''='') s"
  shows "rx_replace authorization_pattern (b, s) = s" "rx_replace assignment_pattern (b, s) = s"
  using assms by (auto intro!: rx_replace_missing [of "rx_byte (\<lambda>c. c = CHR '':'' \<or> c = CHR ''='')"]
      simp: authorization_pattern_def assignment_pattern_def rx_absent_byte rx_assigns_def)

lemma no_slashes:
  assumes "list_all (\<lambda>c. c \<noteq> CHR ''/'') s"
  shows "rx_replace url_pattern (b, s) = s"
  using assms by (auto intro!: rx_replace_missing [of "rx_byte (\<lambda>c. c = CHR ''/'')"]
      simp: url_pattern_def rx_absent_byte)

lemma upper_letters [simp]:
  "to_upper_char CHR ''a'' = CHR ''A''" "to_upper_char CHR ''b'' = CHR ''B''" "to_upper_char CHR ''c'' = CHR ''C''"
  "to_upper_char CHR ''d'' = CHR ''D''" "to_upper_char CHR ''e'' = CHR ''E''" "to_upper_char CHR ''f'' = CHR ''F''"
  "to_upper_char CHR ''g'' = CHR ''G''" "to_upper_char CHR ''h'' = CHR ''H''" "to_upper_char CHR ''i'' = CHR ''I''"
  "to_upper_char CHR ''j'' = CHR ''J''" "to_upper_char CHR ''k'' = CHR ''K''" "to_upper_char CHR ''l'' = CHR ''L''"
  "to_upper_char CHR ''m'' = CHR ''M''" "to_upper_char CHR ''n'' = CHR ''N''" "to_upper_char CHR ''o'' = CHR ''O''"
  "to_upper_char CHR ''p'' = CHR ''P''" "to_upper_char CHR ''q'' = CHR ''Q''" "to_upper_char CHR ''r'' = CHR ''R''"
  "to_upper_char CHR ''s'' = CHR ''S''" "to_upper_char CHR ''t'' = CHR ''T''" "to_upper_char CHR ''u'' = CHR ''U''"
  "to_upper_char CHR ''v'' = CHR ''V''" "to_upper_char CHR ''w'' = CHR ''W''" "to_upper_char CHR ''x'' = CHR ''X''"
  "to_upper_char CHR ''y'' = CHR ''Y''" "to_upper_char CHR ''z'' = CHR ''Z''"
  by code_simp+

text \<open>A pattern whose first items do not fit finds no match at a position.\<close>

lemma seq_none: "rx_matches (rx_seq (pt_kept p)) x = [] \<Longrightarrow> rx_match_at p x = None"
  by (simp add: rx_match_at_def)

text \<open>The matches of a sequence, item by item.\<close>

lemma concat_map_concat: "concat (map f (concat (map g xs))) = concat (map (\<lambda>x. concat (map f (g x))) xs)"
  by (induction xs) simp_all

lemma rx_cat_simps [simp]:
  "rx_matches (Rx_cat (Rx_cat p q) r) x = rx_matches (Rx_cat p (Rx_cat q r)) x"
  "rx_matches (Rx_cat Rx_empty r) x = rx_matches r x"
  "rx_matches (Rx_cat Rx_boundary r) x = (if rx_at_boundary x then rx_matches r x else [])"
  "rx_matches (Rx_cat (Rx_or p q) r) x = rx_matches (Rx_cat p r) x @ rx_matches (Rx_cat q r) x"
  by (auto simp: concat_map_concat intro!: arg_cong [where f = concat] map_cong)

lemma rx_cat_byte [simp]:
  "rx_matches (Rx_cat (Rx_item (rx_byte P)) r) (b, []) = []"
  "rx_matches (Rx_cat (Rx_item (rx_byte P)) r) (b, c # s) = (if P c then rx_matches r (Some c, s) else [])"
  "rx_matches (Rx_cat (Rx_many (rx_byte P)) r) (b, []) = rx_matches r (b, [])"
  "rx_matches (Rx_cat (Rx_many (rx_byte P)) r) (b, c # s) =
     (if P c then rx_matches (Rx_cat (Rx_many (rx_byte P)) r) (Some c, s) @ rx_matches r (b, c # s)
      else rx_matches r (b, c # s))"
  by (simp_all add: rx_advance_def)

lemma rx_cat_letter [simp]:
  "rx_matches (Rx_cat (Rx_item (rx_letter l)) r) (b, []) = []"
  "c = l \<or> c = to_upper_char l \<Longrightarrow>
     rx_matches (Rx_cat (Rx_item (rx_letter l)) r) (b, c # s) = rx_matches r (Some c, s)"
  "\<not> (c = l \<or> c = to_upper_char l \<or> c = CHR 0xC5 \<or> c = CHR 0xE2) \<Longrightarrow>
     rx_matches (Rx_cat (Rx_item (rx_letter l)) r) (b, c # s) = []"
  "\<not> (c = l \<or> c = to_upper_char l) \<Longrightarrow> l \<noteq> CHR ''s'' \<Longrightarrow> l \<noteq> CHR ''k'' \<Longrightarrow>
     rx_matches (Rx_cat (Rx_item (rx_letter l)) r) (b, c # s) = []"
  by (auto simp: rx_advance_def HasPrefix_def)

declare rx_matches.simps(5) [simp del]

section \<open>What is masked\<close>

lemma authorization_none:
  "c \<noteq> CHR ''a'' \<Longrightarrow> c \<noteq> CHR ''A'' \<Longrightarrow> rx_match_at authorization_pattern (b, c # s) = None"
  "d \<noteq> CHR ''u'' \<Longrightarrow> d \<noteq> CHR ''U'' \<Longrightarrow> rx_match_at authorization_pattern (b, c # d # s) = None"
   apply (rule seq_none, simp add: authorization_pattern_def rx_word_def)
  apply (rule seq_none, cases "c = CHR ''a'' \<or> c = CHR ''A''", simp_all add: authorization_pattern_def rx_word_def)
  done

lemma bearer_none: "c \<noteq> CHR ''b'' \<Longrightarrow> c \<noteq> CHR ''B'' \<Longrightarrow> rx_match_at bearer_pattern (b, c # s) = None"
  by (rule seq_none) (simp add: bearer_pattern_def rx_word_def rx_matches.simps(5))

lemma secret_masked:
  assumes "rx_matches (rx_seq (pt_kept p)) (b, pre @ s) = (b', s) # ks"
    and "rx_matches (pt_secret p) (b', s) = (b'', w) # es" and "length w < length s"
  shows "rx_replace p (b, pre @ s) = pre @ Masked @ pt_after p @ rx_replace p (b'', w)"
proof -
  have "rx_match_at p (b, pre @ s) = Some ((b', s), (b'', w))"
    using assms(1,2) by (simp add: rx_match_at_def)
  moreover obtain c t where "pre @ s = c # t" using assms(3) by (cases "pre @ s") auto
  moreover have "take (length (pre @ s) - length s) (pre @ s) = pre" "length w < length (pre @ s)" using assms(3) by simp_all
  ultimately show ?thesis
    by (subst rx_replace.simps) (simp only: snd_conv list.case option.case prod.case if_True)
qed

lemma value_masked:
  assumes "rx_matches (rx_seq (pt_kept p)) (b, pre @ v) = (b', v) # ks" and "v \<noteq> []"
    and "\<And>b'. \<exists>b'' es. rx_matches (pt_secret p) (b', v) = (b'', []) # es" and "pt_after p = []"
  shows "rx_replace p (b, pre @ v) = pre @ Masked"
  using assms(3) [of b'] secret_masked [OF assms(1)] assms(2,4) by fastforce

lemma secret_ends:
  assumes "secret_value v"
  shows "\<exists>b' es. rx_matches (pt_secret assignment_pattern) (b, v) = (b', []) # es"
    "\<exists>b' es. rx_matches (pt_secret option_pattern) (b, v) = (b', []) # es"
    "\<exists>b' es. rx_matches (pt_secret authorization_pattern) (b, v) = (b', []) # es"
proof -
  obtain c w where v: "v = c # w" "rx_alnum c" "list_all rx_alnum w" using assms by (cases v) (auto simp: secret_value_def)
  have all: "list_all (\<lambda>c. \<not> rx_space c \<and> c \<noteq> CHR 0x22 \<and> c \<noteq> CHR 0x27 \<and> c \<noteq> CHR ''&'' \<and> c \<noteq> CHR '','' \<and> c \<noteq> CHR '';'') w"
    "list_all (\<lambda>c. \<not> rx_space c \<and> c \<noteq> CHR 0x22 \<and> c \<noteq> CHR 0x27 \<and> c \<noteq> CHR '','' \<and> c \<noteq> CHR '';'') w"
    "list_all (\<lambda>c. \<not> rx_space c) w"
    using v(3) by (auto simp: list_all_iff dest: alnum_other)
  show "\<exists>b' es. rx_matches (pt_secret assignment_pattern) (b, v) = (b', []) # es"
    "\<exists>b' es. rx_matches (pt_secret option_pattern) (b, v) = (b', []) # es"
    "\<exists>b' es. rx_matches (pt_secret authorization_pattern) (b, v) = (b', []) # es"
    using v(2) many_all [OF all(1), of "[]" "Some c"] many_all [OF all(2), of "[]" "Some c"]
      many_all [OF all(3), of "[]" "Some c"]
    by (simp_all add: v(1) assignment_pattern_def option_pattern_def authorization_pattern_def rx_some_def alnum_other)
qed

text \<open>The keys of an assignment, by where the pattern finds them.\<close>

definition assigned_keys :: "string list" where
  "assigned_keys = [''password'', ''Password'', ''PASSWORD'', ''passwd'', ''pwd'', ''token'', ''TOKEN'', ''secret'', ''SECRET'',
     ''api_key'', ''api-key'', ''apikey'', ''API_KEY'', ''access_key'', ''accessKey'', ''ACCESS_KEY'', ''client_secret'', ''clientSecret'']"

lemma assignment_kept:
  assumes "secret_value v"
  shows "list_all (\<lambda>key. list_all (\<lambda>sep. \<exists>b' ks. rx_matches (rx_seq (pt_kept assignment_pattern)) (b, key @ sep @ v) = (b', v) # ks)
    [''='', '':'', '': '', '' = '']) assigned_keys"
proof -
  obtain c w where v: "v = c # w" "rx_alnum c" using assms by (cases v) (auto simp: secret_value_def)
  show ?thesis
    using v(2) by (simp add: v(1) assigned_keys_def assignment_pattern_def rx_defs alnum_other space_simps)
qed

lemma option_none:
  "c \<noteq> CHR ''-'' \<Longrightarrow> rx_match_at option_pattern (b, c # s) = None"
  "rx_match_at option_pattern (b, CHR ''-'' # CHR ''k'' # s) = None"
  by (rule seq_none, simp add: option_pattern_def rx_defs)+

lemma assigned_masked:
  assumes v: "secret_value v"
  shows "list_all (\<lambda>key. list_all (\<lambda>sep. Mask (key @ sep @ v) = key @ sep @ Masked) [''='', '':'', '': '', '' = '']) assigned_keys"
proof -
  have auth: "list_all (\<lambda>key. list_all (\<lambda>sep. rx_replace authorization_pattern (None, key @ sep @ v) = key @ sep @ v)
      [''='', '':'', '': '', '' = '']) assigned_keys"
    by (simp add: assigned_keys_def rx_replace_skip authorization_none no_assignments value_absent [OF v])
  have bearer: "list_all (\<lambda>key. list_all (\<lambda>sep. rx_replace bearer_pattern (None, key @ sep @ v) = key @ sep @ v)
      [''='', '':'', '': '', '' = '']) assigned_keys"
    by (simp add: assigned_keys_def rx_replace_skip bearer_none no_spaces value_absent [OF v])
  have hit: "rx_replace assignment_pattern (None, (key @ sep) @ v) = (key @ sep) @ Masked"
    if "key \<in> set assigned_keys" "sep \<in> set [''='', '':'', '': '', '' = '']" for key sep
  proof -
    from assignment_kept [OF v, of None] that obtain b' ks where
      "rx_matches (rx_seq (pt_kept assignment_pattern)) (None, (key @ sep) @ v) = (b', v) # ks"
      unfolding list_all_iff append_assoc by blast
    then show ?thesis
      by (rule value_masked) (use v secret_ends(1) [OF v] in \<open>auto simp: secret_value_def assignment_pattern_def\<close>)
  qed
  have rest: "list_all (\<lambda>key. list_all (\<lambda>sep. rx_replace option_pattern (None, key @ sep @ Masked) = key @ sep @ Masked \<and>
      rx_replace url_pattern (None, key @ sep @ Masked) = key @ sep @ Masked) [''='', '':'', '': '', '' = '']) assigned_keys"
    by (simp add: assigned_keys_def Masked_def rx_replace_skip option_none no_slashes)
  have "Mask (key @ sep @ v) = key @ sep @ Masked"
    if k: "key \<in> set assigned_keys" and sep: "sep \<in> set [''='', '':'', '': '', '' = '']" for key sep
    using bspec [OF bspec [OF auth [unfolded list_all_iff] k] sep] bspec [OF bspec [OF bearer [unfolded list_all_iff] k] sep]
      hit [OF k sep] bspec [OF bspec [OF rest [unfolded list_all_iff] k] sep]
    by (simp only: Mask_def secretPatterns_def fold_simps append_assoc)
  then show ?thesis unfolding list_all_iff by blast
qed

definition secret_options :: "string list" where
  "secret_options = [''--password '', ''--passwd '', ''--token '', ''--secret '', ''--api-key '', ''--apikey '', ''-token '']"

lemma options_masked:
  assumes v: "secret_value v" and opt: "opt \<in> set secret_options"
  shows "Mask (opt @ v) = opt @ Masked"
proof -
  obtain c w where c: "v = c # w" "rx_alnum c" using v by (cases v) (auto simp: secret_value_def)
  have kept: "list_all (\<lambda>opt. \<exists>b' ks. rx_matches (rx_seq (pt_kept option_pattern)) (None, opt @ v) = (b', v) # ks) secret_options"
    using c(2) by (simp add: c(1) secret_options_def option_pattern_def rx_defs alnum_other space_simps)
  have same: "list_all (\<lambda>opt. rx_replace authorization_pattern (None, opt @ v) = opt @ v \<and>
      rx_replace bearer_pattern (None, opt @ v) = opt @ v \<and> rx_replace assignment_pattern (None, opt @ v) = opt @ v) secret_options"
    by (simp add: secret_options_def no_assignments value_absent [OF v] rx_replace_skip bearer_none no_spaces)
  have url: "list_all (\<lambda>opt. rx_replace url_pattern (None, opt @ Masked) = opt @ Masked) secret_options"
    by (simp add: secret_options_def Masked_def no_slashes)
  obtain b' ks where "rx_matches (rx_seq (pt_kept option_pattern)) (None, opt @ v) = (b', v) # ks"
    using kept opt unfolding list_all_iff by blast
  then have hit: "rx_replace option_pattern (None, opt @ v) = opt @ Masked"
    by (rule value_masked) (use v secret_ends(2) [OF v] in \<open>auto simp: secret_value_def option_pattern_def\<close>)
  show ?thesis
    using bspec [OF same [unfolded list_all_iff] opt] hit bspec [OF url [unfolded list_all_iff] opt]
    by (simp only: Mask_def secretPatterns_def fold_simps)
qed

lemma star_token: "rx_matches (Rx_cat (Rx_item rx_token) r) (b, CHR ''*'' # s) = []"
  by (simp add: rx_matches.simps(5) rx_token_def rx_alnum_def rx_range_def rx_letter_def HasPrefix_def)

lemma bearer_masked:
  "d \<noteq> CHR ''e'' \<Longrightarrow> d \<noteq> CHR ''E'' \<Longrightarrow> rx_match_at bearer_pattern (b, c # d # s) = None"
  "c = CHR ''b'' \<or> c = CHR ''B'' \<Longrightarrow>
     rx_match_at bearer_pattern (b, c # CHR ''e'' # CHR ''a'' # CHR ''r'' # CHR ''e'' # CHR ''r'' # CHR '' '' # CHR ''*'' # s) = None"
proof -
  show "rx_match_at bearer_pattern (b, c # d # s) = None" if "d \<noteq> CHR ''e''" "d \<noteq> CHR ''E''"
    using that by (intro seq_none, cases "c = CHR ''b'' \<or> c = CHR ''B''")
      (simp_all add: bearer_pattern_def rx_word_def)
  show "rx_match_at bearer_pattern (b, c # CHR ''e'' # CHR ''a'' # CHR ''r'' # CHR ''e'' # CHR ''r'' # CHR '' '' # CHR ''*'' # s) = None"
    if "c = CHR ''b'' \<or> c = CHR ''B''"
    using that by (simp add: rx_match_at_def bearer_pattern_def rx_defs space_simps star_token)
qed

definition auth_headers :: "string list" where
  "auth_headers = [''Authorization: Bearer '', ''Authorization: Basic '', ''authorization: token '', ''Authorization=bearer '']"

lemma headers_masked:
  assumes v: "secret_value v" and header: "header \<in> set auth_headers"
  shows "Mask (header @ v) = header @ Masked"
proof -
  obtain c w where c: "v = c # w" "rx_alnum c" using v by (cases v) (auto simp: secret_value_def)
  have kept: "list_all (\<lambda>header. \<exists>b' ks. rx_matches (rx_seq (pt_kept authorization_pattern)) (None, header @ v) = (b', v) # ks) auth_headers"
    using c(2) by (simp add: c(1) auth_headers_def authorization_pattern_def rx_defs alnum_other space_simps)
  obtain b' ks where "rx_matches (rx_seq (pt_kept authorization_pattern)) (None, header @ v) = (b', v) # ks"
    using kept header unfolding list_all_iff by blast
  then have hit: "rx_replace authorization_pattern (None, header @ v) = header @ Masked"
    by (rule value_masked) (use v secret_ends(3) [OF v] in \<open>auto simp: secret_value_def authorization_pattern_def\<close>)
  have bearer: "list_all (\<lambda>header. rx_replace bearer_pattern (None, header @ Masked) = header @ Masked) auth_headers"
    by (simp add: auth_headers_def Masked_def rx_replace_skip seq_none bearer_none bearer_masked)
  have assign: "list_all (\<lambda>header. rx_replace assignment_pattern (None, header @ Masked) = header @ Masked) auth_headers"
    by (simp add: auth_headers_def Masked_def rx_replace_skip [OF seq_none] assignment_pattern_def rx_defs space_simps)
  have rest: "list_all (\<lambda>header. rx_replace option_pattern (None, header @ Masked) = header @ Masked \<and>
      rx_replace url_pattern (None, header @ Masked) = header @ Masked) auth_headers"
    by (simp add: auth_headers_def Masked_def rx_replace_skip option_none no_slashes)
  show ?thesis
    using hit bspec [OF bearer [unfolded list_all_iff] header] bspec [OF assign [unfolded list_all_iff] header]
      bspec [OF rest [unfolded list_all_iff] header]
    by (simp only: Mask_def secretPatterns_def fold_simps)
qed

lemmas assignment_items = arg_cong [OF assignment_pattern_def, of pt_kept, simplified]

lemmas url_items = arg_cong [OF url_pattern_def, of pt_kept, simplified]

text \<open>An address with a user, a password and a host.\<close>

definition url_prefixes :: "string list" where
  "url_prefixes = [''https://user:'', ''postgres://kickd:'', ''mysql://root:'']"

definition host_text :: "string \<Rightarrow> bool" where
  "host_text h \<longleftrightarrow> list_all (\<lambda>c. \<not> rx_space c \<and> c \<noteq> CHR '':'' \<and> c \<noteq> CHR ''='' \<and> c \<noteq> CHR ''/'') h"

lemma urls_masked:
  assumes v: "secret_value v" and h: "host_text h" and pre: "pre \<in> set url_prefixes"
  shows "Mask (pre @ v @ ''@'' @ h) = pre @ Masked @ ''@'' @ h"
proof -
  obtain c w where c: "v = c # w" "rx_alnum c" "list_all rx_alnum w" using v by (cases v) (auto simp: secret_value_def)
  have host: "list_all (\<lambda>c. c \<noteq> CHR '':'' \<and> c \<noteq> CHR ''='') h" "list_all (\<lambda>c. \<not> rx_space c) h" "list_all (\<lambda>c. c \<noteq> CHR ''/'') h"
    using h by (simp_all add: host_text_def list_all_iff)
  have line: "list_all (\<lambda>c. c \<noteq> CHR '':'' \<and> c \<noteq> CHR ''='') (v @ ''@'' @ h)" "list_all (\<lambda>c. \<not> rx_space c) (v @ ''@'' @ h)"
    "list_all (\<lambda>c. c \<noteq> CHR ''/'') h"
    using value_absent [OF v] host by (simp_all add: space_simps)
  have w: "list_all (\<lambda>c. \<not> rx_space c \<and> c \<noteq> CHR ''/'' \<and> c \<noteq> CHR ''@'') w"
    using c(3) by (auto simp: list_all_iff alnum_other)
  have auth: "list_all (\<lambda>pre. rx_replace authorization_pattern (None, pre @ v @ ''@'' @ h) = pre @ v @ ''@'' @ h) url_prefixes"
    using line(1) by (simp add: url_prefixes_def rx_replace_skip authorization_none no_assignments)
  have assign: "list_all (\<lambda>pre. rx_replace assignment_pattern (None, pre @ v @ ''@'' @ h) = pre @ v @ ''@'' @ h) url_prefixes"
    using line(1) by (simp add: url_prefixes_def rx_replace_skip [OF seq_none] assignment_items rx_defs no_assignments)
  have pres: "list_all (\<lambda>pre. list_all (\<lambda>c. \<not> rx_space c) pre) url_prefixes"
    by (simp add: url_prefixes_def rx_space_def)
  have spaces: "list_all (\<lambda>c. \<not> rx_space c) (pre @ x)" if "list_all (\<lambda>c. \<not> rx_space c) x" for x
    using that pres pre by (auto simp: list_all_iff)
  obtain b' ys where "rx_many (rx_byte (\<lambda>c. \<not> rx_space c \<and> c \<noteq> CHR ''/'' \<and> c \<noteq> CHR ''@'')) (Some c, w @ ''@'' @ h) = (b', ''@'' @ h) # ys"
    using many_all [OF w, of "''@'' @ h" "Some c"] by auto
  then obtain es where secret: "rx_matches (pt_secret url_pattern) (Some CHR '':'', v @ ''@'' @ h) = (Some CHR ''@'', h) # es"
    using c(2) by (simp add: c(1) url_pattern_def rx_some_def alnum_other rx_matches.simps(5) rx_advance_def
        del: rx_cat_simps rx_cat_byte)
  have at: "rx_replace url_pattern (b, user @ v @ ''@'' @ h) = user @ Masked @ ''@'' @ h"
    if "user \<in> {''://user:'', ''://kickd:'', ''://root:''}" for user b
  proof -
    have "rx_matches (rx_seq (pt_kept url_pattern)) (b, user @ v @ ''@'' @ h) = [(Some CHR '':'', v @ ''@'' @ h)]"
      using that by (auto simp: url_items rx_defs space_simps)
    from secret_masked [OF this secret] show ?thesis
      using no_slashes [OF line(3)] by (simp add: url_pattern_def)
  qed
  have url: "list_all (\<lambda>pre. rx_replace url_pattern (None, pre @ v @ ''@'' @ h) = pre @ Masked @ ''@'' @ h) url_prefixes"
    using at [of "''://user:''"] at [of "''://kickd:''"] at [of "''://root:''"]
    by (simp add: url_prefixes_def rx_replace_skip [OF seq_none] url_items)
  show ?thesis
    using bspec [OF auth [unfolded list_all_iff] pre] bspec [OF assign [unfolded list_all_iff] pre]
      bspec [OF url [unfolded list_all_iff] pre] no_spaces [OF spaces [OF line(2)], of None]
    by (simp only: Mask_def secretPatterns_def fold_simps)
qed



end
