(* ===== verification/DispatcherLive.thy ===== *)
theory DispatcherLive
  imports DispatcherSpecs DispatcherConc
begin

text \<open>
  Liveness of the dispatcher's loop: a pass of \<open>step\<close> with a working database leaves no queued run
  behind. The relations \<open>steady\<close> (what every part of a pass keeps) and \<open>ahead\<close> (what every part of
  the scan keeps) are proved once per operation and composed along the scan.
\<close>

section \<open>A working database\<close>

text \<open>With no fault pending a statement takes effect, and no fault appears.\<close>

lemma sql_calm: "faults d = [] \<Longrightarrow> sql f d = (Inr (fst (f d)), snd (f d))"
  by (simp add: sql_def split: prod.split)

lemma query_calm: "faults d = [] \<Longrightarrow> query q d = (Inr (q d), d)"
  by (simp add: query_def sql_calm)

lemma exec_update_calm:
  "faults d = [] \<Longrightarrow> exec_update P f d = (Inr (), d\<lparr>tbl_runs := update_where P f (tbl_runs d)\<rparr>)"
  by (simp add: exec_update_def db_then_def sql_calm update_rows_def db_ret_def)

lemma change_calm:
  "faults d = [] \<Longrightarrow> change P f d =
     (Inr (length (filter P (tbl_runs d)) = 1), d\<lparr>tbl_runs := update_where P f (tbl_runs d)\<rparr>)"
  by (simp add: change_def db_then_def sql_calm update_rows_def db_ret_def)

lemmas calm_evals = query_calm exec_update_calm change_calm

definition calm :: "'a dbm \<Rightarrow> bool" where
  "calm m \<longleftrightarrow> (\<forall>d. faults d = [] \<longrightarrow> faults (snd (m d)) = [])"

lemma calm_ret: "calm (db_ret a)"
  by (simp add: calm_def db_ret_def)

lemma calm_sql: "(\<And>d. faults (snd (f d)) = faults d) \<Longrightarrow> calm (sql f)"
  by (simp add: calm_def sql_calm)

lemma calm_query: "calm (query q)"
  by (simp add: calm_def query_calm)

lemma calm_updates: "calm (exec_update P f)" "calm (change P f)"
  by (simp_all add: calm_def calm_evals)

lemma calm_then: "calm m \<Longrightarrow> (\<And>a. calm (k a)) \<Longrightarrow> calm (db_then m k)"
  unfolding calm_def db_then_def by (fastforce split: prod.split sum.split)

lemma calm_tx: "calm m \<Longrightarrow> calm (in_tx m)"
  unfolding calm_def in_tx_def
  by (auto simp: db_then_def sql_calm nothing_def end_tx_def split: prod.split sum.split)

lemmas calm_intros = calm_ret calm_sql calm_query calm_updates calm_then calm_tx

lemma calm_insertRun: "calm (insertRun now r m)"
  unfolding insertRun_def Let_def by (auto intro!: calm_intros simp: insert_row_def Let_def)

lemma calm_insert_runs: "calm (insert_runs now rs)"
  by (induction now rs rule: insert_runs.induct) (auto intro!: calm_intros calm_insertRun)

lemma calm_ops:
  "calm (Enqueue now r m)" "calm (Follow now i rs)" "calm (StartRun i now)" "calm (FinishRun now i f)"
  "calm (Settle now i st reason detail)" "calm (AddSkipped i)" "calm CancelRequests"
  "calm (UnfollowedRuns n)" "calm (QueuedRuns now n es)" "calm (NextNotBefore now)"
  unfolding Enqueue_def Follow_def StartRun_def FinishRun_def Settle_def AddSkipped_def
    CancelRequests_def UnfollowedRuns_def QueuedRuns_def NextNotBefore_def
  by (auto intro!: calm_intros calm_insertRun calm_insert_runs)

section \<open>What every part of a pass keeps\<close>

definition steady :: "disp \<Rightarrow> disp \<Rightarrow> bool" where
  "steady s t \<longleftrightarrow> d_specs t = d_specs s \<and> d_stopping t = d_stopping s
     \<and> (faults (d_db s) = [] \<longrightarrow> faults (d_db t) = []) \<and> (db_wf (d_db s) \<longrightarrow> db_wf (d_db t))"

lemma steady_refl [simp, intro]: "steady s s"
  by (simp add: steady_def)

lemma steady_trans: "steady a b \<Longrightarrow> steady b c \<Longrightarrow> steady a c"
  by (simp add: steady_def)

lemma steady_memory [simp]:
  "steady s (t\<lparr>d_errors := x1\<rparr>) = steady s t" "steady s (t\<lparr>d_err_limit_at := x2\<rparr>) = steady s t"
  "steady s (t\<lparr>d_wake := x3\<rparr>) = steady s t" "steady s (t\<lparr>d_ctx := x4\<rparr>) = steady s t"
  "steady s (t\<lparr>d_cancel_sent := x5\<rparr>) = steady s t" "steady s (t\<lparr>d_ids := x6\<rparr>) = steady s t"
  "steady s (t\<lparr>d_stats := x7\<rparr>) = steady s t" "steady s (t\<lparr>d_next_due := x8\<rparr>) = steady s t"
  by (simp_all add: steady_def)

lemma steady_helpers [simp]:
  "steady s (queueError now op e t) = steady s t" "steady s (poke t) = steady s t"
  "steady s (count_dropped t) = steady s t" "steady s (cancel_run i c t) = steady s t"
  by (simp_all add: queueError_def poke_def count_dropped_def cancel_run_def Let_def)

lemma steady_on_db: "keeps_wf m \<Longrightarrow> calm m \<Longrightarrow> on_db m s = (r, t) \<Longrightarrow> steady s t"
  unfolding on_db_def steady_def calm_def keeps_def by (auto split: prod.splits)

lemma wf_queries: "keeps_wf CancelRequests" "keeps_wf (UnfollowedRuns n)" "keeps_wf (QueuedRuns now n es)"
    "keeps_wf (NextNotBefore now)"
  unfolding CancelRequests_def UnfollowedRuns_def QueuedRuns_def NextNotBefore_def
  by (rule wf.kept.keeps_query)+

lemma steady_cancel_act: "steady s (cancel_act now i os s)"
proof -
  obtain r t where f: "on_db (FinishRun now i canceled_finish) s = (r, t)" by fastforce
  then have "steady s t" by (rule steady_on_db [rotated 2]) (simp_all add: inv_intros calm_ops)
  with f show ?thesis by (cases os; cases r) (simp_all add: cancel_act_def)
qed

lemma steady_cancel_ids: "steady s (process_cancel_ids now is s)"
proof (induction "now" "is" s rule: process_cancel_ids.induct)
  case (2 now i "is" s)
  obtain os s1 where l: "cancel_lock i s = (os, s1)" by fastforce
  then have "steady s s1" by (auto simp: cancel_lock_def Let_def split: if_splits)
  moreover have "steady s1 (cancel_act now i os s1)" by (rule steady_cancel_act)
  moreover note "2.IH" [OF l [symmetric]]
  ultimately show ?case using l by (auto intro: steady_trans)
qed simp

lemma steady_processCancels: "steady s (processCancels now s)"
proof -
  obtain r t where q: "on_db CancelRequests s = (r, t)" by fastforce
  then have "steady s t" by (rule steady_on_db [rotated 2]) (simp_all add: wf_queries calm_ops)
  moreover have "steady t (process_cancel_ids now ids t)" for ids by (rule steady_cancel_ids)
  ultimately show ?thesis
    using q by (cases r) (auto simp: processCancels_def intro: steady_trans)
qed

lemma steady_follow_runs: "steady s (snd (follow_runs now r fs s))"
proof (induction now r fs s rule: follow_runs.induct)
  case (2 now r f fs s)
  have n: "steady s (snd (NewID s))" by (simp add: NewID_def)
  then show ?case
    using 2 by (auto split: option.split prod.split if_split intro: steady_trans)
qed simp

lemma steady_fold_counts: "steady s t \<Longrightarrow> steady s (fold (\<lambda>x s. if snd x then count_dropped s else s) ids t)"
  by (induction ids arbitrary: t) auto

lemma steady_follow_one: "steady s (snd (follow_one now r s))"
proof -
  obtain rs s1 where 1: "(if en_status r = StatusRetried then ([], s)
      else follow_runs now r (d_follows s (en_event r)) s) = (rs, s1)" by fastforce
  with steady_follow_runs [of s now r "d_follows s (en_event r)"] have q: "steady s s1"
    by (auto split: if_splits)
  obtain x s2 where 2: "on_db (Follow now (en_id r) rs) s1 = (x, s2)" by fastforce
  then have "steady s1 s2" by (rule steady_on_db [rotated 2]) (simp_all add: inv_intros calm_ops)
  with q have "steady s s2" by (rule steady_trans)
  with 1 2 show ?thesis by (auto simp: follow_one_def steady_fold_counts split: sum.split)
qed

lemma steady_follow_all: "steady s (snd (follow_all now rs fired s))"
proof (induction now rs fired s rule: follow_all.induct)
  case (2 now r rs fired s)
  with steady_follow_one [of s now r] show ?case
    by (auto split: prod.split option.split intro: steady_trans)
qed simp

lemma steady_follow: "follow n now s = Some t \<Longrightarrow> steady s t"
proof (induction n now s rule: follow.induct)
  case (2 n now s)
  obtain r s1 where u: "on_db (UnfollowedRuns followBatch) s = (r, s1)" by fastforce
  then have s1: "steady s s1" by (rule steady_on_db [rotated 2]) (simp_all add: wf_queries calm_ops)
  show ?case
  proof (cases r)
    case (Inl e)
    with u s1 "2.prems" show ?thesis by auto
  next
    case (Inr rs)
    obtain f s2 where a: "follow_all now rs False s1 = (f, s2)" by fastforce
    with steady_follow_all [of s1 now rs False] s1 have s2: "steady s s2" by (auto intro: steady_trans)
    then have s3: "steady s (if fired then poke s2 else s2)" for fired by simp
    show ?thesis
    proof (cases f)
      case None
      with u Inr a s2 "2.prems" show ?thesis by simp
    next
      case (Some fired)
      from "2.IH" [OF u [symmetric] Inr a [symmetric] Some refl] "2.prems" u Inr a Some s3 [of fired]
      show ?thesis by (auto simp: Let_def split: if_splits intro: steady_trans [of s "poke s2"] steady_trans)
    qed
  qed
qed simp

section \<open>What every part of the scan keeps\<close>

text \<open>Rows evolve; a pending wake-up stays; and unless one is pending, no row is new and no event stops running.\<close>

interpretation seq: db_relation "\<lambda>d d'. tbl_seq d' = tbl_seq d"
  by unfold_locales auto

definition ahead :: "disp \<Rightarrow> disp \<Rightarrow> bool" where
  "ahead s t \<longleftrightarrow> steady s t \<and> evolves (d_db s) (d_db t) \<and> (d_wake s \<longrightarrow> d_wake t)
     \<and> (d_wake t \<or> (tbl_seq (d_db t) = tbl_seq (d_db s) \<and> (\<forall>e. running_of s e \<le> running_of t e)))"

lemma ahead_refl [simp, intro]: "ahead s s"
  by (simp add: ahead_def evo.R_refl)

lemma ahead_trans: "ahead a b \<Longrightarrow> ahead b c \<Longrightarrow> ahead a c"
  unfolding ahead_def by (auto intro: evolves_trans steady_trans order_trans)

lemma ahead_memory [simp]:
  "ahead s (t\<lparr>d_errors := x1\<rparr>) = ahead s t" "ahead s (t\<lparr>d_err_limit_at := x2\<rparr>) = ahead s t"
  "ahead s (t\<lparr>d_waiters := x3\<rparr>) = ahead s t" "ahead s (t\<lparr>d_delivered := x4\<rparr>) = ahead s t"
  "ahead s (t\<lparr>d_heap := x5\<rparr>) = ahead s t" "ahead s (t\<lparr>d_ctx := x6\<rparr>) = ahead s t"
  "ahead s (t\<lparr>d_stats := x7\<rparr>) = ahead s t" "ahead s (t\<lparr>d_spawned := x8\<rparr>) = ahead s t"
  by (simp_all add: ahead_def steady_def running_of_def)

lemma ahead_helpers [simp]:
  "ahead s (queueError now op e t) = ahead s t" "ahead s (count_skipped t) = ahead s t"
  "ahead s (cancel_run i c t) = ahead s t" "ahead s (take_waiter i res t) = ahead s t"
  by (simp_all add: queueError_def count_skipped_def cancel_run_def take_waiter_def Let_def)

lemma ahead_poke: "ahead s (poke t) \<longleftrightarrow> steady s t \<and> evolves (d_db s) (d_db t)"
  by (simp add: ahead_def) (simp add: poke_def)

text \<open>The statements of the scan change rows only.\<close>

definition row_change :: "'a dbm \<Rightarrow> bool" where
  "row_change m \<longleftrightarrow> good m \<and> calm m \<and> keeps (\<lambda>d d'. tbl_seq d' = tbl_seq d) m"

lemma row_changes:
  "row_change (StartRun i now)" "row_change (AddSkipped i)"
  "st \<noteq> StatusQueued \<Longrightarrow> row_change (Settle now i st reason detail)"
  by (simp_all add: row_change_def calm_ops)
    (simp_all add: StartRun_def AddSkipped_def Settle_def seq.keeps_update)

lemma ahead_on_db: "row_change m \<Longrightarrow> on_db m s = (r, t) \<Longrightarrow> ahead s t"
  using steady_on_db [of m s r t] quietly_on_db [of m s r t]
  by (auto simp: row_change_def good_def ahead_def quietly_def on_db_def keeps_def running_of_def split: prod.splits)
    (metis snd_conv)+

lemma ahead_settle:
  assumes "st \<noteq> StatusQueued" shows "ahead s (snd (settle now r st reason detail s))"
proof -
  obtain x t where x: "on_db (Settle now (run_id r) st reason detail) s = (x, t)" by fastforce
  then have "ahead s t" by (rule ahead_on_db [OF row_changes(3) [OF assms]])
  with x show ?thesis by (cases x) (simp_all add: settle_def)
qed

lemma ahead_skip_run: "ahead (snd (settle now r StatusSkipped ''already_running''
    (case a of None \<Rightarrow> [] | Some i \<Rightarrow> run_detail_text i) s)) (skip_run now r a s)"
proof -
  obtain ok s1 where s1: "settle now r StatusSkipped ''already_running''
      (case a of None \<Rightarrow> [] | Some i \<Rightarrow> run_detail_text i) s = (ok, s1)" by fastforce
  show ?thesis
  proof (cases a)
    case None
    with s1 show ?thesis by (simp add: skip_run_def)
  next
    case (Some i)
    let ?s3 = "(count_skipped s1)\<lparr>d_heap := (d_heap (count_skipped s1))(i := map_option
      (\<lambda>x. x\<lparr>ar_skipped := ar_skipped x + 1\<rparr>) (d_heap (count_skipped s1) i))\<rparr>"
    obtain x s4 where x: "on_db (AddSkipped i) ?s3 = (x, s4)" by fastforce
    have "ahead s1 ?s3" by simp
    moreover from x have "ahead ?s3 s4" by (rule ahead_on_db [OF row_changes(2)])
    ultimately have "ahead s1 s4" by (rule ahead_trans)
    with s1 x Some show ?thesis by (cases x) (simp_all add: skip_run_def Let_def)
  qed
qed

lemma steady_restart: "steady s (restart now r st elapsed s)"
proof -
  obtain x s1 where x: "restart_decide r st elapsed s = (x, s1)" by fastforce
  then have s1: "steady s s1"
    by (auto simp: restart_decide_def Let_def steady_def split: if_splits option.splits)
  have "steady s1 (restart_enqueue now r sp delay s1)" for sp delay
  proof -
    let ?n = "snd (NewID s1)"
    have "steady s1 (case on_db (Enqueue now q m) ?n of
        (Inl e, s') \<Rightarrow> queueError now ''enqueue'' e s' | (Inr (i, dropped), s') \<Rightarrow> if dropped then count_dropped s' else s')"
      for q m
    proof -
      obtain y t where y: "on_db (Enqueue now q m) ?n = (y, t)" by fastforce
      then have "steady ?n t" by (rule steady_on_db [rotated 2]) (simp_all add: inv_intros calm_ops)
      then have "steady s1 t" by (simp add: NewID_def steady_def)
      with y show ?thesis by (auto split: sum.split prod.split)
    qed
    then show ?thesis by (simp add: restart_enqueue_def NewID_def Let_def split: option.split)
  qed
  with s1 x show ?thesis by (auto simp: restart_def split: option.split intro: steady_trans)
qed

lemma ahead_finish_run: "ahead s (finish_run now r sp res s)"
proof -
  let ?a = "finish_record now r sp res s"
  let ?b = "finish_memory r res ?a"
  obtain x t where x: "on_db (FinishRun now (run_id r) (finish_of sp res)) s = (x, t)" by fastforce
  then have "steady s t" by (rule steady_on_db [rotated 2]) (simp_all add: inv_intros calm_ops)
  with x have a: "steady s ?a" by (cases x) (simp_all add: finish_record_def)
  have ab: "d_db ?b = d_db ?a" "d_specs ?b = d_specs ?a" "d_stopping ?b = d_stopping ?a"
    by (simp_all add: finish_memory_def Let_def take_waiter_def)
  with a have b: "steady s ?b" by (simp add: steady_def)
  let ?c = "restart now r (finish_status res) (res_duration res) ?b"
  have "quietly ?b ?c"
    using quietly_restart_decide [of r "finish_status res" "res_duration res" ?b]
    by (auto simp: restart_def split: prod.split option.split intro: quietly_trans quietly_restart_enqueue)
  moreover have "quietly s ?a" by (rule quietly_finish_record)
  ultimately have "evolves (d_db s) (d_db ?c)"
    by (metis ab(1) evolves_trans quietly_def)
  moreover have "steady s ?c" using b steady_restart by (rule steady_trans)
  ultimately show ?thesis by (simp add: finish_run_def ahead_poke)
qed

lemma ahead_act: "ahead s (snd (act now r dec s))"
proof (cases "(now, r, dec, s)" rule: act.cases)
  case (5 now r a s)
  have "ahead s (snd (settle now r StatusSkipped ''already_running''
      (case a of None \<Rightarrow> [] | Some i \<Rightarrow> run_detail_text i) s))" by (rule ahead_settle) simp
  from ahead_trans [OF this ahead_skip_run] 5 show ?thesis by simp
qed (auto simp: ahead_settle ahead_finish_run split: option.split)

lemma ahead_start_row: "ahead s (snd (start_row now sp r s))"
proof -
  obtain x t where x: "on_db (StartRun (run_id r) now) s = (x, t)" by fastforce
  then have t: "ahead s t" by (rule ahead_on_db [OF row_changes(1)])
  show ?thesis
  proof (cases "x = Inr True")
    case True
    have "ahead t (snd (start_row now sp r s))"
      using x True by (simp add: start_row_def Let_def ahead_def steady_def evo.R_refl running_of_def map_of_AList_update)
    with t show ?thesis by (rule ahead_trans)
  next
    case False
    with x t show ?thesis by (cases x) (auto simp: start_row_def)
  qed
qed

lemma ahead_decide: "ahead s (snd (decide now newest r s))"
  by (auto simp: decide_def decide_locked_def Let_def replace_active_def ahead_start_row split: option.split)

lemma ahead_rows: "ahead s (snd (schedule_rows now newest rs progressed s))"
proof (induction now newest rs progressed s rule: schedule_rows.induct)
  case (2 now newest r rs progressed s)
  obtain dec s1 where d: "decide now newest r s = (dec, s1)" by fastforce
  obtain p s2 where a: "act now r dec s1 = (p, s2)" by fastforce
  from ahead_decide [of s now newest r] d ahead_act [of s1 now r dec] a
  have "ahead s s1" "ahead s s2" by (auto intro: ahead_trans)
  with "2.IH" [OF d [symmetric] _ a [symmetric]] d a show ?case by (auto intro: ahead_trans)
qed simp

section \<open>What the scan leaves of a row\<close>

text \<open>An event that keeps its queued rows back: one of its runs is in progress.\<close>

definition busy :: "disp \<Rightarrow> string \<Rightarrow> bool" where
  "busy s e \<longleftrightarrow> sp_concurrency (spec_of s e) \<in> {PolicyQueue, PolicyReplace} \<and> running_of s e > 0"

definition attended :: "disp \<Rightarrow> run \<Rightarrow> bool" where
  "attended t r \<longleftrightarrow> d_wake t \<or> left_queue (run_id r) (d_db t) \<or> busy t (run_event r)"

lemma attended_ahead: "ahead s t \<Longrightarrow> attended s r \<Longrightarrow> attended t r"
  unfolding ahead_def attended_def busy_def steady_def spec_of_def
  by (auto intro: left_queue_evolves dest: less_le_trans)

lemma left_queue_update:
  assumes "i \<le> tbl_seq d" and "\<And>c. c_status (f c) \<noteq> StatusQueued"
  shows "left_queue i (d\<lparr>tbl_runs := update_where (\<lambda>c. c_id c = i \<and> c_status c = StatusQueued) f (tbl_runs d)\<rparr>)"
  using assms by (simp add: left_queue_def ball_update_where)

lemma settle_left:
  assumes "faults (d_db s) = []" and "st \<noteq> StatusQueued" and "run_id r \<le> tbl_seq (d_db s)"
  shows "left_queue (run_id r) (d_db (snd (settle now r st reason detail s)))"
  using assms by (simp add: settle_def on_db_def Settle_def calm_evals take_waiter_def left_queue_update)

lemma start_row_left:
  assumes "faults (d_db s) = []" and "run_id r \<le> tbl_seq (d_db s)"
  shows "left_queue (run_id r) (d_db (snd (start_row now sp r s)))"
    and "fst (start_row now sp r s) = (if length (filter (\<lambda>c. c_id c = run_id r \<and> c_status c = StatusQueued)
      (tbl_runs (d_db s))) = 1 then Started sp else NotStarted)"
  using assms by (simp_all add: start_row_def on_db_def StartRun_def calm_evals Let_def left_queue_update)

lemma row_attended:
  assumes calm: "faults (d_db s) = []" and "\<not> d_stopping s" and seq: "run_id r \<le> tbl_seq (d_db s)"
    and d: "decide now newest r s = (dec, s1)" and a: "act now r dec s1 = (p, s2)"
  shows "dec \<noteq> ScanEnds \<and> attended s2 r"
proof -
  have settled: "attended (snd (settle now r st reason detail s)) r" if "st \<noteq> StatusQueued" for st reason detail
    using settle_left [OF calm that seq] by (simp add: attended_def)
  have skipped: "attended (skip_run now r x s) r" for x
    by (rule attended_ahead [OF ahead_skip_run [of now r x]], rule settled) simp
  have started: "attended (snd (act now r dec' t)) r"
    if "start_row now sp r s = (dec', t)" for sp dec' t
  proof -
    have "attended t r" using start_row_left(1) [OF calm seq, of now sp] that by (simp add: attended_def)
    with ahead_act show ?thesis by (rule attended_ahead)
  qed
  have replaced: "attended (snd (act now r dec' t)) r"
    if "replace_active r s = (dec', t)" "sp_concurrency (spec_of s (run_event r)) = PolicyReplace"
      "running_of s (run_event r) > 0" for dec' t
  proof -
    have "ahead s t" using that(1) by (auto simp: replace_active_def split: option.splits if_splits)
    moreover have "attended s r" using that(2,3) by (simp add: attended_def busy_def)
    ultimately have "attended t r" by (rule attended_ahead)
    with ahead_act show ?thesis by (rule attended_ahead)
  qed
  show ?thesis
  proof (cases "newest (run_event r) \<in> {None, Some (run_id r)}")
    case False
    with d a settled show ?thesis by (auto simp: decide_def)
  next
    case True
    then have l: "decide_locked now r s = (dec, s1)" using d by (auto simp: decide_def split: option.splits)
    show ?thesis
    proof (cases "d_specs s (run_event r)")
      case None
      with l a settled assms(2) show ?thesis by (auto simp: decide_locked_def)
    next
      case (Some sp)
      then have sp: "spec_of s (run_event r) = sp" by (simp add: spec_of_def)
      from start_row_left(2) [OF calm seq, of now sp]
      have "fst (start_row now sp r s) \<noteq> ScanEnds" by simp
      moreover have "fst (replace_active r s) \<noteq> ScanEnds"
        by (simp add: replace_active_def split: option.split)
      moreover have "attended s r" if "sp_concurrency sp = PolicyQueue" "running_of s (run_event r) > 0"
        using that sp by (simp add: attended_def busy_def)
      ultimately show ?thesis
        using l Some a assms(2) sp settled skipped started [of sp dec s1] replaced [of dec s1]
        by (auto simp: decide_locked_def Let_def split: if_splits)
    qed
  qed
qed

lemma rows_attended:
  assumes "faults (d_db s) = []" and "\<not> d_stopping s" and "\<forall>r \<in> set rs. run_id r \<le> tbl_seq (d_db s)"
  shows "\<forall>r \<in> set rs. attended (snd (schedule_rows now newest rs b s)) r"
  using assms
proof (induction now newest rs b s rule: schedule_rows.induct)
  case (2 now newest r rs b s)
  obtain dec s1 where d: "decide now newest r s = (dec, s1)" by fastforce
  obtain p s2 where a: "act now r dec s1 = (p, s2)" by fastforce
  from "2.prems" have r: "dec \<noteq> ScanEnds" "attended s2 r" using row_attended [OF _ _ _ d a] by auto
  from ahead_decide [of s now newest r] d ahead_act [of s1 now r dec] a
  have 12: "ahead s s1" "ahead s1 s2" by simp_all
  then have "ahead s s2" by (rule ahead_trans)
  with "2.prems" have "faults (d_db s2) = []" "\<not> d_stopping s2" "\<forall>r \<in> set rs. run_id r \<le> tbl_seq (d_db s2)"
    unfolding ahead_def steady_def evolves_def by (auto intro: order_trans)
  with "2.IH" [OF d [symmetric] r(1) a [symmetric]]
  have "\<forall>r \<in> set rs. attended (snd (schedule_rows now newest rs (b \<or> p) s2)) r" .
  with r attended_ahead [OF ahead_rows, OF r(2)] d a show ?case by simp
qed simp

text \<open>A scan that makes no progress found nothing but replacements that wait for the run to stop.\<close>

definition waits_to_replace :: "disp \<Rightarrow> string \<Rightarrow> bool" where
  "waits_to_replace s e \<longleftrightarrow> sp_concurrency (spec_of s e) = PolicyReplace \<and> running_of s e > 0"

definition alike :: "disp \<Rightarrow> disp \<Rightarrow> bool" where
  "alike s t \<longleftrightarrow> d_db t = d_db s \<and> d_running t = d_running s \<and> d_specs t = d_specs s \<and> d_stopping t = d_stopping s"

definition eligible :: "disp \<Rightarrow> run \<Rightarrow> bool" where
  "eligible s r \<longleftrightarrow> length (filter (\<lambda>c. c_id c = run_id r \<and> c_status c = StatusQueued) (tbl_runs (d_db s))) = 1
     \<and> \<not> (sp_concurrency (spec_of s (run_event r)) = PolicyQueue \<and> running_of s (run_event r) > 0)"

lemma alike_eqs: "alike s t \<Longrightarrow> eligible t r = eligible s r \<and> waits_to_replace t e = waits_to_replace s e
    \<and> (faults (d_db t) = []) = (faults (d_db s) = []) \<and> d_stopping t = d_stopping s"
  by (simp add: alike_def eligible_def waits_to_replace_def spec_of_def running_of_def)

lemma row_without_progress:
  assumes calm: "faults (d_db s) = []" and "\<not> d_stopping s" and el: "eligible s r"
    and seq: "run_id r \<le> tbl_seq (d_db s)"
    and d: "decide now newest r s = (dec, s1)" and a: "act now r dec s1 = (False, s2)"
  shows "alike s s2 \<and> waits_to_replace s (run_event r) \<and> newest (run_event r) \<in> {None, Some (run_id r)}"
proof -
  from d a have new: "newest (run_event r) \<in> {None, Some (run_id r)}"
    and l: "decide_locked now r s = (dec, s1)"
    by (auto simp: decide_def split: option.splits if_splits)
  have no_start: "start_row now sp r s \<noteq> (dec, s1)" for sp
  proof
    assume st: "start_row now sp r s = (dec, s1)"
    moreover have "fst (start_row now sp r s) = Started sp"
      using start_row_left(2) [OF calm seq] el by (simp add: eligible_def)
    ultimately have "dec = Started sp" by simp
    with a show False by (simp split: option.splits)
  qed
  from l a assms(2) no_start have r: "replace_active r s = (dec, s1)" "waits_to_replace s (run_event r)"
    using el by (auto simp: decide_locked_def Let_def eligible_def waits_to_replace_def spec_of_def
        split: option.splits if_splits)
  from r(1) a have "alike s s2"
    by (auto simp: replace_active_def alike_def cancel_run_def split: option.splits if_splits)
  with r new show ?thesis by simp
qed

lemma progress_stays: "fst (schedule_rows now newest rs True s)"
  by (induction rs arbitrary: s) (auto split: prod.split)

lemma rows_without_progress:
  assumes "schedule_rows now newest rs False s = (False, t)" and "faults (d_db s) = []" and "\<not> d_stopping s"
    and "\<forall>r \<in> set rs. eligible s r \<and> run_id r \<le> tbl_seq (d_db s)"
  shows "alike s t \<and> (\<forall>r \<in> set rs. waits_to_replace s (run_event r) \<and> newest (run_event r) \<in> {None, Some (run_id r)})"
  using assms
proof (induction rs arbitrary: s)
  case Nil
  then show ?case by (simp add: alike_def)
next
  case (Cons r rs)
  obtain dec s1 where d: "decide now newest r s = (dec, s1)" by fastforce
  obtain p s2 where a: "act now r dec s1 = (p, s2)" by fastforce
  from Cons.prems have "dec \<noteq> ScanEnds" using row_attended [OF _ _ _ d a] by simp
  with Cons.prems(1) d a have rest: "schedule_rows now newest rs p s2 = (False, t)" by simp
  with progress_stays [of now newest rs s2] have "\<not> p" by (cases p) simp_all
  with a have a': "act now r dec s1 = (False, s2)" by simp
  from Cons.prems row_without_progress [OF _ _ _ _ d a']
  have r: "alike s s2" "waits_to_replace s (run_event r)" "newest (run_event r) \<in> {None, Some (run_id r)}" by auto
  have "alike s2 t \<and> (\<forall>r \<in> set rs. waits_to_replace s2 (run_event r) \<and> newest (run_event r) \<in> {None, Some (run_id r)})"
    using Cons.prems alike_eqs [OF r(1)] r(1) rest \<open>\<not> p\<close> by (intro Cons.IH) (simp_all add: alike_def)
  with r alike_eqs [OF r(1)] show ?case by (auto simp: alike_def)
qed

section \<open>What the scan leaves of the queue\<close>

lemma waiting_events_running:
  assumes "sp_concurrency (spec_of s e) = PolicyQueue" and "running_of s e > 0"
  shows "e \<in> set (waiting_events s)"
proof -
  from assms(2) obtain n where "map_of (d_running s) e = Some n" "n > 0"
    by (auto simp: running_of_def split: option.splits)
  then have "(e, n) \<in> set (d_running s)" by (simp add: map_of_SomeD)
  with \<open>n > 0\<close> assms(1) show ?thesis by (force simp: waiting_events_def)
qed

lemma waiting_events_busy:
  assumes "distinct (map fst (d_running s))" and "e \<in> set (waiting_events s)"
  shows "busy s e"
  using assms by (auto simp: waiting_events_def busy_def running_of_def)

lemma newest_of_waits:
  assumes "\<forall>r \<in> set rs. waits_to_replace s (run_event r) \<and> newest_of s rs (run_event r) \<in> {None, Some (run_id r)}"
    and "distinct (map run_id rs)"
  shows "length rs \<le> card {e. waits_to_replace s e}"
proof -
  have new: "newest_of s rs (run_event r) = Some (run_id r)" if "r \<in> set rs" for r
  proof -
    from that assms(1) have "newest_of s rs (run_event r) \<noteq> None"
      by (auto simp: newest_of_eq waits_to_replace_def)
    with that assms(1) show ?thesis by auto
  qed
  have "r = r'" if "r \<in> set rs" "r' \<in> set rs" "run_event r = run_event r'" for r r'
    using new [OF that(1)] new [OF that(2)] that assms(2) by (auto dest: distinct_map_eq)
  then have "inj_on run_event (set rs)" by (rule inj_onI)
  then have "card (run_event ` set rs) = length rs"
    using assms(2) by (simp add: card_image distinct_card distinct_map)
  moreover have "{e. waits_to_replace s e} \<subseteq> set (map fst (d_running s))"
    by (auto simp: waits_to_replace_def running_of_def split: option.splits dest!: map_of_SomeD) force
  then have "finite {e. waits_to_replace s e}" by (rule finite_subset) simp
  ultimately show ?thesis
    using assms(1) card_mono [of "{e. waits_to_replace s e}" "run_event ` set rs"] by auto
qed

lemma scan_without_progress:
  assumes calm: "faults (d_db s) = []" and "\<not> d_stopping s" and wf: "db_wf (d_db s)"
    and rows: "rows = take n (filter P (tbl_runs (d_db s)))"
    and P: "\<And>c. P c \<Longrightarrow> c_status c = StatusQueued \<and> c_event c \<notin> set (waiting_events s)"
    and r0: "schedule_rows now (newest_of s (map scanRun rows)) (map scanRun rows) False s = (False, t)"
  shows "alike s t \<and> length rows \<le> card {e. waits_to_replace s e}"
proof -
  have el: "eligible s (scanRun x) \<and> run_id (scanRun x) \<le> tbl_seq (d_db s)" if "x \<in> set rows" for x
  proof -
    let ?l = "length (filter (\<lambda>c. c_id c = c_id x \<and> c_status c = StatusQueued) (tbl_runs (d_db s)))"
    from that rows P have x: "x \<in> set (tbl_runs (d_db s))" "c_status x = StatusQueued"
      "c_event x \<notin> set (waiting_events s)" by (auto dest: take_filter_set)
    then have "?l \<noteq> 0" by (auto simp: filter_empty_conv)
    with length_filter_distinct_le_1 [OF db_wf_distinct [OF wf], of "c_id x" "\<lambda>c. c_status c = StatusQueued"]
    have "?l = 1" by linarith
    with x wf waiting_events_running [of s "c_event x"] show ?thesis
      by (auto simp: eligible_def scanRun_def db_wf_def)
  qed
  then have "\<forall>r \<in> set (map scanRun rows). eligible s r \<and> run_id r \<le> tbl_seq (d_db s)" by simp
  from rows_without_progress [OF r0 calm assms(2) this]
  have all: "alike s t" "\<forall>r \<in> set (map scanRun rows). waits_to_replace s (run_event r)
    \<and> newest_of s (map scanRun rows) (run_event r) \<in> {None, Some (run_id r)}" by auto
  have "map run_id (map scanRun rows) = take n (map c_id (filter P (tbl_runs (d_db s))))"
    by (simp add: rows take_map scanRun_def comp_def)
  then have "distinct (map run_id (map scanRun rows))"
    using db_wf_distinct [OF wf] by (simp add: distinct_map_filter)
  with newest_of_waits [OF all(2)] all(1) show ?thesis by simp
qed

text \<open>Why a due run is still queued after the scan.\<close>

definition excused :: "disp \<Rightarrow> string \<Rightarrow> bool" where
  "excused s e \<longleftrightarrow> busy s e \<or> d_wake s \<or> scheduleBatch \<le> int (card {e. waits_to_replace s e})"

lemma schedule_excused:
  assumes calm: "faults (d_db s) = []" and "\<not> d_stopping s" and wf: "db_wf (d_db s)"
    and run: "distinct (map fst (d_running s))"
    and c: "c \<in> set (tbl_runs (d_db (schedule now s)))" "c_status c = StatusQueued" "due now c"
  shows "excused (schedule now s) (c_event c)"
proof -
  define P where "P = (\<lambda>c. c_status c = StatusQueued \<and> due now c \<and> c_event c \<notin> set (waiting_events s))"
  define rows where "rows = sql_limit scheduleBatch (rows_by_id P (d_db s))"
  have rows_eq: "rows = take 500 (filter P (tbl_runs (d_db s)))"
    using rows_by_id_eq [OF wf] by (simp add: rows_def sql_limit_def scheduleBatch_def)
  define runs where "runs = map scanRun rows"
  obtain prog t where rowst: "schedule_rows now (newest_of s runs) runs False s = (prog, t)" by fastforce
  have q: "on_db (QueuedRuns now scheduleBatch (waiting_events s)) s = (Inr runs, s)"
    using calm by (simp add: on_db_def QueuedRuns_def query_calm runs_def rows_def P_def)
  have sch: "schedule now s = (if prog \<and> length rows = 500 then poke t else t)"
    using q rowst by (simp add: schedule_def runs_def scheduleBatch_def)
  have row: "c \<in> set (tbl_runs (d_db s)) \<and> P c \<and> 0 < c_id c \<and> c_id c \<le> tbl_seq (d_db s)" if "c \<in> set rows" for c
    using that wf by (auto simp: rows_eq db_wf_def dest: take_filter_set)
  have ahead: "ahead s t"
    using ahead_rows [of s now "newest_of s runs" runs False] rowst by simp
  have "excused (schedule now s) (c_event c)" if nw: "\<not> d_wake (schedule now s)"
  proof -
    from nw sch have t: "schedule now s = t" "\<not> d_wake t" and np: "length rows = 500 \<Longrightarrow> \<not> prog"
      by (auto simp: poke_def split: if_splits)
    with ahead have seq: "tbl_seq (d_db t) = tbl_seq (d_db s)" and ev: "evolves (d_db s) (d_db t)"
      and rn: "\<And>e. running_of s e \<le> running_of t e" and sp: "\<And>e. spec_of t e = spec_of s e"
      by (auto simp: ahead_def steady_def spec_of_def)
    from ahead wf have "db_wf (d_db t)" by (simp add: ahead_def steady_def)
    with c t seq have "c_id c \<le> tbl_seq (d_db s)" by (auto simp: db_wf_def)
    with ev c t obtain c0 where c0: "c0 \<in> set (tbl_runs (d_db s))" "row_evolves c0 c" by (auto simp: evolves_def)
    with c have c0': "c_status c0 = StatusQueued" "due now c0" "c_event c0 = c_event c" "c_id c0 = c_id c"
      by (auto simp: row_evolves_def due_def)
    have stay: "busy t e" if "busy s e" for e
      using that rn [of e] sp by (simp add: busy_def)
    show ?thesis
    proof (cases "c_event c \<in> set (waiting_events s)")
      case True
      with stay waiting_events_busy [OF run] t show ?thesis by (simp add: excused_def)
    next
      case False
      with c0 c0' have L: "c0 \<in> set (filter P (tbl_runs (d_db s)))" by (simp add: P_def)
      show ?thesis
      proof (cases "c0 \<in> set rows")
        case True
        have "\<forall>r \<in> set runs. run_id r \<le> tbl_seq (d_db s)"
          using row by (auto simp: runs_def scanRun_def)
        with rows_attended [OF calm assms(2) this, of now "newest_of s runs" False] rowst True
        have "attended t (scanRun c0)" by (simp add: runs_def)
        moreover have "\<not> left_queue (c_id c0) (d_db t)"
          using c t c0' by (auto simp: left_queue_def)
        ultimately show ?thesis using t c0' by (simp add: attended_def excused_def scanRun_def)
      next
        case False
        with L have "length (filter P (tbl_runs (d_db s))) > 500"
          unfolding rows_eq by (metis not_le take_all)
        then have full: "length rows = 500" by (simp add: rows_eq)
        with np rowst have "schedule_rows now (newest_of s (map scanRun rows)) (map scanRun rows) False s = (False, t)"
          by (simp add: runs_def)
        from scan_without_progress [OF calm assms(2) wf rows_eq _ this]
        have "alike s t" "scheduleBatch \<le> int (card {e. waits_to_replace s e})"
          by (simp_all add: P_def full scheduleBatch_def)
        then have "scheduleBatch \<le> int (card {e. waits_to_replace t e})" by (simp add: alike_eqs)
        with t show ?thesis by (simp add: excused_def)
      qed
    qed
  qed
  then show ?thesis by (auto simp: excused_def)
qed

lemma steady_schedule: "steady s (schedule now s)"
proof -
  obtain r t where q: "on_db (QueuedRuns now scheduleBatch (waiting_events s)) s = (r, t)" by fastforce
  then have "steady s t" by (rule steady_on_db [rotated 2]) (simp_all add: wf_queries calm_ops)
  moreover have "steady t (snd (schedule_rows now (newest_of t runs) runs False t))" for runs
    using ahead_rows by (simp add: ahead_def)
  ultimately show ?thesis
    using q by (auto simp: schedule_def split: sum.split prod.split) (metis snd_conv steady_trans)+
qed

section \<open>A pass of the loop\<close>

lemma running_cancel_ids: "d_running (process_cancel_ids now is s) = d_running s"
proof (induction "now" "is" s rule: process_cancel_ids.induct)
  case (2 now i "is" s)
  obtain os s1 where l: "cancel_lock i s = (os, s1)" by fastforce
  from quietly_cancel_lock [OF l] quietly_cancel_act [of s1 now i os] "2.IH" [OF l [symmetric]] l
  show ?case by (simp add: quietly_def)
qed simp

lemma running_processCancels: "d_running (processCancels now s) = d_running s"
proof -
  obtain r t where q: "on_db CancelRequests s = (r, t)" by fastforce
  then have "d_running t = d_running s" by (auto simp: on_db_def split: prod.splits)
  with q show ?thesis
    by (cases r) (simp_all add: processCancels_def running_cancel_ids queueError_def Let_def)
qed

lemma running_follow_all: "d_running (snd (follow_all now rs fired s)) = d_running s"
proof (induction now rs fired s rule: follow_all.induct)
  case (2 now r rs fired s)
  with quietly_follow_one [of s now r] show ?case
    by (auto simp: quietly_def split: prod.split option.split)
qed simp

lemma running_follow: "follow n now s = Some t \<Longrightarrow> d_running t = d_running s"
proof (induction n now s rule: follow.induct)
  case (2 n now s)
  obtain r s1 where u: "on_db (UnfollowedRuns followBatch) s = (r, s1)" by fastforce
  then have s1: "d_running s1 = d_running s" by (auto simp: on_db_def split: prod.splits)
  obtain f s2 where a: "follow_all now rs False s1 = (f, s2)" if "r = Inr rs" for rs
    by (cases r) fastforce+
  show ?case
  proof (cases r)
    case (Inl e)
    with u s1 "2.prems" show ?thesis by (auto simp: queueError_def Let_def split: if_splits)
  next
    case (Inr rs)
    from a [OF Inr] running_follow_all [of now rs False s1] s1 have s2: "d_running s2 = d_running s" by simp
    with "2.IH" [OF u [symmetric] Inr a [OF Inr, symmetric]] "2.prems" u Inr a [OF Inr]
    show ?thesis by (auto simp: Let_def poke_def split: if_splits option.splits)
  qed
qed simp

lemma next_due_spec:
  assumes "c \<in> set (tbl_runs d)" and "c_status c = StatusQueued" and "\<not> due now c" and "faults d = []"
  shows "\<exists>t. NextNotBefore now d = (Inr (Some t), d) \<and> now < t \<and> t \<le> fromMs (c_not_before c)"
proof -
  let ?f = "\<lambda>r. if c_status r = StatusQueued then (case c_not_before r of None \<Rightarrow> None
      | Some t \<Rightarrow> if t > UnixMilli now then Some t else None) else None"
  let ?ts = "List.map_filter ?f (tbl_runs d)"
  from assms(3) obtain m where m: "c_not_before c = Some m" "m > UnixMilli now"
    by (auto simp: due_def split: option.splits)
  then have in_ts: "m \<in> set ?ts"
    using assms(1,2) by (force simp: List.map_filter_def)
  have above: "UnixMilli now < x" if "x \<in> set ?ts" for x
    using that by (auto simp: List.map_filter_def split: if_splits option.splits)
  have "Min (set ?ts) \<in> set ?ts" using in_ts by (intro Min_in) auto
  with above have "UnixMilli now < Min (set ?ts)" by blast
  then have "now < from_UnixMilli (Min (set ?ts))" by (simp add: UnixMilli_def from_UnixMilli_def)
  moreover have "Min (set ?ts) \<le> m" using in_ts by (intro Min_le) auto
  then have "from_UnixMilli (Min (set ?ts)) \<le> fromMs (c_not_before c)"
    by (simp add: m from_UnixMilli_def fromMs_def)
  moreover have "?ts \<noteq> []" using in_ts by auto
  ultimately show ?thesis
    using assms(4) by (simp add: NextNotBefore_def query_calm Let_def)
qed


definition live_demo :: disp where
  "live_demo = (NewDispatcher 0 (\<lambda>n. ''id'') (demo_db [demo_row 1 ''deploy'' StatusRunning, demo_row 2 ''deploy'' StatusQueued]))
     \<lparr>d_specs := [''deploy'' \<mapsto> zero_spec\<lparr>sp_name := ''deploy'', sp_concurrency := PolicyQueue\<rparr>], d_running := [(''deploy'', 1)]\<rparr>"

lemma live_demo_fields [simp]:
  "d_db live_demo = demo_db [demo_row 1 ''deploy'' StatusRunning, demo_row 2 ''deploy'' StatusQueued]"
  "d_running live_demo = [(''deploy'', 1)]" "\<not> d_stopping live_demo" "\<not> d_loop_done live_demo"
  "live_demo\<lparr>d_next_due := zero_time\<rparr> = live_demo" "live_demo\<lparr>d_db := d_db live_demo\<rparr> = live_demo"
  "spec_of live_demo ''deploy'' = zero_spec\<lparr>sp_name := ''deploy'', sp_concurrency := PolicyQueue\<rparr>"
  by (simp_all add: live_demo_def NewDispatcher_def spec_of_def)

lemma live_demo_rows:
  "c_status (demo_row i e st) = st" "c_event (demo_row i e st) = e" "c_id (demo_row i e st) = i"
  "c_not_before (demo_row i e st) = None" "c_cancel_requested (demo_row i e st) = False"
  by (simp_all add: demo_defs)

lemma live_demo_query: "on_db (query q) live_demo = (Inr (q (d_db live_demo)), live_demo)"
  using live_demo_fields(6) by (simp add: on_db_def query_calm demo_defs)

lemma live_demo_step: "step 1 0 live_demo = Some live_demo"
proof -
  have db: "tbl_runs (d_db live_demo) = [demo_row 1 ''deploy'' StatusRunning, demo_row 2 ''deploy'' StatusQueued]"
    by (simp add: demo_db_def)
  have "processCancels 0 live_demo = live_demo"
    unfolding processCancels_def CancelRequests_def live_demo_query db by (simp add: live_demo_rows)
  moreover have "follow 1 0 live_demo = Some live_demo"
    unfolding One_nat_def follow.simps UnfollowedRuns_def live_demo_query rows_by_id_def db
    by (simp add: live_demo_rows unfollowed_def sql_limit_def followBatch_def)
  moreover have "schedule 0 live_demo = live_demo"
    unfolding schedule_def QueuedRuns_def live_demo_query rows_by_id_def db
    by (simp add: live_demo_rows waiting_events_def sql_limit_def scheduleBatch_def due_def)
  moreover have "on_db (NextNotBefore 0) live_demo = (Inr None, live_demo)"
    unfolding NextNotBefore_def live_demo_query db by (simp add: live_demo_rows List.map_filter_simps)
  ultimately show ?thesis
    unfolding step_def by (simp only: live_demo_fields if_False simp_thms option.case Let_def prod.case sum.case)
qed


end
