(* ===== verification/StoreTypes.thy ===== *)
theory StoreTypes
  imports Dispatcher
begin

text \<open>
  The types of the columns of \<open>runs\<close>: which columns are NULL, by the status of the row. Every
  sequence of store operations keeps them, as long as the statuses passed to \<open>FinishRun\<close> and
  \<open>Settle\<close> are those of ended runs, which all the callers respect.
\<close>

section \<open>Typed rows\<close>

text \<open>The columns that only the end of a command fills in.\<close>

definition no_outcome :: "row \<Rightarrow> bool" where
  "no_outcome r \<longleftrightarrow> c_exit_code r = None \<and> c_signal r = [] \<and> c_output r = [] \<and> \<not> c_output_truncated r"

definition row_typed :: "row \<Rightarrow> bool" where
  "row_typed r \<longleftrightarrow>
     (c_finished_at r = None \<longleftrightarrow> c_status r = StatusQueued \<or> c_status r = StatusRunning)
     \<and> (c_status r = StatusQueued \<longrightarrow> c_started_at r = None)
     \<and> (c_status r = StatusRunning \<longrightarrow> c_started_at r \<noteq> None)
     \<and> (c_finished_at r = None \<longrightarrow> c_duration_ms r = None \<and> c_reason r = [] \<and> c_detail r = [])
     \<and> (c_duration_ms r = None \<longrightarrow> no_outcome r)
     \<and> (c_cancel_requested r \<longrightarrow> c_status r = StatusRunning)
     \<and> 1 \<le> c_attempt r \<and> 0 \<le> c_skipped r"

definition db_typed :: "db \<Rightarrow> bool" where
  "db_typed d \<longleftrightarrow> db_wf d \<and> (\<forall>r \<in> set (tbl_runs d). row_typed r)"

interpretation typed: db_invariant db_typed
  by unfold_locales (simp add: db_typed_def wf.inv_faults)

abbreviation keeps_typed :: "'a dbm \<Rightarrow> bool" where
  "keeps_typed \<equiv> keeps (\<lambda>d d'. db_typed d \<longrightarrow> db_typed d')"

lemma typed_insert_row: "row_typed r \<Longrightarrow> db_typed d \<Longrightarrow> db_typed (snd (insert_row r d))"
  unfolding db_typed_def using wf_insert_row [of d r]
  by (auto simp: insert_row_def Let_def row_typed_def no_outcome_def)

lemma typed_update:
  assumes "\<And>r. c_id (f r) = c_id r" and "\<And>r. row_typed r \<Longrightarrow> P r \<Longrightarrow> row_typed (f r)"
  shows "keeps_typed (exec_update P f)" and "keeps_typed (change P f)"
proof -
  have "db_typed d \<longrightarrow> db_typed (d\<lparr>tbl_runs := update_where P f (tbl_runs d)\<rparr>)" for d
    using assms wf_update_where [of f d P] by (simp add: db_typed_def ball_update_where)
  then show "keeps_typed (exec_update P f)" and "keeps_typed (change P f)"
    by (rule typed.kept.keeps_update)+
qed

section \<open>Operations\<close>

lemma typed_fresh_row:
  "1 \<le> attempt \<Longrightarrow> row_typed (fresh_row r pl StatusQueued [] attempt q created None nb)"
  "1 \<le> attempt \<Longrightarrow> row_typed (fresh_row r pl StatusDropped reason attempt q created (Some t) nb)"
  by (simp_all add: row_typed_def no_outcome_def fresh_row_def)

lemma typed_insertRun: "0 \<le> run_attempt r \<Longrightarrow> keeps_typed (insertRun now r m)"
  unfolding insertRun_def Let_def
  by (auto intro!: typed.kept.keeps_intros typed.kept.keeps_sql typed_insert_row typed_fresh_row)

lemma typed_insert_runs: "list_all (\<lambda>(r, m). 0 \<le> run_attempt r) rs \<Longrightarrow> keeps_typed (insert_runs now rs)"
  by (induction now rs rule: insert_runs.induct) (auto intro!: typed.kept.keeps_intros typed_insertRun)

text \<open>A cancel request reads the rows and writes them in one transaction.\<close>

lemma typed_cancel_one:
  assumes "cancel_one now (scanRun c) d = (x, d')" and "db_typed d" and "c \<in> set (tbl_runs d)"
  shows "db_typed d'" and "c' \<in> set (tbl_runs d) \<Longrightarrow> c_id c' \<noteq> c_id c \<Longrightarrow> c' \<in> set (tbl_runs d')"
proof -
  have only: "c' = c" if "c' \<in> set (tbl_runs d)" "c_id c' = c_id c" for c'
    using assms(2,3) that db_wf_distinct [of d] by (auto simp: db_typed_def dest: distinct_map_eq)
  have upd: "db_typed (d\<lparr>faults := fs, tbl_runs := update_where (\<lambda>r. c_id r = c_id c) f (tbl_runs d)\<rparr>)"
    if "row_typed c \<Longrightarrow> row_typed (f c)" "\<And>r. c_id (f r) = c_id r" for f fs
    using that assms(2,3) only wf_update_where [of f d "\<lambda>r. c_id r = c_id c"]
    by (auto simp: db_typed_def ball_update_where db_wf_def)
  have "(db_typed d' \<and> (\<forall>c' \<in> set (tbl_runs d). c_id c' \<noteq> c_id c \<longrightarrow> c' \<in> set (tbl_runs d')))"
    using assms(1)
  proof (cases rule: cancel_one_elim)
    case (error e fs)
    with assms(2) show ?thesis by (auto simp: typed.inv_faults)
  next
    case (queued fs)
    then have "db_typed d'" unfolding queued(3) scanRun_fields
      by (intro upd) (auto simp: row_typed_def no_outcome_def)
    with queued(3) show ?thesis by (auto simp: set_update_where)
  next
    case (running fs)
    then have "db_typed d'" unfolding running(3) scanRun_fields
      by (intro upd) (auto simp: row_typed_def no_outcome_def)
    with running(3) show ?thesis by (auto simp: set_update_where)
  next
    case other
    with assms(2) show ?thesis by simp
  qed
  then show "db_typed d'" and "c' \<in> set (tbl_runs d) \<Longrightarrow> c_id c' \<noteq> c_id c \<Longrightarrow> c' \<in> set (tbl_runs d')" by auto
qed

lemma typed_cancel_all:
  assumes "cancel_all now (map scanRun cs) d = (x, d')" and "db_typed d" and "set cs \<subseteq> set (tbl_runs d)"
    and "distinct (map c_id cs)"
  shows "db_typed d'"
  using assms
proof (induction cs arbitrary: x d)
  case Nil
  then show ?case by (simp add: db_ret_def)
next
  case (Cons c cs)
  from Cons.prems(1) have "db_then (cancel_one now (scanRun c))
      (\<lambda>y. db_then (cancel_all now (map scanRun cs)) (\<lambda>ys. db_ret (y # ys))) d = (x, d')" by simp
  then show ?case
  proof (cases rule: db_then_elim)
    case (error e)
    with typed_cancel_one(1) [OF error(1) Cons.prems(2)] Cons.prems(3) show ?thesis by simp
  next
    case (ok y d1)
    have c: "c \<in> set (tbl_runs d)" using Cons.prems(3) by simp
    have "c' \<in> set (tbl_runs d1)" if "c' \<in> set cs" for c'
      using that Cons.prems(3,4) by (intro typed_cancel_one(2) [OF ok(1) Cons.prems(2) c]) (auto, metis imageI)
    then have sub: "set cs \<subseteq> set (tbl_runs d1)" by blast
    from ok(2) obtain z where "cancel_all now (map scanRun cs) d1 = (z, d')"
      by (auto simp: db_ret_def elim!: db_then_elim)
    from Cons.IH [OF this typed_cancel_one(1) [OF ok(1) Cons.prems(2) c] sub] Cons.prems(4)
    show ?thesis by simp
  qed
qed

text \<open>A transaction that first reads and then writes by what it read.\<close>

lemma typed_read_write:
  assumes "\<And>d x d'. db_typed d \<Longrightarrow> k (q d) d = (x, d') \<Longrightarrow> db_typed d'"
    and "\<And>d fs. q (d\<lparr>faults := fs\<rparr>) = q d"
  shows "keeps_typed (in_tx (db_then (query q) k))"
proof (rule typed.kept.keeps_tx, unfold keeps_def, intro allI impI)
  fix d assume d: "db_typed d"
  obtain x d' where e: "db_then (query q) k d = (x, d')" by fastforce
  then show "db_typed (snd (db_then (query q) k d))"
  proof (cases rule: db_then_elim)
    case (error err)
    from error(1) show ?thesis by (cases rule: query_elim) (use d e in \<open>auto simp: typed.inv_faults\<close>)
  next
    case (ok a d1)
    from ok(1) have "d1 = d\<lparr>faults := faults d1\<rparr>" "a = q d1" by (auto elim!: query_elim simp: assms(2))
    with d ok(2) assms(1) [of d1 x d'] e show ?thesis by (metis snd_conv typed.inv_faults)
  qed
qed

lemma typed_requests:
  "keeps_typed (RequestCancel now i)" "keeps_typed (RequestCancelEvent now e)"
proof -
  show "keeps_typed (RequestCancel now i)" unfolding RequestCancel_def
  proof (rule typed_read_write)
    fix d d' :: db and x
    assume "db_typed d" "(case find_row i d of None \<Rightarrow> db_fail ErrNotFound | Some c \<Rightarrow> cancel_one now (scanRun c)) d = (x, d')"
    then show "db_typed d'"
      by (auto simp: db_fail_def dest: typed_cancel_one(1) find_row_Some split: option.splits)
  qed simp
  let ?P = "\<lambda>r. c_event r = e \<and> c_status r \<in> {StatusQueued, StatusRunning}"
  show "keeps_typed (RequestCancelEvent now e)" unfolding RequestCancelEvent_def
  proof (rule typed_read_write)
    fix d d' :: db and x
    assume d: "db_typed d" and c: "cancel_all now (map scanRun (rows_by_id ?P d)) d = (x, d')"
    from d have "db_wf d" by (simp add: db_typed_def)
    then have "distinct (map c_id (rows_by_id ?P d))"
      using rows_by_id_eq [of d ?P] db_wf_distinct [of d] by (simp add: distinct_map_filter)
    with typed_cancel_all [OF c d] show "db_typed d'" by (auto simp: rows_by_id_set)
  qed simp
qed

text \<open>The arguments that the callers pass: no end leaves a run queued or running, attempts count from one.\<close>

fun op_typed :: "store_op \<Rightarrow> bool" where
  "op_typed (OpEnqueue now r m) = (0 \<le> run_attempt r)"
| "op_typed (OpFollow now i rs) = list_all (\<lambda>(r, m). 0 \<le> run_attempt r) rs"
| "op_typed (OpFinishRun now i f) = (fin_status f \<notin> {StatusQueued, StatusRunning})"
| "op_typed (OpSettle now i st reason detail) = (st \<notin> {StatusQueued, StatusRunning})"
| "op_typed (OpRetry now r p reason) = (0 \<le> run_attempt r)"
| "op_typed _ = True"

lemma typed_retry: "0 \<le> run_attempt r \<Longrightarrow> keeps_typed (Retry now r pl reason)"
  unfolding Retry_def
  by (auto intro!: typed.kept.keeps_intros typed.kept.keeps_sql typed_insert_row typed_fresh_row typed_update
      simp: row_typed_def no_outcome_def split: option.split)

lemma typed_ops:
  "keeps_typed (StartRun i at)" "keeps_typed (AddSkipped i)" "keeps_typed (Abandon now i reason)"
  "fin_status f \<notin> {StatusQueued, StatusRunning} \<Longrightarrow> keeps_typed (FinishRun now i f)"
  "st \<notin> {StatusQueued, StatusRunning} \<Longrightarrow> keeps_typed (Settle now i st reason detail)"
  unfolding StartRun_def AddSkipped_def Abandon_def FinishRun_def Settle_def
  by (auto intro!: typed_update simp: row_typed_def no_outcome_def split: option.split)

lemma typed_other_tables [simp]:
  "db_typed (d\<lparr>tbl_agent := a\<rparr>) = db_typed d" "db_typed (d\<lparr>tbl_cron := c\<rparr>) = db_typed d"
  by (simp_all add: db_typed_def)

lemma typed_filter: "db_typed d \<Longrightarrow> db_typed (d\<lparr>tbl_runs := filter P (tbl_runs d)\<rparr>)"
  by (auto simp: db_typed_def wf_filter)

lemma typed_rest:
  "keeps_typed (Prune before)" "keeps_typed (Heartbeat now a)" "keeps_typed (AgentStopped now)"
  "keeps_typed (SetLastCron key at)"
  unfolding Prune_def Heartbeat_def AgentStopped_def SetLastCron_def
  by (auto intro!: typed.kept.keeps_sql typed_filter)

lemma typed_enqueues:
  "0 \<le> run_attempt r \<Longrightarrow> keeps_typed (Enqueue now r m)"
  "list_all (\<lambda>(r, m). 0 \<le> run_attempt r) rs \<Longrightarrow> keeps_typed (Follow now i rs)"
  unfolding Enqueue_def Follow_def
  by (auto intro!: typed.kept.keeps_intros typed_insertRun typed_insert_runs typed_update
      simp: row_typed_def no_outcome_def)

lemma typed_run_op: "op_typed x \<Longrightarrow> db_typed d \<Longrightarrow> db_typed (snd (run_op x d))"
  using typed_ops typed_rest typed_enqueues typed_retry typed_requests
  by (cases x) (auto simp: keeps_def quiet_def typed.inv_faults run_op_start simp del: run_op.simps(3))

lemma typed_run_ops: "list_all op_typed xs \<Longrightarrow> db_typed d \<Longrightarrow> db_typed (snd (run_ops xs d))"
  by (induction xs arbitrary: d) (simp_all add: run_ops_snd typed_run_op del: run_ops.simps(2))

lemma run_shape:
  assumes "row_typed c"
  shows "Open (scanRun c) \<longleftrightarrow> c_finished_at c = None"
    and "Open (scanRun c) \<Longrightarrow> run_exit_code (scanRun c) = None \<and> run_duration (scanRun c) = 0 \<and> run_output (scanRun c) = []"
    and "run_cancel_requested (scanRun c) \<Longrightarrow> run_status (scanRun c) = StatusRunning"
  using assms by (auto simp: row_typed_def no_outcome_def Open_def scanRun_def)

text \<open>
  C4: The columns of a run always agree with its status. Whatever operations run on the store, with
  whatever failures among them, a row has an end time exactly when it is neither queued nor running,
  a start time when it is running and none while queued, no exit code, output or duration before it
  has ended, and a pending cancel request only while it runs; the run that the code reads from it is
  open exactly while it has no end time. The ends that the dispatcher records are of the right type.
\<close>

theorem rows_stay_typed:
  assumes "db_typed d" and "list_all op_typed xs" and "c \<in> set (tbl_runs (snd (run_ops xs d)))"
  shows "row_typed c \<and> (Open (scanRun c) \<longleftrightarrow> c_finished_at c = None)
    \<and> op_typed (OpFinishRun now (c_id c) (finish_of sp res)) \<and> op_typed (OpFinishRun now (c_id c) canceled_finish)"
proof -
  have "row_typed c" using typed_run_ops [OF assms(2,1)] assms(3) by (simp add: db_typed_def)
  then show ?thesis using run_shape(1) [of c] by (simp add: finish_of_def finish_status_def canceled_finish_def)
qed

definition typed_demo :: "store_op list" where
  "typed_demo = [OpEnqueue 0 (demo_firing ''backup'') 0, OpStartRun 1 5000000, OpRequestCancel 6000000 1]"

lemma typed_demo_runs:
  "tbl_runs (snd (run_ops typed_demo empty_db)) =
     [(demo_row 1 ''backup'' StatusQueued)\<lparr>c_status := StatusRunning, c_started_at := Some 5, c_cancel_requested := True\<rparr>]"
  by (simp add: typed_demo_def quiet_def Enqueue_def StartRun_def RequestCancel_def store_evals)
    (simp add: demo_defs IsZero_def zero_time_def nullID_def find_row_def cancel_one_def scanRun_def store_evals)

theorem rows_stay_typed_witness:
  "row_typed ((demo_row 1 ''backup'' StatusQueued)\<lparr>c_status := StatusRunning, c_started_at := Some 5, c_cancel_requested := True\<rparr>)"
proof -
  have "db_typed empty_db" by (simp add: db_typed_def db_wf_def empty_db_def)
  moreover have "list_all op_typed typed_demo" by (simp add: typed_demo_def demo_firing_def new_run_def)
  ultimately show ?thesis
    using rows_stay_typed [of empty_db typed_demo] by (simp add: typed_demo_runs)
qed

end
