(* ===== verification/ShutdownRace.thy ===== *)
theory ShutdownRace
  imports DispatcherRace
begin

text \<open>
  The shutdown and the loop (\<^verbatim>\<open>internal/agent/agent.go\<close>, \<^verbatim>\<open>internal/runner/runner.go\<close>): what \<open>Runner.Wait\<close> waits
  for, over every interleaving of the dispatcher. \<open>spawn\<close> counts a run as in flight, and the
  goroutine counts it out after \<open>finish\<close>; a run that the loop has started and not handed to \<open>spawn\<close>
  yet is not counted.
\<close>

section \<open>Runs in flight\<close>

text \<open>A payload that cannot be read makes the loop itself finish the run, without a goroutine.\<close>

definition readable :: "run \<Rightarrow> bool" where
  "readable r \<longleftrightarrow> unmarshal_event (run_payload r) \<noteq> None"

definition is_claimed :: "live \<Rightarrow> bool" where
  "is_claimed l \<longleftrightarrow> lv_phase l = Claimed"

fun restart_run :: "restart_pc \<Rightarrow> run" where
  "restart_run (RestartCheck r st elapsed) = r"
| "restart_run (RestartQueue r sp delay) = r"

text \<open>The value of \<open>inflight.n\<close>: the goroutines of spawned runs, up to the end of their \<open>finish\<close>.\<close>

definition in_flight :: "sys \<Rightarrow> int" where
  "in_flight S = fold (\<lambda>l. inflight_add 1) (filter (\<lambda>l. \<not> is_claimed l \<and> readable (lv_run l)) (sy_live S))
     (int (length (filter (\<lambda>x. readable (restart_run x)) (sy_restarts S))))"

lemma in_flight_eq:
  "in_flight S = int (length (filter (\<lambda>l. \<not> is_claimed l \<and> readable (lv_run l)) (sy_live S)))
     + int (length (filter (\<lambda>x. readable (restart_run x)) (sy_restarts S)))"
proof -
  have "fold (\<lambda>l. inflight_add 1) ls n = n + int (length ls)" for ls :: "live list" and n
    by (induction ls arbitrary: n) (simp_all add: inflight_add_def)
  then show ?thesis by (simp add: in_flight_def)
qed

section \<open>Claimed runs\<close>

text \<open>The runs that the loop holds: at most one, the one that it has just started.\<close>

definition held_by_loop :: "loop_pc \<Rightarrow> run list" where
  "held_by_loop pc = (case pc of Decided r (Started sp) new rs \<Rightarrow> [r] | _ \<Rightarrow> [])"

definition claims_ok :: "sys \<Rightarrow> bool" where
  "claims_ok S \<longleftrightarrow> map lv_run (filter is_claimed (sy_live S)) = held_by_loop (sy_loop S)"

lemma held_simps [simp]:
  "held_by_loop AtRest = []" "held_by_loop (Canceling is) = []" "held_by_loop (CancelLocked i os is) = []"
  "held_by_loop (Following es) = []" "held_by_loop (Waiting ns) = []" "held_by_loop (GotRows rs) = []"
  "held_by_loop (Scanning new rs) = []" "held_by_loop (Decided r (Started sp) new rs) = [r]"
  "held_by_loop (Decided r ScanEnds new rs) = []"
  by (simp_all add: held_by_loop_def)

lemma held_none: "\<forall>sp. dec \<noteq> Started sp \<Longrightarrow> held_by_loop (Decided r dec new rs) = []"
  by (simp add: held_by_loop_def split: decision.split)

lemma claimed_phase [simp]:
  "is_claimed (set_phase p l) \<longleftrightarrow> p = Claimed" "lv_run (set_phase p l) = lv_run l"
  "is_claimed \<lparr>lv_run = r, lv_spec = sp, lv_phase = Claimed\<rparr>"
  by (simp_all add: is_claimed_def set_phase_def)

lemma claims_loop_step: "loop_step S T \<Longrightarrow> claims_ok S \<Longrightarrow> claims_ok T"
proof (induction rule: loop_step.induct)
  case (decides S new r rs now dec d)
  then show ?case by (simp add: claims_ok_def held_none)
next
  case (acts S r dec new rs now)
  then show ?case by (simp add: claims_ok_def held_none)
next
  case (hands_over S r sp new rs ev ls1 l ls2 now)
  then have "is_claimed l" by (simp add: is_claimed_def)
  with hands_over show ?case by (auto simp: claims_ok_def append_eq_Cons_conv map_eq_Cons_conv)
next
  case (unreadable S r sp new rs ls1 l ls2)
  then have "is_claimed l" by (simp add: is_claimed_def)
  with unreadable show ?case by (auto simp: claims_ok_def append_eq_Cons_conv map_eq_Cons_conv)
next
  case (scan_ends S r new rs)
  then show ?case by (auto simp: claims_ok_def)
next
  case (scan_ends_progressed S r new rs)
  then show ?case by (auto simp: claims_ok_def)
next
  case (read_ended S rs d)
  then show ?case by (auto simp: claims_ok_def)
next
  case (read_ended_fails S e d now)
  then show ?case by (auto simp: claims_ok_def)
qed (simp_all add: claims_ok_def)

lemma claims_run_step: "run_step S T \<Longrightarrow> claims_ok S \<Longrightarrow> claims_ok T"
proof (induction rule: run_step.induct)
  case (exits S ls1 l ls2 res)
  then have "\<not> is_claimed l" by (simp add: is_claimed_def)
  with exits show ?case by (simp add: claims_ok_def)
next
  case (records S ls1 l ls2 res now)
  then have "\<not> is_claimed l" by (simp add: is_claimed_def)
  with records show ?case by (simp add: claims_ok_def)
next
  case (counts_out S ls1 l ls2 res)
  then have "\<not> is_claimed l" by (simp add: is_claimed_def)
  with counts_out show ?case by (simp add: claims_ok_def)
qed (simp_all add: claims_ok_def)

lemma claims_env_step: "env_step S T \<Longrightarrow> claims_ok S \<Longrightarrow> claims_ok T"
  by (induction rule: env_step.induct) (simp_all add: claims_ok_def)

interpretation claims: machine_invariant sys_start sys_step claims_ok
proof
  show "sys_start S \<Longrightarrow> claims_ok S" for S by (simp add: sys_start_def claims_ok_def)
  show "claims_ok S \<Longrightarrow> sys_step S T \<Longrightarrow> claims_ok T" for S T
    by (auto simp: sys_step_def intro: claims_loop_step claims_run_step claims_env_step)
qed

section \<open>What Wait can miss\<close>

lemma nothing_in_flight:
  assumes "reach sys_start sys_step S" and "inflight_may_return (in_flight S)" and "l \<in> set (sy_live S)"
    and "readable (lv_run l)"
  shows "is_claimed l \<and> held_by_loop (sy_loop S) = [lv_run l]"
proof -
  have "filter (\<lambda>l. \<not> is_claimed l \<and> readable (lv_run l)) (sy_live S) = []"
  proof -
    have "length (filter (\<lambda>l. \<not> is_claimed l \<and> readable (lv_run l)) (sy_live S)) = 0"
      using assms(2) unfolding inflight_may_return_def in_flight_eq by linarith
    then show ?thesis by (simp only: length_0_conv)
  qed
  with assms(3,4) have c: "is_claimed l" by (auto simp: filter_empty_conv)
  with assms(3) have "lv_run l \<in> set (map lv_run (filter is_claimed (sy_live S)))" by simp
  with claims.inv_reach [OF assms(1)] have "lv_run l \<in> set (held_by_loop (sy_loop S))" by (simp add: claims_ok_def)
  with c show ?thesis by (auto simp: held_by_loop_def split: loop_pc.splits decision.splits)
qed

text \<open>
  C19: What the shutdown waits for. In every interleaving, when Runner.Wait may return, no run executes:
  the only run that can still be live with a readable payload is the one that the loop has started
  and not yet handed to a goroutine. But that one can be missed: kickd can be stopping and Wait may
  return while the row of such a run is already running, and the loop then hands it to a goroutine, in
  which it executes after the wait, while the agent goes on to record that it stopped and to close the
  database.
\<close>

theorem wait_misses_only_the_claimed:
  "(\<forall>S l. reach sys_start sys_step S \<and> inflight_may_return (in_flight S) \<and> l \<in> set (sy_live S) \<and> readable (lv_run l)
      \<longrightarrow> is_claimed l \<and> held_by_loop (sy_loop S) = [lv_run l])
    \<and> (\<exists>S T l. reach sys_start sys_step S \<and> d_stopping (sy_d S) \<and> inflight_may_return (in_flight S)
      \<and> map_option c_status (find_row 1 (d_db (sy_d S))) = Some StatusRunning
      \<and> loop_step S T \<and> sy_live T = [l] \<and> run_id (lv_run l) = 1 \<and> lv_phase l = Executing \<and> in_flight T = 1)"
proof (intro conjI allI impI)
  fix S l
  assume "reach sys_start sys_step S \<and> inflight_may_return (in_flight S) \<and> l \<in> set (sy_live S) \<and> readable (lv_run l)"
  then show "is_claimed l" "held_by_loop (sy_loop S) = [lv_run l]" using nothing_in_flight by blast+
next
  let ?l = "\<lparr>lv_run = demo_run, lv_spec = demo_runner_spec, lv_phase = Claimed\<rparr>"
  from race_3 obtain S where S: "reach sys_start sys_step S"
    "sy_loop S = Decided demo_run (Started demo_runner_spec) Map.empty []"
    "d_db (sy_d S) = demo_db [demo_running]" "sy_live S = [?l]" "sy_restarts S = []"
    by (auto simp: quiet_at_def)
  have ev: "unmarshal_event (run_payload demo_run) = Some (demo_event ''backup'')" by simp
  let ?S = "S\<lparr>sy_d := stop_runner (sy_d S)\<rparr>"
  let ?T = "?S\<lparr>sy_d := snd (act 0 demo_run (Started demo_runner_spec) (sy_d ?S)), sy_loop := Scanning Map.empty [],
      sy_live := [] @ set_phase Executing ?l # []\<rparr>"
  have r: "reach sys_start sys_step ?S" by (rule reach_env [OF S(1) stops])
  have st: "loop_step ?S ?T" by (rule hands_over [OF _ ev]) (simp_all add: S)
  have "readable demo_run" by (simp add: readable_def ev)
  then have n: "in_flight ?S = 0" "in_flight ?T = 1" by (simp_all add: in_flight_eq S)
  have row: "map_option c_status (find_row 1 (d_db (sy_d ?S))) = Some StatusRunning"
    by (simp add: stop_runner_def S find_row_def)
  have "reach sys_start sys_step ?S \<and> d_stopping (sy_d ?S) \<and> inflight_may_return (in_flight ?S)
      \<and> map_option c_status (find_row 1 (d_db (sy_d ?S))) = Some StatusRunning
      \<and> loop_step ?S ?T \<and> sy_live ?T = [set_phase Executing ?l] \<and> run_id (lv_run (set_phase Executing ?l)) = 1
      \<and> lv_phase (set_phase Executing ?l) = Executing \<and> in_flight ?T = 1"
    using r st n row by (simp add: stop_runner_def inflight_may_return_def set_phase_def)
  then show "\<exists>S T l. reach sys_start sys_step S \<and> d_stopping (sy_d S) \<and> inflight_may_return (in_flight S)
      \<and> map_option c_status (find_row 1 (d_db (sy_d S))) = Some StatusRunning
      \<and> loop_step S T \<and> sy_live T = [l] \<and> run_id (lv_run l) = 1 \<and> lv_phase l = Executing \<and> in_flight T = 1"
    by blast
qed

theorem wait_misses_only_the_claimed_witness:
  "\<exists>S l. reach sys_start sys_step S \<and> sy_live S = [l] \<and> is_claimed l \<and> held_by_loop (sy_loop S) = [lv_run l]"
proof -
  let ?l = "\<lparr>lv_run = demo_run, lv_spec = demo_runner_spec, lv_phase = Claimed\<rparr>"
  from race_3 obtain S where S: "reach sys_start sys_step S" "sy_live S = [?l]" "sy_restarts S = []"
    by (auto simp: quiet_at_def)
  then have "inflight_may_return (in_flight S)" "readable (lv_run ?l)"
    by (simp_all add: in_flight_eq inflight_may_return_def readable_def)
  with wait_misses_only_the_claimed [THEN conjunct1, rule_format, of S ?l] S show ?thesis by auto
qed

end
