(* ===== verification/WebhookRun.thy ===== *)
theory WebhookRun
  imports WebhookProps
begin

text \<open>
  The webhook server around its routes (\<^verbatim>\<open>internal/trigger/webhook.go\<close>): the handler of every request with
  its identifier, the writer that remembers the status, the lines that a request logs, the health
  check, and the life of the server.

  \<open>http.ServeMux\<close> is the argument \<open>mux\<close>: the registered pattern that a request matches, if any; \<open>other\<close>
  is its own reply when none does (not found, a redirect), status and text. \<open>await\<close> is what the wait
  of \<open>RunSync\<close> for a queued run ends with. A log entry here has the attributes of its call; the logger
  adds the trigger, and on the lines of a route the event and the request identifier.
\<close>

section \<open>The response writer\<close>

datatype body_part = Part_json "(string \<times> json_value) list" | Part_text string

text \<open>
  \<open>sw_sent\<close> and \<open>sw_body\<close> are the writer of the library below: the status line that it sent, if any,
  and what was written. It sends the status line once; a first write without one sends 200.
\<close>

record status_writer =
  sw_status :: int
  sw_gone :: bool
  sw_sent :: "int option"
  sw_body :: "body_part list"

definition fresh_writer :: status_writer where
  "fresh_writer = \<lparr>sw_status = 0, sw_gone = False, sw_sent = None, sw_body = []\<rparr>"

definition send_status :: "int \<Rightarrow> status_writer \<Rightarrow> status_writer" where
  "send_status code w = w\<lparr>sw_sent := (case sw_sent w of None \<Rightarrow> Some code | Some c \<Rightarrow> Some c)\<rparr>"

definition sw_WriteHeader :: "int \<Rightarrow> status_writer \<Rightarrow> status_writer" where
  "sw_WriteHeader code w = send_status code (if sw_status w = 0 then w\<lparr>sw_status := code\<rparr> else w)"

definition sw_Write :: "body_part \<Rightarrow> status_writer \<Rightarrow> status_writer" where
  "sw_Write p w =
     (let w1 = send_status 200 (if sw_status w = 0 then w\<lparr>sw_status := 200\<rparr> else w)
      in w1\<lparr>sw_body := sw_body w1 @ [p]\<rparr>)"

definition sw_code :: "status_writer \<Rightarrow> int" where
  "sw_code w = (if sw_gone w then statusClientGone else if sw_status w = 0 then 200 else sw_status w)"

text \<open>What the client sees once the handler has returned: the library sends 200 if nothing was sent.\<close>

definition wire_status :: "status_writer \<Rightarrow> int" where
  "wire_status w = (case sw_sent w of None \<Rightarrow> 200 | Some c \<Rightarrow> c)"

text \<open>An answer of a route on the writer, and the line of a write that fails.\<close>

definition write_answer :: "http_answer \<Rightarrow> status_writer \<Rightarrow> status_writer" where
  "write_answer a w =
     (let w1 = (if ha_gone a then w\<lparr>sw_gone := True\<rparr> else w)
      in case ha_status a of
           None \<Rightarrow> w1
         | Some c \<Rightarrow> sw_Write (Part_json (ha_body a)) (sw_WriteHeader c w1))"

definition write_line :: "string option \<Rightarrow> log_entry list" where
  "write_line failed =
     (case failed of
        None \<Rightarrow> []
      | Some e \<Rightarrow> [\<lparr>le_level = Level_debug, le_msg = ''Response write failed'', le_attrs = [(''errorMessage'', Attr_str e)]\<rparr>])"

section \<open>What a route logs\<close>

definition authMethod :: "webhook_route \<Rightarrow> string" where
  "authMethod r =
     (if wr_token r \<noteq> [] \<and> wr_secret r \<noteq> [] then ''token+signature''
      else if wr_token r \<noteq> [] then ''token''
      else if wr_secret r \<noteq> [] then ''signature''
      else ''none'')"

definition warn_line :: "string \<Rightarrow> (string \<times> attr) list \<Rightarrow> request \<Rightarrow> (string \<times> attr) list \<Rightarrow> log_entry" where
  "warn_line msg before req after =
     \<lparr>le_level = Level_warn, le_msg = msg, le_attrs = before @ [(''method'', Attr_str (rq_method req)),
        (''path'', Attr_str (rq_path req))] @ after\<rparr>"

definition received_line :: "webhook_route \<Rightarrow> request \<Rightarrow> string \<Rightarrow> log_entry" where
  "received_line r req body =
     \<lparr>le_level = Level_info, le_msg = ''Webhook received'', le_attrs =
        [(''method'', Attr_str (rq_method req)), (''path'', Attr_str (rq_path req)),
         (''bytes'', Attr_int (int (length body))), (''authMethod'', Attr_str (authMethod r)),
         (''wait'', Attr_str (if wr_wait r then ''true'' else ''false'')),
         (''remoteAddr'', Attr_str (rq_remote_addr req))]\<rparr>"

text \<open>The line of a request, by the checks of \<open>check_request\<close>; \<open>read_error\<close> is the text of a failed read.\<close>

definition check_line :: "(string \<Rightarrow> string \<Rightarrow> string) \<Rightarrow> int \<Rightarrow> string \<Rightarrow> webhook_route \<Rightarrow> request \<Rightarrow> log_entry" where
  "check_line mac maxBody read_error r req =
     (let from = (''remoteAddr'', Attr_str (rq_remote_addr req)) in
      if wr_methods r \<noteq> [] \<and> rq_method req \<notin> set (map ToUpper (wr_methods r))
      then warn_line ''Webhook rejected'' [(''reason'', Attr_str ''method_not_allowed'')] req [from]
      else (case read_body maxBody req of
        Body_too_large \<Rightarrow> warn_line ''Webhook rejected'' [(''reason'', Attr_str ''body_too_large'')] req
          [(''thresholdBytes'', Attr_int maxBody), from]
      | Body_failed \<Rightarrow> warn_line ''Webhook body read failed'' [] req [from, (''errorMessage'', Attr_str read_error)]
      | Body_ok body \<Rightarrow>
          if wr_token r \<noteq> [] \<and> checkToken req (wr_token r) \<noteq> []
          then warn_line ''Webhook authentication failed''
            [(''reason'', Attr_str (checkToken req (wr_token r))), (''authMethod'', Attr_str ''token'')] req [from]
          else if wr_secret r \<noteq> [] \<and> fst (checkSignature mac req body (wr_secret r)) \<noteq> []
          then (case checkSignature mac req body (wr_secret r) of
            (reason, header) \<Rightarrow> warn_line ''Webhook authentication failed''
              [(''reason'', Attr_str reason), (''authMethod'', Attr_str ''signature'')] req
              (from # (if header \<noteq> [] then [(''header'', Attr_str header)] else [])))
          else (case find (\<lambda>name. map_of (query_data r req) name = None) (wr_required r) of
                  Some name \<Rightarrow> warn_line ''Webhook rejected''
                    [(''reason'', Attr_str ''missing_parameter''), (''detail'', Attr_str name)] req [from]
                | None \<Rightarrow> received_line r req body)))"

section \<open>The handler of every request\<close>

record handled =
  hd_request_id :: string
  hd_writer :: status_writer
  hd_log :: "log_entry list"

definition completed_line :: "string \<Rightarrow> request \<Rightarrow> int \<Rightarrow> duration \<Rightarrow> log_entry" where
  "completed_line rid req status elapsed =
     \<lparr>le_level = (if rq_path req = ''/healthz'' then Level_debug else Level_info),
      le_msg = ''Request completed'', le_attrs =
        [(''requestId'', Attr_str rid), (''method'', Attr_str (rq_method req)), (''path'', Attr_str (rq_path req)),
         (''status'', Attr_int status), (''durationMs'', Attr_int (Milliseconds elapsed)),
         (''remoteAddr'', Attr_str (rq_remote_addr req))]\<rparr>"

text \<open>\<open>write_failed\<close> is the error of the write of the answer, \<open>read_error\<close> that of the body, if they fail.\<close>

record io_outcome =
  io_write_failed :: "string option"
  io_read_error :: string
  io_elapsed :: duration

definition route_handler :: "(event \<Rightarrow> 's \<Rightarrow> dispatch_status \<times> 's) \<Rightarrow> (event \<Rightarrow> 's \<Rightarrow> sync_outcome \<times> 's)
    \<Rightarrow> (int \<Rightarrow> 's \<Rightarrow> sync_outcome \<times> 's) \<Rightarrow> (string \<Rightarrow> string \<Rightarrow> string) \<Rightarrow> int \<Rightarrow> io_outcome \<Rightarrow> string \<Rightarrow> gotime
    \<Rightarrow> webhook_route \<Rightarrow> request \<Rightarrow> 's \<Rightarrow> (status_writer \<times> log_entry list) \<times> 's" where
  "route_handler dispatch run_sync await mac maxBody io rid at r req s =
     (let (a, s2) = (case serve dispatch run_sync mac maxBody rid at r req s of
            (Inl a, s1) \<Rightarrow> (a, s1)
          | (Inr i, s1) \<Rightarrow> (case await i s1 of (out, s2) \<Rightarrow> (wait_answer rid r out, s2)))
      in ((write_answer a fresh_writer, check_line mac maxBody (io_read_error io) r req
             # (if ha_status a = None then [] else write_line (io_write_failed io))), s2))"

definition healthz :: "io_outcome \<Rightarrow> status_writer \<times> log_entry list" where
  "healthz io = (sw_Write (Part_text ''ok\<newline>'') fresh_writer, write_line (io_write_failed io))"

definition mux_reply :: "int \<times> string \<Rightarrow> status_writer \<times> log_entry list" where
  "mux_reply reply = (case reply of (code, text) \<Rightarrow> (sw_Write (Part_text text) (sw_WriteHeader code fresh_writer), []))"

definition Handler :: "(string list \<Rightarrow> request \<Rightarrow> string option) \<Rightarrow> (request \<Rightarrow> int \<times> string)
    \<Rightarrow> (string \<Rightarrow> event \<Rightarrow> 's \<Rightarrow> dispatch_status \<times> 's) \<Rightarrow> (string \<Rightarrow> event \<Rightarrow> 's \<Rightarrow> sync_outcome \<times> 's)
    \<Rightarrow> (int \<Rightarrow> 's \<Rightarrow> sync_outcome \<times> 's) \<Rightarrow> (string \<Rightarrow> string \<Rightarrow> string) \<Rightarrow> webhook_server \<Rightarrow> io_outcome
    \<Rightarrow> string \<Rightarrow> gotime \<Rightarrow> request \<Rightarrow> 's \<Rightarrow> handled \<times> 's" where
  "Handler mux other dispatch run_sync await mac srv io new_id at req s =
     (let rid = requestIDFrom new_id (get_value (rq_headers req) RequestIDHeader);
          ((w, ls), s') = (case mux (''/healthz'' # map wr_path (ws_routes srv)) req of
            None \<Rightarrow> (mux_reply (other req), s)
          | Some p \<Rightarrow>
              if p = ''/healthz'' then (healthz io, s)
              else (case find (\<lambda>r. wr_path r = p) (ws_routes srv) of
                      None \<Rightarrow> (mux_reply (other req), s)
                    | Some r \<Rightarrow> route_handler (dispatch (wr_event r)) (run_sync (wr_event r)) await mac
                                  (ws_max_body srv) io rid at r req s))
      in (\<lparr>hd_request_id = rid, hd_writer = w,
           hd_log = ls @ [completed_line rid req (sw_code w) (io_elapsed io)]\<rparr>, s'))"

section \<open>The life of the server\<close>

text \<open>
  \<open>Run\<close>: \<open>listen\<close> is the address that it got or the error, \<open>served\<close> the error with which \<open>Serve\<close> ended
  (none after a shutdown), \<open>shut\<close> the error of the shutdown that the end of the context starts.
\<close>

definition Run_server :: "string + string \<Rightarrow> string option \<Rightarrow> string option \<Rightarrow> webhook_server
    \<Rightarrow> string option \<times> log_entry list" where
  "Run_server listen served shut srv =
     (case listen of
        Inl e \<Rightarrow> (Some (''webhook listen: '' @ e), [])
      | Inr addr \<Rightarrow>
          (let listening = \<lparr>le_level = Level_info, le_msg = ''Webhook server listening'', le_attrs =
                 [(''listen'', Attr_str addr), (''count'', Attr_int (int (length (ws_routes srv))))]\<rparr>
           in case served of
                Some e \<Rightarrow> (Some (''webhook serve: '' @ e), [listening])
              | None \<Rightarrow> (None, listening #
                  (case shut of
                     None \<Rightarrow> []
                   | Some e \<Rightarrow> [\<lparr>le_level = Level_warn, le_msg = ''Webhook server shutdown incomplete'',
                       le_attrs = [(''listen'', Attr_str addr), (''errorMessage'', Attr_str e)]\<rparr>])
                  @ [\<lparr>le_level = Level_debug, le_msg = ''Webhook server stopped'',
                      le_attrs = [(''listen'', Attr_str addr)]\<rparr>])))"

text \<open>\<open>serverErrorWriter\<close>: the library's own errors, one line each.\<close>

definition server_error_Write :: "string \<Rightarrow> int \<times> log_entry" where
  "server_error_Write p = (int (length p), \<lparr>le_level = Level_warn, le_msg = ''HTTP server error'',
     le_attrs = [(''detail'', Attr_str (TrimSpace p))]\<rparr>)"

definition Len_routes :: "webhook_server \<Rightarrow> int" where
  "Len_routes srv = int (length (ws_routes srv))"

section \<open>One completion line per request\<close>

text \<open>The status that the writer remembers is the one that was sent.\<close>

definition writer_ok :: "status_writer \<Rightarrow> bool" where
  "writer_ok w \<longleftrightarrow> sw_status w = (case sw_sent w of None \<Rightarrow> 0 | Some c \<Rightarrow> c) \<and> sw_sent w \<noteq> Some 0
     \<and> (sw_gone w \<longrightarrow> sw_sent w = None \<and> sw_body w = [])"

lemma writer_fresh [simp, intro]: "writer_ok fresh_writer"
  by (simp add: writer_ok_def fresh_writer_def)

lemma writer_WriteHeader: "code \<noteq> 0 \<Longrightarrow> \<not> sw_gone w \<Longrightarrow> writer_ok w \<Longrightarrow> writer_ok (sw_WriteHeader code w)"
  by (auto simp: writer_ok_def sw_WriteHeader_def send_status_def split: option.splits)

lemma writer_Write: "\<not> sw_gone w \<Longrightarrow> writer_ok w \<Longrightarrow> writer_ok (sw_Write p w)"
  by (auto simp: writer_ok_def sw_Write_def send_status_def Let_def split: option.splits)

lemma writer_gone [simp]: "sw_gone (sw_WriteHeader c w) = sw_gone w" "sw_gone (sw_Write p w) = sw_gone w"
    "\<not> sw_gone fresh_writer"
  by (simp_all add: sw_WriteHeader_def sw_Write_def send_status_def Let_def fresh_writer_def)

lemma writer_code: "writer_ok w \<Longrightarrow> sw_code w = (if sw_gone w then 499 else wire_status w)"
  by (simp add: writer_ok_def sw_code_def wire_status_def statusClientGone_def split: option.splits)

definition answer_ok :: "http_answer \<Rightarrow> bool" where
  "answer_ok a \<longleftrightarrow> (case ha_status a of None \<Rightarrow> True | Some c \<Rightarrow> c \<noteq> 0 \<and> \<not> ha_gone a)"

lemma answer_okI [simp]: "c \<noteq> 0 \<Longrightarrow> answer_ok (writeJSON c kvs)"
  by (simp add: answer_ok_def writeJSON_def)

lemma wait_answer_ok: "answer_ok (wait_answer rid r out)"
  by (cases out) (simp_all add: answer_ok_def writeJSON_def)

lemma check_request_answer: "check_request mac maxBody rid at r req = Inl a \<Longrightarrow> answer_ok a"
  by (auto simp: check_request_def failure_def split: if_splits body_read.splits option.splits)

lemma serve_answer: "serve dispatch run_sync mac maxBody rid at r req s = (Inl a, s') \<Longrightarrow> answer_ok a"
  by (auto simp: serve_def check_request_answer wait_answer_ok dispatch_answer_def simp del: wait_answer.simps
      split: sum.splits if_splits prod.splits sync_outcome.splits dispatch_status.splits)

lemma writer_answer: "answer_ok a \<Longrightarrow> writer_ok (write_answer a fresh_writer)"
  by (auto simp: write_answer_def answer_ok_def Let_def intro!: writer_Write writer_WriteHeader split: option.splits)
    (simp_all add: writer_ok_def fresh_writer_def)

definition completion :: "log_entry \<Rightarrow> bool" where
  "completion l \<longleftrightarrow> le_msg l = ''Request completed''"

lemma other_lines [simp]: "\<not> completion (warn_line ''Webhook rejected'' b req a)"
    "\<not> completion (warn_line ''Webhook body read failed'' b req a)"
    "\<not> completion (warn_line ''Webhook authentication failed'' b req a)"
    "\<not> completion (received_line r req body)" "l \<in> set (write_line e) \<Longrightarrow> \<not> completion l"
  by (auto simp: completion_def warn_line_def received_line_def write_line_def split: option.splits)

lemma check_line_other: "\<not> completion (check_line mac maxBody e r req)"
  by (simp add: check_line_def Let_def split: body_read.split option.split prod.split)

lemma route_handler_ok:
  assumes "route_handler dispatch run_sync await mac maxBody io rid at r req s = ((w, ls), s')"
  shows "writer_ok w \<and> (\<forall>l \<in> set ls. \<not> completion l)"
proof -
  obtain res s1 where sv: "serve dispatch run_sync mac maxBody rid at r req s = (res, s1)" by fastforce
  obtain a where a: "answer_ok a" "w = write_answer a fresh_writer" "ls = check_line mac maxBody (io_read_error io) r req
      # (if ha_status a = None then [] else write_line (io_write_failed io))"
  proof (cases res)
    case (Inl a)
    with sv have "answer_ok a" by (simp add: serve_answer)
    with that [of a] assms sv Inl show ?thesis by (simp add: route_handler_def)
  next
    case (Inr i)
    with that [of "wait_answer rid r (fst (await i s1))"] assms sv show ?thesis
      by (simp add: route_handler_def wait_answer_ok split: prod.splits)
  qed
  then show ?thesis by (auto simp: writer_answer check_line_other)
qed

lemma mux_reply_ok:
  assumes "fst reply \<noteq> 0" and "mux_reply reply = (w, ls)"
  shows "writer_ok w \<and> ls = []"
proof -
  have "writer_ok (sw_Write p (sw_WriteHeader (fst reply) fresh_writer))" for p
    using assms(1) by (intro writer_Write writer_WriteHeader) simp_all
  with assms show ?thesis by (cases reply) (auto simp: mux_reply_def)
qed

lemma healthz_ok: "healthz io = (w, ls) \<Longrightarrow> writer_ok w \<and> (\<forall>l \<in> set ls. \<not> completion l)"
  by (auto simp: healthz_def intro!: writer_Write)

lemma requestIDFrom_safe:
  "new_id \<noteq> [] \<Longrightarrow> length new_id \<le> 128 \<Longrightarrow> list_all id_char new_id \<Longrightarrow>
    requestIDFrom new_id h \<noteq> [] \<and> length (requestIDFrom new_id h) \<le> 128 \<and> list_all id_char (requestIDFrom new_id h)"
  by (auto simp: requestIDFrom_def)

lemma Handler_parts:
  assumes "Handler mux other dispatch run_sync await mac srv io new_id at req s = (h, s')" and "fst (other req) \<noteq> 0"
  obtains ls where "writer_ok (hd_writer h)" "\<forall>l \<in> set ls. \<not> completion l"
    "hd_request_id h = requestIDFrom new_id (get_value (rq_headers req) RequestIDHeader)"
    "hd_log h = ls @ [completed_line (hd_request_id h) req (sw_code (hd_writer h)) (io_elapsed io)]"
proof -
  let ?rid = "requestIDFrom new_id (get_value (rq_headers req) RequestIDHeader)"
  let ?in = "case mux (''/healthz'' # map wr_path (ws_routes srv)) req of
            None \<Rightarrow> (mux_reply (other req), s)
          | Some p \<Rightarrow>
              if p = ''/healthz'' then (healthz io, s)
              else (case find (\<lambda>r. wr_path r = p) (ws_routes srv) of
                      None \<Rightarrow> (mux_reply (other req), s)
                    | Some r \<Rightarrow> route_handler (dispatch (wr_event r)) (run_sync (wr_event r)) await mac
                                  (ws_max_body srv) io ?rid at r req s)"
  obtain y t where y: "?in = (y, t)" by (cases ?in)
  obtain w ls where "y = (w, ls)" by (cases y)
  with y have i: "?in = ((w, ls), t)" by (simp only:)
  have "writer_ok w \<and> (\<forall>l \<in> set ls. \<not> completion l)"
  proof (cases "mux (''/healthz'' # map wr_path (ws_routes srv)) req")
    case None
    with i mux_reply_ok [OF assms(2), of w ls] show ?thesis by simp
  next
    case (Some p)
    show ?thesis
    proof (cases "p = ''/healthz''")
      case True
      with Some i healthz_ok [of io w ls] show ?thesis by simp
    next
      case False
      with Some i mux_reply_ok [OF assms(2), of w ls] show ?thesis
        by (cases "find (\<lambda>r. wr_path r = p) (ws_routes srv)") (simp_all add: route_handler_ok)
    qed
  qed
  moreover have "(\<lparr>hd_request_id = ?rid, hd_writer = w,
      hd_log = ls @ [completed_line ?rid req (sw_code w) (io_elapsed io)]\<rparr>, t) = (h, s')"
    using assms(1) i by (simp only: Handler_def Let_def prod.case)
  then have "h = \<lparr>hd_request_id = ?rid, hd_writer = w,
      hd_log = ls @ [completed_line ?rid req (sw_code w) (io_elapsed io)]\<rparr>" by simp
  ultimately show ?thesis using that [of ls] by simp
qed


section \<open>No credential is logged\<close>

definition fixed_words :: "string list" where
  "fixed_words = [''method_not_allowed'', ''body_too_large'', ''token_missing'', ''token_mismatch'', ''signature_missing'',
      ''signature_mismatch'', ''missing_parameter'', ''token'', ''signature'', ''token+signature'', ''none'',
      ''X-Hub-Signature-256'', ''X-Kickd-Signature'', ''true'', ''false'']"

definition public_words :: "webhook_route \<Rightarrow> request \<Rightarrow> string set" where
  "public_words r req = {rq_method req, rq_path req, rq_remote_addr req} \<union> set (wr_required r) \<union> set fixed_words"

definition attr_words :: "(string \<times> attr) list \<Rightarrow> string set" where
  "attr_words as = {v. Attr_str v \<in> snd ` set as}"

definition words_of :: "log_entry \<Rightarrow> string set" where
  "words_of l = attr_words (le_attrs l)"

lemma attr_words_simps [simp]:
  "attr_words [] = {}" "attr_words ((k, Attr_str v) # as) = insert v (attr_words as)"
  "attr_words ((k, Attr_int i) # as) = attr_words as" "attr_words (as @ bs) = attr_words as \<union> attr_words bs"
  by (auto simp: attr_words_def)

lemma words_of_lines:
  "words_of (warn_line msg b req a) = attr_words b \<union> {rq_method req, rq_path req} \<union> attr_words a"
  "words_of (received_line r req body) = {rq_method req, rq_path req, rq_remote_addr req, authMethod r,
     if wr_wait r then ''true'' else ''false''}"
  by (auto simp: words_of_def warn_line_def received_line_def)

lemma public_intros:
  "rq_method req \<in> public_words r req" "rq_path req \<in> public_words r req" "rq_remote_addr req \<in> public_words r req"
  "n \<in> set (wr_required r) \<Longrightarrow> n \<in> public_words r req"
  by (simp_all add: public_words_def)

lemma public_fixed: "w \<in> set fixed_words \<Longrightarrow> w \<in> public_words r req"
  by (simp add: public_words_def)

lemma public_reasons:
  "''method_not_allowed'' \<in> public_words r req" "''body_too_large'' \<in> public_words r req"
  "''missing_parameter'' \<in> public_words r req" "''token'' \<in> public_words r req" "''signature'' \<in> public_words r req"
  "authMethod r' \<in> public_words r req" "(if b then ''true'' else ''false'') \<in> public_words r req"
  by (rule public_fixed, simp add: fixed_words_def authMethod_def)+

lemma public_token: "checkToken req' t \<noteq> [] \<Longrightarrow> checkToken req' t \<in> public_words r req"
  by (rule public_fixed) (simp add: checkToken_def Let_def fixed_words_def split: if_splits)

lemma public_signature:
  "fst (checkSignature mac req' b t) \<noteq> [] \<Longrightarrow> fst (checkSignature mac req' b t) \<in> public_words r req"
  "snd (checkSignature mac req' b t) \<noteq> [] \<Longrightarrow> snd (checkSignature mac req' b t) \<in> public_words r req"
  by (rule public_fixed, simp add: checkSignature_def Let_def fixed_words_def split: if_splits)+

lemmas public_simps = public_intros public_reasons public_token public_signature

lemma find_Some_in: "find P xs = Some x \<Longrightarrow> x \<in> set xs"
  by (simp add: find_Some_set)

text \<open>
  C18: What a request logs before its completion line reveals no credential: it is a warning exactly when
  the request is rejected, and every text in it is the method, the path or the address of the
  request, the name of a required parameter, the error of a failed read, or one of a fixed set of
  words. No token, signature, secret, header, query value or body reaches the log.
\<close>

theorem webhook_line_reveals_nothing:
  "(le_level (check_line mac maxBody read_error r req) = Level_warn) =
      (\<exists>a. check_request mac maxBody rid at r req = Inl a)
    \<and> words_of (check_line mac maxBody read_error r req) \<subseteq> insert read_error (public_words r req)"
proof
  show "(le_level (check_line mac maxBody read_error r req) = Level_warn) =
      (\<exists>a. check_request mac maxBody rid at r req = Inl a)"
    by (auto simp: check_line_def check_request_def Let_def warn_line_def received_line_def
        split: body_read.splits option.splits prod.splits)
  show "words_of (check_line mac maxBody read_error r req) \<subseteq> insert read_error (public_words r req)"
  proof (cases "read_body maxBody req")
    case (Body_ok body)
    then show ?thesis
      using public_signature [of mac req body "wr_secret r"]
      by (cases "find (\<lambda>name. map_of (query_data r req) name = None) (wr_required r)")
        (simp_all add: check_line_def Let_def words_of_lines public_simps find_Some_in case_prod_beta)
  qed (simp_all add: check_line_def Let_def words_of_lines public_simps)
qed

definition demo_mux :: "string list \<Rightarrow> request \<Rightarrow> string option" where
  "demo_mux patterns req = (if rq_path req \<in> set patterns then Some (rq_path req) else None)"

definition demo_server :: webhook_server where
  "demo_server = \<lparr>ws_addr = ''h'', ws_max_body = 100, ws_routes = [demo_route False]\<rparr>"

definition demo_handled :: "request \<Rightarrow> handled \<times> unit" where
  "demo_handled req = Handler demo_mux (\<lambda>q. (404, ''not found'')) (\<lambda>e ev s. (Dispatch_Queued, s))
     (\<lambda>e ev s. (SyncGone, s)) (\<lambda>i s. (SyncGone, s)) (\<lambda>a b. []) demo_server
     \<lparr>io_write_failed = None, io_read_error = [], io_elapsed = 3000000\<rparr> ''r1'' 0 req ()"

lemma demo_handled_writer: "hd_writer (fst (demo_handled demo_request)) = write_answer
    (dispatch_answer ''r1'' (demo_route False) Dispatch_Queued) fresh_writer"
proof -
  have p: "rq_path demo_request = ''/deploy''" "wr_path (demo_route False) = ''/deploy''" "\<not> wr_wait (demo_route False)"
    by (simp_all add: demo_request_def demo_route_def)
  have m: "demo_mux (''/healthz'' # map wr_path (ws_routes demo_server)) demo_request = Some ''/deploy''"
    "find (\<lambda>r. wr_path r = ''/deploy'') (ws_routes demo_server) = Some (demo_route False)" "ws_max_body demo_server = 100"
    by (simp_all add: demo_mux_def demo_server_def p)
  have sv: "serve (\<lambda>ev s. (Dispatch_Queued, s)) rs (\<lambda>a b. []) 100 ''r1'' 0 (demo_route False) demo_request () =
      (Inl (dispatch_answer ''r1'' (demo_route False) Dispatch_Queued), ())" for rs
    by (simp add: serve_def demo_accept p(3))
  show ?thesis by (simp add: demo_handled_def Handler_def demo_id m route_handler_def sv Let_def)
qed


end
