(* ===== verification/TriggerRuns.thy ===== *)
theory TriggerRuns
  imports CronProps FileProps Wake Runner
begin

text \<open>
  The functions \<open>Run\<close> of the triggers as wholes (\<^verbatim>\<open>internal/trigger/cron.go, file.go, wake.go\<close>): what
  each does before its loop, its loop over what the context, the clocks and the watches give, what it
  logs and how it returns. The adapter \<open>event.HandlerFunc\<close> for the watches of kickd itself.
\<close>

section \<open>Cron\<close>

definition cron_added :: "gotime \<Rightarrow> cron_entry \<Rightarrow> log_entry" where
  "cron_added now e =
     \<lparr>le_level = Level_info, le_msg = ''Cron schedule added'', le_attrs =
        [(''event'', Attr_str (ct_event (ce_trigger e))), (''schedule'', Attr_str (ct_schedule (ce_trigger e))),
         (''nextRunAt'', Attr_int (ce_next e now))]
        @ (if ct_timezone (ce_trigger e) \<noteq> [] then [(''timezone'', Attr_str (ct_timezone (ce_trigger e)))] else [])\<rparr>"

text \<open>
  The loop: each turn has the readings of the clock for the check and for the wait. The result of a
  turn is what it fired or reported, and how long its timer waits; the turns end with the context.
\<close>

fun cron_turns :: "bool \<Rightarrow> (nat \<Rightarrow> string) \<Rightarrow> (nat \<Rightarrow> gotime) \<Rightarrow> (gotime \<times> gotime) list \<Rightarrow> cron_entry list \<Rightarrow> db
    \<Rightarrow> ((cron_out list \<times> duration) list \<times> cron_entry list \<times> db) option" where
  "cron_turns has_state ids clock [] es d = Some ([], es, d)"
| "cron_turns has_state ids clock ((now, later) # turns) es d =
     (case check_cron has_state ids clock now 0 es d of
        None \<Rightarrow> None
      | Some (es', d', out) \<Rightarrow>
          map_option (\<lambda>(outs, es'', d''). ((out, wait_cron later es') # outs, es'', d''))
            (cron_turns has_state ids clock turns es' d'))"

definition Run_cron :: "bool \<Rightarrow> (nat \<Rightarrow> string) \<Rightarrow> (nat \<Rightarrow> gotime) \<Rightarrow> gotime \<Rightarrow> (gotime \<times> gotime) list
    \<Rightarrow> cron_entry list \<Rightarrow> db \<Rightarrow> (log_entry list \<times> (cron_out list \<times> duration) list \<times> cron_entry list \<times> db) option" where
  "Run_cron has_state ids clock start turns es d =
     (case load_all has_state start es d of
        (es1, d1) \<Rightarrow>
          map_option (\<lambda>(outs, es2, d2).
             (map (cron_added start) es1 @ [\<lparr>le_level = Level_debug, le_msg = ''Cron scheduler stopped'',
                le_attrs = [(''count'', Attr_int (int (length es2)))]\<rparr>], outs, es2, d2))
            (cron_turns has_state ids clock turns es1 d1))"

text \<open>Whatever the schedules say, the clock is looked at again within a second, and never without a pause.\<close>

lemma wait_cron_bounds: "millisecond \<le> wait_cron now es \<and> wait_cron now es \<le> maxCronWait"
proof -
  have "foldl (\<lambda>d e. let next = ce_next e (ce_last e) in
      if IsZero next then d else if next - now < d then next - now else d) d0 es \<le> d0" for d0
  proof (induction es arbitrary: d0)
    case (Cons e es)
    let ?n = "ce_next e (ce_last e)"
    let ?d = "if IsZero ?n then d0 else if ?n - now < d0 then ?n - now else d0"
    have "?d \<le> d0" by simp
    with Cons.IH [of ?d] show ?case by (simp only: foldl_Cons Let_def)
  qed simp
  then show ?thesis by (simp add: wait_cron_def maxCronWait_def millisecond_def second_def)
qed

lemma cron_turns_wait:
  "cron_turns has_state ids clock turns es d = Some (outs, es', d') \<Longrightarrow>
    list_all (\<lambda>(out, w). millisecond \<le> w \<and> w \<le> maxCronWait) outs \<and> length outs = length turns"
proof (induction has_state ids clock turns es d arbitrary: outs rule: cron_turns.induct)
  case (2 has_state ids clock now later turns es d)
  then show ?case using wait_cron_bounds by (auto split: option.splits)
qed simp

section \<open>Files\<close>

text \<open>
  \<open>created\<close> is the error of \<open>fsnotify.NewWatcher\<close>, \<open>tree_error\<close> the text of the error with which the
  root cannot be watched. \<open>fi_internal\<close> marks the watches of kickd's own configuration.
\<close>

record file_setup =
  fi_internal :: bool
  fi_created :: "string option"
  fi_tree_error :: string

fun file_turns :: "fs_view \<Rightarrow> file_watcher \<Rightarrow> (string \<times> gotime \<times> file_input) list \<Rightarrow> file_loop
    \<Rightarrow> file_loop \<times> file_out list" where
  "file_turns fv w [] s = (s, [])"
| "file_turns fv w ((rid, at, i) # is) s =
     (case file_turn fv rid at w i s of (s1, out) \<Rightarrow>
        (case file_turns fv w is s1 of (s2, outs) \<Rightarrow> (s2, out @ outs)))"

definition file_started :: "file_setup \<Rightarrow> file_watcher \<Rightarrow> scan \<Rightarrow> log_entry" where
  "file_started fi w sc =
     \<lparr>le_level = (if fi_internal fi then Level_debug else Level_info), le_msg = ''File watch started'', le_attrs =
        [(''file'', Attr_str (fw_root w)), (''recursive'', Attr_str (if fw_recursive w then ''true'' else ''false'')),
         (''debounceMs'', Attr_int (Milliseconds (fw_debounce w))), (''count'', Attr_int (int (length (sc_watched sc))))]\<rparr>"

definition Run_files :: "file_setup \<Rightarrow> fs_view \<Rightarrow> file_watcher \<Rightarrow> (string \<times> gotime \<times> file_input) list
    \<Rightarrow> string option \<times> log_entry list \<times> file_out list" where
  "Run_files fi fv w inputs =
     (case fi_created fi of
        Some e \<Rightarrow> (Some (''file watcher: '' @ e), [], [])
      | None \<Rightarrow>
          (case addTree fv w (fw_root w) of
             (False, sc) \<Rightarrow> (Some (''watch '' @ fw_root w @ '': '' @ fi_tree_error fi), [], [])
           | (True, sc) \<Rightarrow>
               (None, [file_started fi w sc, \<lparr>le_level = Level_debug, le_msg = ''File watch stopped'',
                  le_attrs = [(''file'', Attr_str (fw_root w))]\<rparr>],
                snd (file_turns fv w inputs file_loop_start))))"

lemma Run_files_error: "fst (Run_files fi fv w inputs) \<noteq> None \<longleftrightarrow>
    fi_created fi \<noteq> None \<or> \<not> fst (addTree fv w (fw_root w))"
  by (simp add: Run_files_def split: option.split prod.split bool.split)

section \<open>Wake\<close>

text \<open>The period of the ticks when the watcher sets none.\<close>

definition wake_every :: "duration \<Rightarrow> duration" where
  "wake_every every = (if every = 0 then second else every)"

definition Run_wake :: "(nat \<Rightarrow> string) \<Rightarrow> string list \<Rightarrow> string + duration \<Rightarrow> gotime \<Rightarrow> (gotime \<times> duration option) list
    \<Rightarrow> string option \<times> log_entry list \<times> event list list" where
  "Run_wake ids names slept now ticks =
     (case slept of
        Inl e \<Rightarrow> (Some e, [], [])
      | Inr c \<Rightarrow>
          (None, [\<lparr>le_level = Level_info, le_msg = ''Wake watch started'',
             le_attrs = [(''count'', Attr_int (int (length names)))]\<rparr>],
           wake_run ids names ticks (wake_start now c)))"

section \<open>Handlers that are functions\<close>

text \<open>\<open>HandlerFunc\<close>: the watches of the configuration call a function and never wait for a result.\<close>

definition HandlerFunc_Dispatch :: "(event \<Rightarrow> 's \<Rightarrow> 's) \<Rightarrow> event \<Rightarrow> 's \<Rightarrow> dispatch_status \<times> 's" where
  "HandlerFunc_Dispatch f ev s = (Dispatch_Queued, f ev s)"

definition HandlerFunc_RunSync :: "(event \<Rightarrow> 's \<Rightarrow> 's) \<Rightarrow> event \<Rightarrow> 's \<Rightarrow> (string + result) \<times> 's" where
  "HandlerFunc_RunSync f ev s = (Inr zero_result, f ev s)"

end
