(* ===== verification/StopCommand.thy ===== *)
theory StopCommand
  imports Runner
begin

text \<open>
  What runs beside a command (\<^verbatim>\<open>internal/runner/runner.go\<close>): the stop command of an event, with what it
  logs, and the file that hands the payload of a firing to the command.
\<close>

section \<open>The stop command\<close>

text \<open>How the stop command ended: its exit code when it was started, the error of \<open>Run\<close>, and whether its time was up.\<close>

record stop_child =
  sh_exit :: "int option"
  sh_error :: "string option"
  sh_expired :: bool
  sh_kill_error :: "string option"
  sh_writes :: "string list"
  sh_duration :: duration

definition stop_tail :: "stop_child \<Rightarrow> string" where
  "stop_tail ch = tail_string (fold tail_write (sh_writes ch) new_tail)"

definition stop_attrs :: "duration \<Rightarrow> stop_child \<Rightarrow> (string \<times> attr) list" where
  "stop_attrs grace ch =
     [(''durationMs'', Attr_int (Milliseconds (sh_duration ch)))]
     @ (case sh_exit ch of None \<Rightarrow> [] | Some c \<Rightarrow> [(''exitCode'', Attr_int c)])
     @ (if sh_expired ch then [(''reason'', Attr_str ''timeout''), (''thresholdMs'', Attr_int (Milliseconds grace))]
        else (case sh_error ch of
                None \<Rightarrow> []
              | Some e \<Rightarrow>
                  if sh_exit ch = None then [(''reason'', Attr_str ''start_failed''), (''errorMessage'', Attr_str e)]
                  else [(''reason'', Attr_str ''exit_code'')]))"

definition runStopCommand :: "bool \<Rightarrow> spec \<Rightarrow> duration \<Rightarrow> stop_child \<Rightarrow> log_entry list" where
  "runStopCommand debug sp grace ch =
     [\<lparr>le_level = Level_info, le_msg = ''Stop command started'',
       le_attrs = [(''stopTimeoutMs'', Attr_int (Milliseconds grace))]\<rparr>]
     @ (if debug then [\<lparr>le_level = Level_debug, le_msg = ''Running stop command'',
          le_attrs = [(''command'', Attr_str (Mask (displayCommand (stop_command_spec sp)))),
                      (''workdir'', Attr_str (sp_workdir sp))]\<rparr>] else [])
     @ (case sh_kill_error ch of
          Some e \<Rightarrow> if sh_expired ch
            then [\<lparr>le_level = Level_warn, le_msg = ''Process group kill failed'', le_attrs = [(''errorMessage'', Attr_str e)]\<rparr>]
            else []
        | None \<Rightarrow> [])
     @ (if sh_error ch \<noteq> None then
          [\<lparr>le_level = Level_warn, le_msg = ''Stop command failed'', le_attrs = stop_attrs grace ch @
             (if stop_tail ch \<noteq> [] then [(''stderrTail'', Attr_str (Mask (stop_tail ch)))] else [])\<rparr>]
        else [\<lparr>le_level = Level_info, le_msg = ''Stop command completed'', le_attrs = stop_attrs grace ch\<rparr>])"

section \<open>The payload file\<close>

text \<open>
  \<open>CreateTemp\<close> gives a name or an error, and the write and the close may fail. The files are those of the
  directory for temporary files with their content; \<open>removable\<close> says whether a file can be removed.
\<close>

record temp_calls =
  tc_create :: "string + string"
  tc_write :: "string option"
  tc_close :: "string option"
  tc_removable :: bool

definition remove_file :: "temp_calls \<Rightarrow> string \<Rightarrow> (string \<rightharpoonup> payload) \<Rightarrow> (string \<rightharpoonup> payload)" where
  "remove_file tc f files = (if tc_removable tc then files(f := None) else files)"

definition writeEventFile :: "temp_calls \<Rightarrow> payload \<Rightarrow> (string \<rightharpoonup> payload) \<Rightarrow> (string + string) \<times> (string \<rightharpoonup> payload)" where
  "writeEventFile tc pl files =
     (case tc_create tc of
        Inl e \<Rightarrow> (Inl e, files)
      | Inr f \<Rightarrow>
          (case tc_write tc of
             Some e \<Rightarrow> (Inl e, remove_file tc f (files(f \<mapsto> pl)))
           | None \<Rightarrow>
               (case tc_close tc of
                  Some e \<Rightarrow> (Inl e, remove_file tc f (files(f \<mapsto> pl)))
                | None \<Rightarrow> (Inr f, files(f \<mapsto> pl)))))"

text \<open>A payload is left behind only for the command, as long as files can be removed.\<close>

lemma writeEventFile_leaves_nothing:
  assumes "writeEventFile tc pl files = (r, files')" and "tc_removable tc"
    and "\<And>f. tc_create tc = Inr f \<Longrightarrow> files f = None"
  shows "files' = (case r of Inl e \<Rightarrow> files | Inr f \<Rightarrow> files(f \<mapsto> pl))"
proof (cases "tc_create tc")
  case (Inl e)
  with assms(1) show ?thesis by (simp add: writeEventFile_def Inl) auto
next
  case (Inr f)
  with assms(3) have "files(f := None) = files" by (auto simp: fun_upd_idem)
  with assms(1,2) show ?thesis
    by (simp add: writeEventFile_def remove_file_def Inr split: option.splits sum.splits) auto
qed

end
