(* ===== verification/RunnerLife.thy ===== *)
theory RunnerLife
  imports StopCommand
begin

text \<open>
  The runner as an object (\<^verbatim>\<open>internal/runner/runner.go\<close>): what \<open>New\<close> makes, what the agent reads from it,
  and the count of the commands in flight around a run that the caller waits for (\<open>Execute\<close>) and around
  one with a goroutine of its own (\<open>spawn\<close>).
\<close>

section \<open>The runner\<close>

record runner =
  rr_inflight :: int
  rr_outputs :: out_files
  rr_stats :: stats

definition New_runner :: runner where
  "New_runner = \<lparr>rr_inflight = 0,
     rr_outputs = \<lparr>of_open = Map.empty, of_refs = (\<lambda>h. 0), of_next = 0, of_closed = []\<rparr>, rr_stats = zero_stats\<rparr>"

definition Stats :: "runner \<Rightarrow> stats" where
  "Stats r = \<lparr>st_processed = st_processed (rr_stats r), st_succeeded = st_succeeded (rr_stats r),
     st_failed = st_failed (rr_stats r), st_canceled = st_canceled (rr_stats r),
     st_interrupted = st_interrupted (rr_stats r), st_skipped = st_skipped (rr_stats r),
     st_dropped = st_dropped (rr_stats r)\<rparr>"

definition InFlight :: "runner \<Rightarrow> int" where
  "InFlight r = rr_inflight r"

definition count_inflight :: "int \<Rightarrow> runner \<Rightarrow> runner" where
  "count_inflight n r = r\<lparr>rr_inflight := inflight_add n (rr_inflight r)\<rparr>"

text \<open>A run as the runner sees it: what \<open>execute\<close> gives for the counters it finds.\<close>

type_synonym run_body = "stats \<Rightarrow> result \<times> log_entry list \<times> stats"

definition body_of :: "run_body \<Rightarrow> runner \<Rightarrow> result \<times> log_entry list \<times> runner" where
  "body_of f r = (case f (rr_stats r) of (res, ls, st) \<Rightarrow> (res, ls, r\<lparr>rr_stats := st\<rparr>))"

text \<open>\<open>Execute\<close>, with \<open>args\<close> the outside of the run; the run has no summary keys.\<close>

definition Execute :: "((string \<times> attr) list \<Rightarrow> run_body) \<Rightarrow> runner \<Rightarrow> result \<times> log_entry list \<times> runner" where
  "Execute run r =
     (case body_of (run []) (count_inflight 1 r) of (res, ls, r') \<Rightarrow> (res, ls, count_inflight (- 1) r'))"

text \<open>
  \<open>spawn\<close> counts the run before it returns; the goroutine runs it, calls \<open>finished\<close> (the parameter \<open>done\<close>,
  which may be \<open>nil\<close>), and counts it out after that.
\<close>

definition spawn :: "runner \<Rightarrow> runner" where
  "spawn r = count_inflight 1 r"

definition spawned :: "run_body \<Rightarrow> (result \<Rightarrow> runner \<Rightarrow> runner) option \<Rightarrow> runner \<Rightarrow> log_entry list \<times> runner" where
  "spawned run finished r =
     (case body_of run r of (res, ls, r1) \<Rightarrow>
        (ls, count_inflight (- 1) (case finished of None \<Rightarrow> r1 | Some f \<Rightarrow> f res r1)))"

text \<open>Whatever a run does, the count is one higher while it lasts and as before when it is over.\<close>

lemma Execute_balanced: "Execute run r = (res, ls, r') \<Longrightarrow> InFlight r' = InFlight r"
  by (auto simp: Execute_def body_of_def count_inflight_def inflight_add_def InFlight_def split: prod.splits)

lemma spawned_balanced:
  assumes "spawned run finished (spawn r) = (ls, r')"
    and "\<And>f res r. finished = Some f \<Longrightarrow> InFlight (f res r) = InFlight r"
  shows "InFlight r' = InFlight r \<and> InFlight (spawn r) = InFlight r + 1"
  using assms by (auto simp: spawned_def spawn_def body_of_def count_inflight_def inflight_add_def InFlight_def
      split: prod.splits option.splits)

section \<open>The small writers\<close>

text \<open>\<open>rotationReport\<close> turns the report of a failed rotation into a line of the log; \<open>tailWriter\<close> keeps the last lines.\<close>

definition rotationReport_Write :: "string \<Rightarrow> string \<Rightarrow> log_entry \<times> int" where
  "rotationReport_Write file p =
     (\<lparr>le_level = Level_warn, le_msg = ''Output rotation failed'',
        le_attrs = [(''file'', Attr_str file), (''detail'', Attr_str (TrimSpace p))]\<rparr>, int (length p))"

definition tailWriter_Write :: "string \<Rightarrow> tail_buffer \<Rightarrow> tail_buffer \<times> int" where
  "tailWriter_Write p t = (tail_write p t, int (length p))"

lemma stop_tail_writes: "stop_tail ch = tail_string (fold (\<lambda>p t. fst (tailWriter_Write p t)) (sh_writes ch) new_tail)"
  by (simp add: stop_tail_def tailWriter_Write_def)

end
