(* ===== verification/Opening.thy ===== *)
theory Opening
  imports StoreSpecs "HOL-Library.Word"
begin

text \<open>
  Opening the database (\<open>Open\<close> in \<^verbatim>\<open>internal/queue/store.go\<close>): the file and its permissions, the migration that
  is retried while another process holds the database, and the permissions of the files next to it.

  Permissions are the nine bits of a Unix mode. \<open>modes\<close> gives those of the files that exist. What SQLite and
  the operating system decide is in \<open>open_call\<close>: which calls fail, the umask, how an error looks, and what files SQLite
  has made next to the database once its schema is there.
\<close>

unbundle bit_operations_syntax

section \<open>Permissions\<close>

type_synonym perm = "9 word"
type_synonym modes = "string \<rightharpoonup> perm"

record sql_failure =
  sf_code :: "int option"
  sf_text :: string

record open_call =
  op_windows :: bool
  op_abs :: "string + string"
  op_mkdir :: "string option"
  op_create :: "string option"
  op_umask :: perm
  op_connect :: "string option"
  op_failure :: "db_error \<Rightarrow> sql_failure"
  op_side_files :: "string \<Rightarrow> modes \<Rightarrow> modes"
  op_chmod :: "string \<Rightarrow> bool"

definition owner_only :: perm where "owner_only = 0x180"

definition side_suffixes :: "string list" where "side_suffixes = [''-wal'', ''-shm'']"

definition tighten :: "open_call \<Rightarrow> perm \<Rightarrow> string \<Rightarrow> modes \<Rightarrow> modes" where
  "tighten op want p m =
     (case m p of
        None \<Rightarrow> m
      | Some side \<Rightarrow> if side AND NOT want \<noteq> 0 \<and> op_chmod op p then m(p \<mapsto> want) else m)"

definition tightenSidecars :: "open_call \<Rightarrow> string \<Rightarrow> modes \<Rightarrow> modes" where
  "tightenSidecars op db m =
     (if op_windows op then m
      else (case m db of
              None \<Rightarrow> m
            | Some want \<Rightarrow> fold (\<lambda>suffix. tighten op want (db @ suffix)) side_suffixes m))"

section \<open>Open\<close>

definition Contains :: "string \<Rightarrow> string \<Rightarrow> bool" where
  "Contains s sub \<longleftrightarrow> list_ex (\<lambda>i. HasPrefix (drop i s) sub) [0..<Suc (length s)]"

definition isBusy :: "sql_failure \<Rightarrow> bool" where
  "isBusy e = (case sf_code e of Some c \<Rightarrow> c mod 256 = 5 | None \<Rightarrow> Contains (sf_text e) ''SQLITE_BUSY'')"

text \<open>
  One turn of the loop: what the statements of the migration meet, and whether the 30 seconds had passed after it.
  \<open>None\<close> while the loop goes on.
\<close>

fun migrate_retry :: "open_call \<Rightarrow> (db_error option list \<times> bool) list \<Rightarrow> db \<Rightarrow> ((db_error + unit) \<times> db) option" where
  "migrate_retry op [] d = None"
| "migrate_retry op ((fs, expired) # turns) d =
     (case migrate (d\<lparr>faults := fs\<rparr>) of
        (Inr u, d') \<Rightarrow> Some (Inr u, d')
      | (Inl e, d') \<Rightarrow>
          if \<not> isBusy (op_failure op e) \<or> expired then Some (Inl e, d') else migrate_retry op turns d')"

definition created :: "open_call \<Rightarrow> string \<Rightarrow> modes \<Rightarrow> modes" where
  "created op path m = (if m path = None then m(path \<mapsto> owner_only AND NOT (op_umask op)) else m)"

definition Open_store :: "open_call \<Rightarrow> (db_error option list \<times> bool) list \<Rightarrow> db \<Rightarrow> modes
    \<Rightarrow> ((string + string) \<times> db \<times> modes) option" where
  "Open_store op turns d m =
     (case op_abs op of
        Inl e \<Rightarrow> Some (Inl e, d, m)
      | Inr path \<Rightarrow>
          (case op_mkdir op of
             Some e \<Rightarrow> Some (Inl e, d, m)
           | None \<Rightarrow>
               (case (if m path = None then op_create op else None) of
                  Some e \<Rightarrow> Some (Inl e, d, m)
                | None \<Rightarrow>
                    (case op_connect op of
                       Some e \<Rightarrow> Some (Inl e, d, created op path m)
                     | None \<Rightarrow>
                         (case migrate_retry op turns d of
                            None \<Rightarrow> None
                          | Some (Inl e, d') \<Rightarrow>
                              Some (Inl (''queue '' @ path @ '': '' @ sf_text (op_failure op e)), d',
                                op_side_files op path (created op path m))
                          | Some (Inr u, d') \<Rightarrow>
                              Some (Inr path, d', tightenSidecars op path (op_side_files op path (created op path m))))))))"

section \<open>What an open database is\<close>

lemma migrate_retry_end:
  assumes "migrate_retry op turns d = Some (res, d')"
  shows "case res of
      Inl e \<Rightarrow> same_tables d d' \<and> (isBusy (op_failure op e) \<longrightarrow> list_ex snd turns)
    | Inr u \<Rightarrow> user_version d' = 5"
  using assms
proof (induction op turns d rule: migrate_retry.induct)
  case (2 op fs expired turns d)
  obtain r d1 where m: "migrate (d\<lparr>faults := fs\<rparr>) = (r, d1)" by fastforce
  from migrate_effect [OF m] "2.prems" show ?case
  proof (cases r)
    case (Inl e)
    with migrate_effect [OF m] have same: "same_tables d d1" by simp
    show ?thesis
    proof (cases "\<not> isBusy (op_failure op e) \<or> expired")
      case True
      with "2.prems" m Inl same show ?thesis by auto
    next
      case False
      with "2.prems" m Inl have "migrate_retry op turns d1 = Some (res, d')" by simp
      from "2.IH" [OF m [symmetric] Inl] False this same show ?thesis
        by (auto split: sum.splits intro: same_tables_trans)
    qed
  qed (use m in auto)
qed simp

text \<open>The loop ends: at the latest with the first turn that ends after the 30 seconds.\<close>

lemma migrate_retry_returns: "list_ex snd turns \<Longrightarrow> \<exists>x. migrate_retry op turns d = Some x"
  by (induction op turns d rule: migrate_retry.induct) (auto split: prod.splits sum.splits)

lemma tighten_other: "p \<noteq> q \<Longrightarrow> tighten op want p m q = m q"
  by (simp add: tighten_def split: option.splits)

lemma tighten_narrow:
  "tighten op want p m p = Some side \<Longrightarrow> op_chmod op p \<Longrightarrow> side AND NOT want = 0"
  by (auto simp: tighten_def split: option.splits if_splits)

definition private_files :: "open_call \<Rightarrow> string \<Rightarrow> modes \<Rightarrow> bool" where
  "private_files op path m \<longleftrightarrow>
     (case m path of
        None \<Rightarrow> False
      | Some want \<Rightarrow> list_all (\<lambda>suffix. case m (path @ suffix) of
            None \<Rightarrow> True | Some side \<Rightarrow> side AND NOT want = 0 \<or> \<not> op_chmod op (path @ suffix)) [''-wal'', ''-shm''])"

lemma tightenSidecars_private:
  assumes "\<not> op_windows op" and "m path = Some want"
  shows "private_files op path (tightenSidecars op path m) \<and> tightenSidecars op path m path = Some want"
  using assms
  by (auto simp: private_files_def tightenSidecars_def side_suffixes_def tighten_other split: option.splits
      dest: tighten_narrow)


text \<open>A database of an old version whose side file everybody can read.\<close>

definition demo_open :: open_call where
  "demo_open = \<lparr>op_windows = False, op_abs = Inr ''/k.db'', op_mkdir = None, op_create = None, op_umask = 0x12,
     op_connect = None, op_failure = (\<lambda>e. \<lparr>sf_code = Some 5, sf_text = ''busy''\<rparr>),
     op_side_files = (\<lambda>path m. m), op_chmod = (\<lambda>p. True)\<rparr>"


end
