(* ===== verification/AgentRun.thy ===== *)
theory AgentRun
  imports AgentProps Opening
begin

text \<open>
  The parts of the agent around its loop (\<^verbatim>\<open>internal/agent/agent.go\<close>): opening the database, the requests for a
  reload, the wait for a change with what it logs, and the lines of a shutdown.
\<close>

section \<open>Opening the database\<close>

text \<open>\<open>openQueue\<close>: the queued runs are counted once, with the statements that \<open>count_faults\<close> lets fail.\<close>

definition openQueue :: "open_call \<Rightarrow> (db_error option list \<times> bool) list \<Rightarrow> db_error option list \<Rightarrow> db \<Rightarrow> modes
    \<Rightarrow> ((string + log_entry) \<times> db \<times> modes) option" where
  "openQueue op turns count_faults d m =
     (case Open_store op turns d m of
        None \<Rightarrow> None
      | Some (Inl e, d', m') \<Rightarrow> Some (Inl e, d', m')
      | Some (Inr path, d', m') \<Rightarrow>
          (case Counts (d'\<lparr>faults := count_faults\<rparr>) of
             (Inl e, d'') \<Rightarrow> Some (Inl (sf_text (op_failure op e)), d'', m')
           | (Inr (queued, running), d'') \<Rightarrow>
               Some (Inr \<lparr>le_level = Level_info, le_msg = ''Database opened'',
                 le_attrs = [(''file'', Attr_str path), (''count'', Attr_int queued)]\<rparr>, d'', m')))"

section \<open>Reloads\<close>

text \<open>The channel of requests holds one; a request while one waits is dropped.\<close>

definition requestReload :: "string \<Rightarrow> string option \<Rightarrow> string option" where
  "requestReload reason waiting = (case waiting of None \<Rightarrow> Some reason | Some r \<Rightarrow> Some r)"

datatype agent_change = Ctx_done | Trigger_error string | Reload_request string "string + config"

text \<open>What \<open>waitForChange\<close> returns: a configuration, an error of a trigger, or nothing on shutdown.\<close>

fun waitForChange :: "string \<Rightarrow> agent_change list \<Rightarrow> (string option + config) option \<times> log_entry list" where
  "waitForChange path [] = (None, [])"
| "waitForChange path (Ctx_done # cs) = (Some (Inl None), [])"
| "waitForChange path (Trigger_error e # cs) = (Some (Inl (Some e)), [])"
| "waitForChange path (Reload_request reason r # cs) =
     (let requested = \<lparr>le_level = Level_info, le_msg = ''Config reload requested'', le_attrs = [(''reason'', Attr_str reason)]\<rparr> in
      case r of
        Inr next \<Rightarrow> (Some (Inr next), [requested])
      | Inl e \<Rightarrow>
          (case waitForChange path cs of (res, ls) \<Rightarrow>
             (res, requested # \<lparr>le_level = Level_error, le_msg = ''Config reload failed'', le_attrs =
                [(''file'', Attr_str path), (''errorMessage'', Attr_str e), (''detail'', Attr_str ''the previous config stays in effect'')]\<rparr> # ls)))"

text \<open>Without triggers there is no channel of trigger errors.\<close>

definition is_trigger_error :: "agent_change \<Rightarrow> bool" where
  "is_trigger_error c = (case c of Trigger_error e \<Rightarrow> True | _ \<Rightarrow> False)"

definition waitForValidConfig :: "string \<Rightarrow> agent_change list \<Rightarrow> config option option" where
  "waitForValidConfig path cs =
     map_option (\<lambda>r. case r of Inr next \<Rightarrow> Some next | Inl e \<Rightarrow> None)
       (fst (waitForChange path (filter (\<lambda>c. \<not> is_trigger_error c) cs)))"

fun input_of :: "agent_change \<Rightarrow> agent_input" where
  "input_of Ctx_done = Shutdown_requested"
| "input_of (Trigger_error e) = Trigger_failed"
| "input_of (Reload_request reason r) = Reloaded r"

text \<open>The wait and the turns of the agent agree: invalid configurations change nothing, and the change that ends the wait is the last turn.\<close>

lemma wait_is_turns:
  assumes "kd_phase k = With_triggers" and "fst (waitForChange path cs) = Some r"
  shows "\<exists>n. fold (agent_turn parse) (map input_of (take n cs)) k =
    (case r of Inl None \<Rightarrow> agent_turn parse Shutdown_requested k
     | Inl (Some e) \<Rightarrow> agent_turn parse Trigger_failed k
     | Inr c \<Rightarrow> switch_config parse c k)"
  using assms(2)
proof (induction path cs rule: waitForChange.induct)
  case (4 path reason x cs)
  show ?case
  proof (cases x)
    case (Inl e)
    with 4 obtain n where "fold (agent_turn parse) (map input_of (take n cs)) k =
      (case r of Inl None \<Rightarrow> agent_turn parse Shutdown_requested k
       | Inl (Some e) \<Rightarrow> agent_turn parse Trigger_failed k
       | Inr c \<Rightarrow> switch_config parse c k)"
      by (auto simp: Let_def split: prod.splits)
    with Inl assms(1) show ?thesis by (intro exI [of _ "Suc n"]) simp
  next
    case (Inr c)
    with 4 assms(1) show ?thesis by (intro exI [of _ 1]) (auto simp: Let_def)
  qed
qed (auto intro: exI [of _ 1])

section \<open>Shutdown\<close>

datatype stop_cause = Signal_cause string | Service_stop | Other_cause

definition causeAttrs :: "stop_cause \<Rightarrow> (string \<times> attr) list" where
  "causeAttrs c =
     (case c of
        Signal_cause name \<Rightarrow> [(''signal'', Attr_str name)]
      | Service_stop \<Rightarrow> [(''reason'', Attr_str ''service_stop'')]
      | Other_cause \<Rightarrow> [(''reason'', Attr_str ''context_canceled'')])"

definition logStopped :: "duration \<Rightarrow> stats \<Rightarrow> log_entry" where
  "logStopped uptime st =
     \<lparr>le_level = Level_info, le_msg = ''Agent stopped'', le_attrs =
        [(''uptimeSec'', Attr_int (trunc_div uptime second)), (''processed'', Attr_int (st_processed st)),
         (''succeeded'', Attr_int (st_succeeded st)), (''failed'', Attr_int (st_failed st)),
         (''skipped'', Attr_int (st_skipped st + st_dropped st))]
        @ (if st_canceled st > 0 then [(''canceled'', Attr_int (st_canceled st))] else [])
        @ (if st_interrupted st > 0 then [(''interrupted'', Attr_int (st_interrupted st))] else [])\<rparr>"

text \<open>\<open>shutdown\<close>: the agent's row says that it stopped, or the log says that this could not be recorded.\<close>

definition shutdown :: "gotime \<Rightarrow> string \<Rightarrow> (db_error \<Rightarrow> string) \<Rightarrow> stop_cause \<Rightarrow> int \<Rightarrow> duration \<Rightarrow> stats \<Rightarrow> db \<Rightarrow> log_entry list \<times> db" where
  "shutdown now path text_of cause in_flight uptime st d =
     (case AgentStopped now d of (r, d') \<Rightarrow>
       ([\<lparr>le_level = Level_info, le_msg = ''Agent stopping'',
          le_attrs = (''inFlightJobs'', Attr_int in_flight) # causeAttrs cause\<rparr>]
        @ (case r of Inr u \<Rightarrow> []
           | Inl e \<Rightarrow> [\<lparr>le_level = Level_warn, le_msg = ''Database operation failed'', le_attrs =
               [(''detail'', Attr_str ''agent_stopped''), (''file'', Attr_str path), (''errorMessage'', Attr_str (text_of e))]\<rparr>])
        @ [logStopped uptime st], d'))"

end
