(* ===== verification/AgentWhole.thy ===== *)
theory AgentWhole
  imports AgentRun ConfigLoad
begin

text \<open>
  The agent as a whole (\<^verbatim>\<open>internal/agent/agent.go\<close>): the goroutines of the triggers and the channel of
  their errors, and \<open>Run\<close> from the load of the configuration to its return, with the lines it logs.
\<close>

section \<open>The goroutines of the triggers\<close>

text \<open>The runnables of a configuration, by name, in the order in which they start.\<close>

definition runnables :: "started \<Rightarrow> string list" where
  "runnables sg =
     map (\<lambda>w. KindFile) (sg_files sg) @ (if sg_wakes sg \<noteq> [] then [KindWake] else [])
     @ (if sg_cron sg \<noteq> [] then [KindCron] else []) @ (case sg_hook sg of None \<Rightarrow> [] | Some srv \<Rightarrow> [KindWebhook])"

text \<open>How the function of a trigger ends: without an error, with one, or by a panic.\<close>

datatype trigger_exit = Exit_ok | Exit_error string | Exit_panic string

datatype trigger_phase = Trigger_runs | Trigger_sends string | Trigger_done

definition exit_phase :: "string \<Rightarrow> trigger_exit \<Rightarrow> trigger_phase" where
  "exit_phase name x =
     (case x of
        Exit_ok \<Rightarrow> Trigger_done
      | Exit_error e \<Rightarrow> Trigger_sends e
      | Exit_panic p \<Rightarrow> Trigger_sends (name @ '' trigger panicked: '' @ p))"

definition exit_lines :: "string \<Rightarrow> trigger_exit \<Rightarrow> log_entry list" where
  "exit_lines name x =
     (case x of
        Exit_panic p \<Rightarrow> [\<lparr>le_level = Level_error, le_msg = ''Trigger panicked'',
          le_attrs = [(''trigger'', Attr_str name), (''panic'', Attr_str p)]\<rparr>]
      | _ \<Rightarrow> [])"

text \<open>
  \<open>tg_chan\<close> is \<open>errCh\<close>, whose capacity is one more than the runnables; \<open>tg_received\<close> what the wait
  for a change took from it; \<open>tg_stopped\<close> that \<open>stop\<close> has canceled the context of the triggers.
\<close>

record trigger_group =
  tg_names :: "string list"
  tg_phase :: "trigger_phase list"
  tg_chan :: "string list"
  tg_received :: "string list"
  tg_stopped :: bool

definition capacity :: "trigger_group \<Rightarrow> nat" where
  "capacity g = length (tg_names g) + 1"

definition group_of :: "started \<Rightarrow> trigger_group" where
  "group_of sg = \<lparr>tg_names = runnables sg, tg_phase = replicate (length (runnables sg)) Trigger_runs,
     tg_chan = [], tg_received = [], tg_stopped = False\<rparr>"

definition trigger_exits :: "nat \<Rightarrow> trigger_exit \<Rightarrow> trigger_group \<Rightarrow> trigger_group" where
  "trigger_exits i x g = g\<lparr>tg_phase := (tg_phase g)[i := exit_phase (tg_names g ! i) x]\<rparr>"

definition trigger_sent :: "nat \<Rightarrow> string \<Rightarrow> trigger_group \<Rightarrow> trigger_group" where
  "trigger_sent i e g = g\<lparr>tg_phase := (tg_phase g)[i := Trigger_done], tg_chan := tg_chan g @ [e]\<rparr>"

inductive group_step :: "trigger_group \<Rightarrow> trigger_group \<Rightarrow> bool" where
  group_exit: "i < length (tg_phase g) \<Longrightarrow> tg_phase g ! i = Trigger_runs \<Longrightarrow> group_step g (trigger_exits i x g)"
| group_send: "i < length (tg_phase g) \<Longrightarrow> tg_phase g ! i = Trigger_sends e \<Longrightarrow> length (tg_chan g) < capacity g
    \<Longrightarrow> group_step g (trigger_sent i e g)"
| group_receive: "tg_chan g = e # es \<Longrightarrow> group_step g (g\<lparr>tg_chan := es, tg_received := tg_received g @ [e]\<rparr>)"
| group_stop: "group_step g (g\<lparr>tg_stopped := True\<rparr>)"

text \<open>\<open>stop\<close> cancels and waits: it returns once every goroutine is done.\<close>

definition stop_returns :: "trigger_group \<Rightarrow> bool" where
  "stop_returns g \<longleftrightarrow> tg_stopped g \<and> list_all (\<lambda>p. p = Trigger_done) (tg_phase g)"

section \<open>No goroutine of a trigger ever blocks on its error\<close>

definition done_count :: "trigger_group \<Rightarrow> nat" where
  "done_count g = length (filter (\<lambda>p. p = Trigger_done) (tg_phase g))"

definition group_inv :: "trigger_group \<Rightarrow> bool" where
  "group_inv g \<longleftrightarrow> length (tg_phase g) = length (tg_names g)
     \<and> length (tg_received g) + length (tg_chan g) \<le> done_count g"

lemma count_update:
  assumes "i < length ps" and "ps ! i \<noteq> Trigger_done"
  shows "length (filter (\<lambda>p. p = Trigger_done) (ps[i := q])) =
    length (filter (\<lambda>p. p = Trigger_done) ps) + (if q = Trigger_done then 1 else 0)"
  using assms
proof (induction ps arbitrary: i)
  case (Cons p ps)
  then show ?case by (cases i) auto
qed simp

lemma open_update: "i < length ps \<Longrightarrow> ps ! i \<noteq> Trigger_done \<Longrightarrow>
    length (filter (\<lambda>p. p \<noteq> Trigger_done) (ps[i := Trigger_done])) < length (filter (\<lambda>p. p \<noteq> Trigger_done) ps)"
proof (induction ps arbitrary: i)
  case (Cons p ps)
  then show ?case by (cases i) auto
qed simp

lemma group_inv_step: "group_inv g \<Longrightarrow> group_step g g' \<Longrightarrow> group_inv g'"
proof (erule group_step.cases)
  fix i h x assume "group_inv g" "g = h" "g' = trigger_exits i x h" "i < length (tg_phase h)"
    "tg_phase h ! i = Trigger_runs"
  then show ?thesis by (auto simp: group_inv_def trigger_exits_def done_count_def count_update)
next
  fix i h e assume "group_inv g" "g = h" "g' = trigger_sent i e h" "i < length (tg_phase h)"
    "tg_phase h ! i = Trigger_sends e"
  then show ?thesis by (auto simp: group_inv_def trigger_sent_def done_count_def count_update)
qed (auto simp: group_inv_def done_count_def)

definition group_starts :: "started \<Rightarrow> trigger_group \<Rightarrow> bool" where
  "group_starts sg g \<longleftrightarrow> g = group_of sg"

interpretation tg: machine_invariant "group_starts sg" group_step group_inv for sg
proof
  show "group_starts sg g \<Longrightarrow> group_inv g" for g by (simp add: group_starts_def group_of_def group_inv_def)
qed (rule group_inv_step)

lemma send_has_room:
  assumes "group_inv g" and "i < length (tg_phase g)" and "tg_phase g ! i = Trigger_sends e"
  shows "length (tg_chan g) < capacity g"
proof -
  have "done_count g \<le> length (tg_phase g)" by (simp add: done_count_def)
  with assms show ?thesis by (simp add: group_inv_def capacity_def)
qed

lemma stop_can_return:
  assumes "group_inv g" and "list_all (\<lambda>p. p \<noteq> Trigger_runs) (tg_phase g)"
  shows "\<exists>g'. group_step\<^sup>*\<^sup>* g g' \<and> stop_returns g'"
  using assms
proof (induction "length (filter (\<lambda>p. p \<noteq> Trigger_done) (tg_phase g))" arbitrary: g rule: less_induct)
  case less
  show ?case
  proof (cases "list_all (\<lambda>p. p = Trigger_done) (tg_phase g)")
    case True
    then have "stop_returns (g\<lparr>tg_stopped := True\<rparr>)" by (simp add: stop_returns_def)
    with group_stop show ?thesis by blast
  next
    case False
    then obtain i where i: "i < length (tg_phase g)" "tg_phase g ! i \<noteq> Trigger_done"
      by (auto simp: list_all_length)
    with less.prems(2) obtain e where e: "tg_phase g ! i = Trigger_sends e"
      by (cases "tg_phase g ! i") (auto simp: list_all_length)
    let ?g = "trigger_sent i e g"
    have st: "group_step g ?g" using i(1) e send_has_room [OF less.prems(1) i(1) e] by (rule group_send)
    have "length (filter (\<lambda>p. p \<noteq> Trigger_done) (tg_phase ?g)) < length (filter (\<lambda>p. p \<noteq> Trigger_done) (tg_phase g))"
      using i by (simp add: trigger_sent_def open_update)
    moreover have "list_all (\<lambda>p. p \<noteq> Trigger_runs) (tg_phase ?g)"
      using less.prems(2) by (auto simp: trigger_sent_def list_all_iff dest!: set_update_subset_insert [THEN subsetD])
    ultimately obtain g' where "group_step\<^sup>*\<^sup>* ?g g'" "stop_returns g'"
      using less.hyps group_inv_step [OF less.prems(1) st] by blast
    with st show ?thesis by (meson converse_rtranclp_into_rtranclp)
  qed
qed

text \<open>
  C17: An error or a panic of a trigger is never lost and never blocks. In every state that the
  goroutines of a configuration's triggers can reach, one that has an error to report finds room in
  the channel, whether or not anybody still receives; so once the functions of the triggers have
  returned, \<open>stop\<close> can wait for all goroutines and returns.
\<close>

theorem trigger_errors_never_block:
  assumes "reach (group_starts sg) group_step g"
  shows "(\<forall>i e. i < length (tg_phase g) \<and> tg_phase g ! i = Trigger_sends e \<longrightarrow> group_step g (trigger_sent i e g))
    \<and> (list_all (\<lambda>p. p \<noteq> Trigger_runs) (tg_phase g) \<longrightarrow> (\<exists>g'. group_step\<^sup>*\<^sup>* g g' \<and> stop_returns g'))"
  using tg.inv_reach [OF assms] send_has_room stop_can_return by (auto intro: group_send)

theorem trigger_errors_never_block_witness:
  "let g = trigger_exits 0 (Exit_panic ''boom'') (group_of (nothing_started\<lparr>sg_wakes := [''backup'']\<rparr>)) in
    group_step g (trigger_sent 0 ''wake trigger panicked: boom'' g) \<and> (\<exists>g'. group_step\<^sup>*\<^sup>* g g' \<and> stop_returns g')"
proof -
  let ?sg = "nothing_started\<lparr>sg_wakes := [''backup'']\<rparr>"
  let ?g = "trigger_exits 0 (Exit_panic ''boom'') (group_of ?sg)"
  have names: "runnables ?sg = [KindWake]" by (simp add: runnables_def nothing_started_def)
  have "reach (group_starts ?sg) group_step (group_of ?sg)"
    by (rule reach_start) (simp add: group_starts_def)
  then have "reach (group_starts ?sg) group_step ?g"
    by (rule reach_step) (rule group_exit, simp_all add: group_of_def names)
  moreover have "tg_phase ?g = [Trigger_sends ''wake trigger panicked: boom'']"
    by (simp add: trigger_exits_def group_of_def names exit_phase_def)
  ultimately show ?thesis
    using trigger_errors_never_block [of ?sg ?g] by (simp add: Let_def)
qed

section \<open>Run, from the load to the return\<close>

definition agent_entry :: "level \<Rightarrow> string \<Rightarrow> (string \<times> attr) list \<Rightarrow> log_entry" where
  "agent_entry l m as = \<lparr>le_level = l, le_msg = m, le_attrs = as\<rparr>"

text \<open>
  The lines of a configuration that takes effect: its warnings, what its triggers report when they
  start, and the configuration; the first one fires the startup triggers as well.
  The lines of rejected triggers and of startup firings have the event here, and not the kind of the
  trigger or the request identifier.
\<close>

definition trigger_lines :: "started \<Rightarrow> log_entry list" where
  "trigger_lines sg =
     map (\<lambda>(name, err). agent_entry Level_error ''Trigger rejected'' [(''event'', Attr_str name), (''errorMessage'', Attr_str err)])
       (sg_rejected sg)
     @ (if sg_disabled_hooks sg > 0
        then [agent_entry Level_info ''Webhook triggers disabled'' [(''count'', Attr_int (int (sg_disabled_hooks sg))),
          (''detail'', Attr_str ''webhook.enabled is false, so the HTTP server does not start'')]]
        else [])"

definition config_lines :: "(string \<Rightarrow> string option) \<Rightarrow> bool \<Rightarrow> config \<Rightarrow> started \<Rightarrow> log_entry list" where
  "config_lines split first c sg =
     map (\<lambda>w. agent_entry Level_warn ''Config warning'' [(''event'', Attr_str (wn_event w)),
       (''reason'', Attr_str (wn_reason w)), (''detail'', Attr_str (wn_detail w))]) (Warnings split c)
     @ trigger_lines sg
     @ [agent_entry Level_info (if first then ''Config loaded'' else ''Config reloaded'') [(''file'', Attr_str (cf_path c)),
          (''eventCount'', Attr_int (int (length (cf_events c)))), (''triggerCount'', Attr_int (int (countTriggers c)))]]
     @ (if first then map (\<lambda>name. agent_entry Level_info ''Startup trigger fired'' [(''event'', Attr_str name)]) (startup_names c)
        else [])"

text \<open>What one change logs: the lines of the wait, and those of what follows it in the loop.\<close>

fun change_lines :: "(string \<Rightarrow> string option) \<Rightarrow> string \<Rightarrow> agent_change \<Rightarrow> kickd \<Rightarrow> kickd \<Rightarrow> log_entry list" where
  "change_lines split file Ctx_done k k' = []"
| "change_lines split file (Trigger_error e) k k' =
     (if kd_phase k = With_triggers \<and> \<not> kd_first k
      then [agent_entry Level_error ''Trigger failed'' [(''errorMessage'', Attr_str e),
        (''detail'', Attr_str ''no triggers run until the config is saved again; queued runs and manual firings still run'')]]
      else [])"
| "change_lines split file (Reload_request reason r) k k' =
     snd (waitForChange file [Reload_request reason r]) @
     (case r of
        Inl e \<Rightarrow> []
      | Inr c \<Rightarrow>
          (if dc_path (cf_database c) \<noteq> dc_path (cf_database (kd_cfg k))
           then [agent_entry Level_warn ''Database path change needs a restart''
             [(''file'', Attr_str (dc_path (cf_database (kd_cfg k)))), (''detail'', Attr_str (dc_path (cf_database c)))]]
           else []) @ config_lines split False (kd_cfg k') (kd_triggers k'))"

datatype run_end = Still_running | Run_error string | Run_done

definition trigger_error_text :: "agent_change \<Rightarrow> string" where
  "trigger_error_text c = (case c of Trigger_error e \<Rightarrow> e | _ \<Rightarrow> [])"

fun Run_loop :: "(string \<Rightarrow> string \<Rightarrow> string + cron_schedule) \<Rightarrow> (string \<Rightarrow> string option) \<Rightarrow> string
    \<Rightarrow> agent_change list \<Rightarrow> kickd \<Rightarrow> run_end \<times> log_entry list \<times> kickd" where
  "Run_loop parse split file [] k = (Still_running, [], k)"
| "Run_loop parse split file (c # cs) k =
     (let k' = agent_turn parse (input_of c) k; ls = change_lines split file c k k' in
      case kd_phase k' of
        Agent_stopped \<Rightarrow> (Run_done, ls, k')
      | Agent_failed \<Rightarrow> (Run_error (trigger_error_text c), ls, k')
      | _ \<Rightarrow> (case Run_loop parse split file cs k' of (r, ls', k'') \<Rightarrow> (r, ls @ ls', k'')))"

text \<open>
  \<open>load\<close> is what loading the configuration gives, \<open>opened\<close> what \<open>openQueue\<close> gives for the path of its
  database; \<open>ending\<close> has the readings of the shutdown: its cause, the runs in flight, the uptime and the time.
\<close>

record ending =
  ed_cause :: stop_cause
  ed_in_flight :: int
  ed_uptime :: duration
  ed_at :: gotime

definition Run_agent :: "(string \<Rightarrow> string \<Rightarrow> string + cron_schedule) \<Rightarrow> (string \<Rightarrow> string option)
    \<Rightarrow> (recover_error \<Rightarrow> string) \<Rightarrow> (db_error \<Rightarrow> string) \<Rightarrow> (nat \<Rightarrow> string) \<Rightarrow> ending \<Rightarrow> gotime \<Rightarrow> log_entry
    \<Rightarrow> string \<Rightarrow> string + config \<Rightarrow> (string \<Rightarrow> (string + log_entry) \<times> db) \<Rightarrow> agent_change list
    \<Rightarrow> run_end \<times> log_entry list \<times> kickd option" where
  "Run_agent parse split recover_text db_text newID ed now starting file load opened cs =
     (case load of
        Inl e \<Rightarrow> (Run_error e, [starting], None)
      | Inr c \<Rightarrow>
          (case opened (dc_path (cf_database c)) of
             (Inl e, d) \<Rightarrow> (Run_error e, [starting], None)
           | (Inr line, d) \<Rightarrow>
               (case agent_start parse newID now c d of
                  Inl e \<Rightarrow> (Run_error (''recover interrupted runs: '' @ recover_text e), [starting, line], None)
                | Inr k \<Rightarrow>
                    (case Run_loop parse split file cs k of (r, ls, k') \<Rightarrow>
                      (let begin = [starting, line] @ config_lines split True c (kd_triggers k) in
                       if r = Run_done
                       then (case shutdown (ed_at ed) (dc_path (cf_database c)) db_text (ed_cause ed) (ed_in_flight ed)
                               (ed_uptime ed) (d_stats (kd_disp k')) (d_db (kd_disp k')) of
                             (sl, d') \<Rightarrow> (r, begin @ ls @ sl, Some (k'\<lparr>kd_disp := (kd_disp k')\<lparr>d_db := d'\<rparr>\<rparr>)))
                       else (r, begin @ ls, Some k'))))))"

section \<open>When Run returns\<close>

text \<open>A reload that fails to load changes nothing; every other change has an effect.\<close>

definition effective :: "agent_change \<Rightarrow> bool" where
  "effective c = (case c of Reload_request reason (Inl e) \<Rightarrow> False | _ \<Rightarrow> True)"

definition failed_first :: "agent_change list \<Rightarrow> string \<Rightarrow> bool" where
  "failed_first cs e \<longleftrightarrow> find effective cs = Some (Trigger_error e)"

definition loop_inv :: "kickd \<Rightarrow> bool" where
  "loop_inv k \<longleftrightarrow> kd_phase k = With_triggers \<or>
     kd_phase k = Without_triggers \<and> \<not> kd_first k \<and> kd_triggers k = nothing_started"

lemma turn_inv:
  assumes "loop_inv k"
  shows "loop_inv (agent_turn parse (input_of c) k) \<or> kd_phase (agent_turn parse (input_of c) k) \<in> {Agent_stopped, Agent_failed}"
  using assms by (cases c) (auto simp: loop_inv_def switch_config_def Let_def split: sum.split)

definition run_result :: "agent_change list \<Rightarrow> bool \<Rightarrow> run_end" where
  "run_result cs first =
     (case find effective cs of
        Some (Trigger_error e) \<Rightarrow> if first then Run_error e else if Ctx_done \<in> set cs then Run_done else Still_running
      | _ \<Rightarrow> if Ctx_done \<in> set cs then Run_done else Still_running)"

lemma run_result_later: "run_result cs False = (if Ctx_done \<in> set cs then Run_done else Still_running)"
  by (simp add: run_result_def split: option.split agent_change.split)

lemma loop_result:
  assumes "loop_inv k" and "Run_loop parse split file cs k = (r, ls, k')"
  shows "r = run_result cs (kd_first k) \<and>
    (case r of
       Still_running \<Rightarrow> loop_inv k'
     | Run_error e \<Rightarrow> kd_phase k' = Agent_failed \<and> kd_triggers k' = nothing_started
     | Run_done \<Rightarrow> kd_phase k' = Agent_stopped \<and> kd_triggers k' = nothing_started)"
  using assms
proof (induction cs arbitrary: k ls)
  case Nil
  then show ?case by (auto simp: run_result_def)
next
  case (Cons c cs)
  let ?k = "agent_turn parse (input_of c) k"
  show ?case
  proof (cases "kd_phase ?k \<in> {Agent_stopped, Agent_failed}")
    case True
    with Cons.prems show ?thesis
      by (cases c) (auto simp: loop_inv_def Let_def run_result_def effective_def trigger_error_text_def switch_config_def
          split: sum.splits if_splits)
  next
    case False
    with turn_inv [OF Cons.prems(1), of parse c] have inv: "loop_inv ?k" by blast
    obtain ls' where rest: "Run_loop parse split file cs ?k = (r, ls', k')"
      using Cons.prems(2) False by (auto simp: Let_def split: agent_phase.splits prod.splits)
    have same: "run_result (c # cs) (kd_first k) = run_result cs (kd_first ?k)"
    proof (cases c)
      case Ctx_done
      with False Cons.prems(1) show ?thesis by (auto simp: loop_inv_def)
    next
      case (Trigger_error e)
      with False Cons.prems(1) have "\<not> kd_first k" by (auto simp: loop_inv_def)
      moreover from this Trigger_error Cons.prems(1) have "\<not> kd_first ?k" by (auto simp: loop_inv_def)
      ultimately show ?thesis using Trigger_error by (simp add: run_result_later)
    next
      case (Reload_request reason x)
      show ?thesis
      proof (cases x)
        case (Inl e)
        with Reload_request Cons.prems(1) have "?k = k" by (auto simp: loop_inv_def)
        with Reload_request Inl show ?thesis by (simp add: run_result_def effective_def)
      next
        case (Inr new)
        with Reload_request Cons.prems(1) have "\<not> kd_first ?k"
          by (auto simp: loop_inv_def switch_config_def Let_def)
        with Reload_request Inr show ?thesis
          by (simp add: run_result_later) (simp add: run_result_def effective_def)
      qed
    qed
    show ?thesis unfolding same by (rule Cons.IH [OF inv rest])
  qed
qed

text \<open>
  C15: When the agent's Run returns. It returns an error exactly when the configuration does not load,
  the database does not open, the recovery of interrupted runs fails, or a trigger of the first
  configuration fails before any reload has taken effect; later failures of triggers and reloads
  that do not load never end it. Once it has started, any shutdown request ends it without an error, with
  no trigger left running, and the last line it logs says that the agent stopped.
\<close>

theorem run_returns:
  assumes "Run_agent parse split recover_text db_text newID ed now starting file load opened cs = (r, ls, k)"
  shows "(\<exists>e. r = Run_error e) = (case load of
      Inl e \<Rightarrow> True
    | Inr c \<Rightarrow> (case opened (dc_path (cf_database c)) of
        (Inl e, d) \<Rightarrow> True
      | (Inr line, d) \<Rightarrow> (case agent_start parse newID now c d of
          Inl e \<Rightarrow> True
        | Inr k0 \<Rightarrow> (\<exists>e. find effective cs = Some (Trigger_error e)))))
    \<and> (if r = Still_running then Ctx_done \<notin> set cs else
       case k of None \<Rightarrow> r \<noteq> Run_done | Some k1 \<Rightarrow> kd_triggers k1 = nothing_started)
    \<and> (if r = Run_done then Ctx_done \<in> set cs \<and> le_msg (last ls) = ''Agent stopped'' else True)"
proof (cases load)
  case (Inl e)
  with assms show ?thesis by (auto simp: Run_agent_def)
next
  case load: (Inr c)
  obtain o' d where op: "opened (dc_path (cf_database c)) = (o', d)" by fastforce
  show ?thesis
  proof (cases o')
    case (Inl e)
    with assms load op show ?thesis by (auto simp: Run_agent_def)
  next
    case line: (Inr line)
    show ?thesis
    proof (cases "agent_start parse newID now c d")
      case (Inl e)
      with assms load op line show ?thesis by (auto simp: Run_agent_def)
    next
      case start: (Inr k0)
      then have k0: "loop_inv k0" "kd_first k0"
        by (auto simp: agent_start_def Let_def loop_inv_def split: prod.splits sum.splits)
      obtain r' ls' k' where l: "Run_loop parse split file cs k0 = (r', ls', k')" by (metis prod_cases3)
      from loop_result [OF k0(1) l] k0(2) have res: "r' = run_result cs True"
        "r' = Run_done \<Longrightarrow> kd_triggers k' = nothing_started" "r' = Run_error e \<Longrightarrow> kd_triggers k' = nothing_started" for e
        by auto
      obtain sl d' where sh: "shutdown (ed_at ed) (dc_path (cf_database c)) db_text (ed_cause ed) (ed_in_flight ed)
          (ed_uptime ed) (d_stats (kd_disp k')) (d_db (kd_disp k')) = (sl, d')" by fastforce
      then have "sl \<noteq> []" "le_msg (last sl) = ''Agent stopped''"
        by (auto simp: shutdown_def logStopped_def split: prod.splits)
      with assms load op line start l sh have fin: "r = r'" "r' = Run_done \<Longrightarrow> le_msg (last ls) = ''Agent stopped''"
        "\<exists>k1. k = Some k1 \<and> kd_triggers k1 = kd_triggers k'"
        by (simp_all add: Run_agent_def Let_def split: if_splits) auto
      have err: "(\<exists>e. r' = Run_error e) = (\<exists>e. find effective cs = Some (Trigger_error e))"
        and still: "r' = Still_running \<Longrightarrow> Ctx_done \<notin> set cs" and fine: "r' = Run_done \<Longrightarrow> Ctx_done \<in> set cs"
        unfolding res(1) run_result_def by (auto split: option.splits agent_change.splits if_splits)
      show ?thesis
        using load op line start fin err still fine res(2,3) by (cases r') (auto split: if_splits)
    qed
  qed
qed

definition demo_ending :: ending where
  "demo_ending = \<lparr>ed_cause = Service_stop, ed_in_flight = 0, ed_uptime = 0, ed_at = 0\<rparr>"

definition agent_run_demo :: "run_end \<times> log_entry list \<times> kickd option" where
  "agent_run_demo = Run_agent no_schedules (\<lambda>l. None) (\<lambda>e. []) (\<lambda>e. []) (\<lambda>n. ''r'') demo_ending 0
     (agent_entry Level_info ''Agent starting'' []) ''/srv/kickd.yaml'' (Inr demo_config)
     (\<lambda>p. (Inr (agent_entry Level_info ''Database opened'' []), empty_db))
     [Reload_request ''signal'' (Inl ''bad''), Ctx_done]"

theorem run_returns_witness:
  "fst agent_run_demo = Run_done \<and> le_msg (last (fst (snd agent_run_demo))) = ''Agent stopped''"
proof -
  let ?cs = "[Reload_request ''signal'' (Inl ''bad''), Ctx_done]"
  obtain r ls k where d: "agent_run_demo = (r, ls, k)" by (metis prod_cases3)
  have "\<exists>s. Recover 0 (Configure (specs demo_config) (NewDispatcher hour (\<lambda>n. ''r'') empty_db)) = (Inr (), s)"
    by (simp add: Recover_def on_db_def InterruptedRuns_def query_def sql_def Configure_def poke_def
        NewDispatcher_def empty_db_def rows_by_id_def)
  then obtain k0 where k0: "agent_start no_schedules (\<lambda>n. ''r'') 0 demo_config empty_db = Inr k0"
    by (auto simp: agent_start_def Let_def demo_config_def)
  have "find effective ?cs = Some Ctx_done" by (simp add: effective_def)
  with run_returns [OF d [unfolded agent_run_demo_def]] k0 have "\<nexists>e. r = Run_error e"
    "r = Still_running \<Longrightarrow> Ctx_done \<notin> set ?cs" "r = Run_done \<Longrightarrow> le_msg (last ls) = ''Agent stopped''"
    by auto
  then have "r = Run_done \<and> le_msg (last ls) = ''Agent stopped''" by (cases r) auto
  then show ?thesis by (simp add: d)
qed

end
