(* ===== verification/Service.thy ===== *)
theory Service
  imports Kickd AgentWhole
begin

text \<open>
  The agent as a service (\<^verbatim>\<open>cmd/kickd/main.go\<close>): the adapter between the service manager and the agent.
  \<open>Start\<close> runs the agent in a goroutine of its own; when the agent fails, that goroutine ends the process.
  \<open>Stop\<close> cancels the agent and waits for it, but not for ever.
\<close>

section \<open>The adapter\<close>

text \<open>
  \<open>pg_cause\<close> is what the context of the agent was canceled with, \<open>pg_done\<close> that the channel \<open>done\<close> is
  closed, and \<open>pg_exit\<close> the code that the goroutine of the agent ended the process with.
\<close>

record program_state =
  pg_options :: log_options
  pg_cause :: "stop_cause option"
  pg_done :: bool
  pg_exit :: "int option"

definition Start :: "log_options \<Rightarrow> program_state" where
  "Start opts = \<lparr>pg_options = opts, pg_cause = None, pg_done = False, pg_exit = None\<rparr>"

text \<open>The goroutine: what happens when the agent returns; \<open>os.Exit\<close> leaves the deferred \<open>close\<close> undone.\<close>

definition agent_returned :: "process \<Rightarrow> run_end \<Rightarrow> program_state \<Rightarrow> effect list \<times> program_state" where
  "agent_returned p r s =
     (case r of
        Still_running \<Rightarrow> ([], s)
      | Run_error e \<Rightarrow> ([fatal_record p (pg_options s) ''Agent start failed'' [] e], s\<lparr>pg_exit := Some 1\<rparr>)
      | Run_done \<Rightarrow> ([], s\<lparr>pg_done := True\<rparr>))"

definition stopTimeout :: duration where "stopTimeout = 30 * second"

text \<open>
  \<open>Stop\<close>: \<open>after\<close> is how long after the cancellation the agent returns, if it ever does. When both arms
  of the \<open>select\<close> are ready Go chooses either, so at the very end of the time the choice is an argument.
\<close>

definition Stop :: "process \<Rightarrow> duration option \<Rightarrow> bool \<Rightarrow> program_state \<Rightarrow> effect list \<times> duration \<times> program_state" where
  "Stop p after choose_done s =
     (let s = s\<lparr>pg_cause := (case pg_cause s of None \<Rightarrow> Some Service_stop | Some c \<Rightarrow> Some c)\<rparr>;
          timed_out = ([Logged (pg_options s) LevelWarn ''Agent stop timed out''
            [(''requestId'', Str (w_request_id (pr_world p))), (''thresholdMs'', Num (Milliseconds stopTimeout))]], stopTimeout, s) in
      if pg_done s then ([], 0, s)
      else case after of
             None \<Rightarrow> timed_out
           | Some d \<Rightarrow> if d < stopTimeout \<or> d = stopTimeout \<and> choose_done then ([], d, s\<lparr>pg_done := True\<rparr>) else timed_out)"

text \<open>
  \<open>Stop\<close> never waits longer than its bound, the first cause stays, and there is a warning exactly when
  the agent has not returned. An agent that fails meanwhile ends the process (\<open>agent_returned\<close>).
\<close>

lemma Stop_bounded:
  assumes "Stop p after chosen s = (out, waited, s')" and "\<And>d. after = Some d \<Longrightarrow> 0 \<le> d"
  shows "0 \<le> waited \<and> waited \<le> stopTimeout \<and> pg_cause s' \<noteq> None
    \<and> (out = []) = pg_done s' \<and> (pg_cause s = None \<longrightarrow> pg_cause s' = Some Service_stop)"
  using assms by (auto simp: Stop_def Let_def stopTimeout_def second_def split: option.splits if_splits)

lemma agent_returned_exit:
  "agent_returned p r s = (out, s') \<Longrightarrow> pg_exit s = None \<Longrightarrow> (pg_exit s' \<noteq> None) = (\<exists>e. r = Run_error e)"
  by (cases r) (auto simp: agent_returned_def)

end
