(* ===== verification/Watches.thy ===== *)
theory Watches
  imports AgentWhole TriggerRuns
begin

text \<open>
  The watches that make the agent reload (\<^verbatim>\<open>internal/agent/agent.go\<close>): \<open>watchConfig\<close> over the directory of
  the config file and \<open>watchLinks\<close> over the files behind symbolic links. Both are file watches whose
  handler puts a request into the channel of the agent; \<open>waiting\<close> is what the channel holds.
\<close>

section \<open>Requests\<close>

definition request_on :: "string \<Rightarrow> file_out list \<Rightarrow> string option \<Rightarrow> string option" where
  "request_on reason outs waiting =
     fold (\<lambda>out waiting. case out of
        Files_fired ev \<Rightarrow> snd (HandlerFunc_Dispatch (\<lambda>ev. requestReload reason) ev waiting)
      | _ \<Rightarrow> waiting) outs waiting"

lemma request_stays: "waiting \<noteq> None \<Longrightarrow> request_on reason outs waiting = waiting"
proof (induction outs arbitrary: waiting)
  case (Cons x outs)
  then show ?case
    by (cases x) (auto simp: request_on_def HandlerFunc_Dispatch_def requestReload_def)
qed (simp add: request_on_def)

text \<open>A change that fires a watch always leaves a request to reload; an older request is not replaced.\<close>

lemma request_made: "Files_fired ev \<in> set outs \<Longrightarrow> request_on reason outs waiting \<noteq> None"
proof (induction outs arbitrary: waiting)
  case (Cons x outs)
  show ?case
  proof (cases "waiting = None")
    case True
    then have "request_on reason (Files_fired ev # outs) waiting = request_on reason outs (Some reason)" for ev
      by (simp add: request_on_def HandlerFunc_Dispatch_def requestReload_def)
    with Cons request_stays [of "Some reason"] show ?thesis
      by (cases x) (auto simp: request_on_def)
  next
    case False
    then show ?thesis using request_stays by simp
  qed
qed simp

section \<open>The watches\<close>

definition watch_unavailable :: "string \<Rightarrow> string \<Rightarrow> string \<Rightarrow> log_entry" where
  "watch_unavailable file err detail =
     agent_entry Level_warn ''Config watch unavailable''
       [(''file'', Attr_str file), (''errorMessage'', Attr_str err), (''detail'', Attr_str detail)]"

text \<open>
  \<open>made_abs\<close> is what \<open>filepath.Abs\<close> gives, and \<open>inputs\<close> what the watch meets until the context ends; the
  setup is that of an internal watch, whose lines are for debugging.
\<close>

definition watchConfig :: "file_setup \<Rightarrow> fs_view \<Rightarrow> (string \<Rightarrow> string) \<Rightarrow> (string \<Rightarrow> string) \<Rightarrow> string \<Rightarrow> string + string
    \<Rightarrow> (string \<times> gotime \<times> file_input) list \<Rightarrow> string option \<Rightarrow> log_entry list \<times> string option" where
  "watchConfig fi fv dir base path made_abs inputs waiting =
     (case made_abs of
        Inl e \<Rightarrow> ([watch_unavailable path e ''saving the config file does not reload it''], waiting)
      | Inr file \<Rightarrow>
          (case Run_files (fi\<lparr>fi_internal := True\<rparr>) fv (config_watcher (dir file) (base file)) inputs of
             (err, ls, outs) \<Rightarrow>
               (ls @ (case err of None \<Rightarrow> []
                      | Some e \<Rightarrow> [watch_unavailable file e ''saving the config file does not reload it'']),
                request_on ''file_changed'' outs waiting)))"

text \<open>One of the goroutines of \<open>watchLinks\<close>; \<open>ended\<close> says whether the context has ended when it fails.\<close>

definition watch_link :: "file_setup \<Rightarrow> fs_view \<Rightarrow> bool \<Rightarrow> file_watcher \<Rightarrow> (string \<times> gotime \<times> file_input) list
    \<Rightarrow> string option \<Rightarrow> log_entry list \<times> string option" where
  "watch_link fi fv ended w inputs waiting =
     (case Run_files (fi\<lparr>fi_internal := True\<rparr>) fv w inputs of
        (err, ls, outs) \<Rightarrow>
          (ls @ (case err of None \<Rightarrow> []
                 | Some e \<Rightarrow> if ended then [] else [watch_unavailable (fw_root w) e ''saving a linked file does not reload the config'']),
           request_on ''linked_file_changed'' outs waiting))"

text \<open>\<open>configDir\<close>: the directory of the configuration without symbolic links, as far as that can be told.\<close>

definition watched_links :: "(string \<Rightarrow> string option) \<Rightarrow> (string \<Rightarrow> (string \<times> string) option) \<Rightarrow> config \<Rightarrow> file_watcher list" where
  "watched_links evalSymlinks link c =
     link_watchers link (case evalSymlinks (cf_dir c) of None \<Rightarrow> cf_dir c | Some d \<Rightarrow> d) c"

text \<open>A watch that cannot start says so once and requests nothing.\<close>

lemma watchConfig_unavailable:
  assumes "watchConfig fi fv dir base path made_abs inputs waiting = (ls, waiting')"
    and "case made_abs of Inl e \<Rightarrow> True | Inr file \<Rightarrow>
      fst (Run_files (fi\<lparr>fi_internal := True\<rparr>) fv (config_watcher (dir file) (base file)) inputs) \<noteq> None"
  shows "waiting' = waiting \<and> length ls = 1 \<and> le_level (hd ls) = Level_warn"
  using assms by (auto simp: watchConfig_def watch_unavailable_def agent_entry_def Run_files_def request_on_def
      split: sum.splits option.splits prod.splits bool.splits)

end
