(* ===== verification/Spec2Isabelle.thy ===== *)
theory Spec2Isabelle
  imports DispatcherSpecs DispatcherRace CronProps FileProps WebhookProps AgentProps LoadProps ConfigCycle
    LogProps CliProps OpsProps KickdProps MaskProps DispatcherLive StoreTypes ShutdownRace WebhookRun
    TriggerRuns RunnerLife Service Watches
begin

text \<open>
  \<^bold>\<open>kickd: an agent that runs commands on events.\<close> A model of the program under \<^verbatim>\<open>cmd/\<close> and \<^verbatim>\<open>internal/\<close>, and the
  theorems that make it correct. The model is shallow: a struct is a record, a method is a function on the
  state it reads and writes, an error is a value, and what the program asks of the operating system or of a
  library that is not part of it is an argument.

  \<^bold>\<open>How the parts interact.\<close> A configuration names events, each with a command and with triggers. The agent
  (\<^verbatim>\<open>internal/agent\<close>) loads it, opens the database, gives the specs to the dispatcher and starts the
  triggers. A trigger that fires (cron, file, webhook, wake, startup, the end of another run, or \<open>kickd event\<close>
  in a process of its own) adds a queued row to the database. The dispatcher consumes the rows under the
  policy of their event, starts the runner for each, and records how it ended; an ended run can fire
  further events, be restarted with a delay, or be rerun after an interruption. The other subcommands
  read the database, or ask it to cancel runs, while the agent works on it. So the database is what the
  processes share, and theorem \<open>subcommands_are_outside_steps\<close> below says that the subcommands do to it
  only what the interleavings of the dispatcher allow for.

  \<^bold>\<open>Theories, from the base upwards.\<close>

  \<^item> \<open>Prelude\<close>, \<open>GoBase\<close>: generic lemmas, the collections of facts, reachability and the locale
    \<open>machine_invariant\<close>; 64-bit integers with their wrap-around, times, durations and the string
    functions of Go.
  \<^item> \<open>Events\<close> (\<^verbatim>\<open>internal/event/event.go\<close>): the payload of a firing, its environment, its JSON text and back.
  \<^item> \<open>Store\<close>, \<open>StoreLaws\<close>, \<open>StoreProps\<close>, \<open>StoreSpecs\<close>, \<open>StoreTypes\<close>, \<open>Opening\<close> (\<^verbatim>\<open>internal/queue/store.go\<close>): the tables are
    the record \<open>db\<close> and each method of \<open>Store\<close> is one definition of the same name. Any statement may
    fail: \<open>faults\<close> lists the outcome of the statements to come, so a theorem about every \<open>db\<close> covers every
    pattern of failures. The locale \<open>db_relation\<close> is the contract of what statements and
    transactions keep, with well-formedness (\<open>db_wf\<close>) and the evolution of rows (\<open>evolves\<close>) as its
    interpretations; \<open>run_ops\<close> is a history of operations of any number of processes. \<open>StoreTypes\<close> says which
    columns a row has in each status. \<open>Opening\<close> adds the retries on a busy database and the permissions of its files, as words of nine bits.
  \<^item> \<open>Output\<close>, \<open>Mask\<close>, \<open>MaskProps\<close>, \<open>Runner\<close>, \<open>RunnerProps\<close>, \<open>StopCommand\<close>, \<open>RunnerLife\<close> (\<^verbatim>\<open>internal/runner/runner.go\<close>, \<^verbatim>\<open>lookpath*.go\<close>,
    \<^verbatim>\<open>internal/logging/mask.go\<close>): the capture and the tail of the output, the masking of secrets with the
    regular expressions it uses, and one run from its environment to its outcome, with the stop command
    and the count of the runs in flight.
  \<^item> \<open>Dispatcher\<close>, \<open>DispatcherSpecs\<close>, \<open>DispatcherLive\<close> (\<^verbatim>\<open>internal/runner/dispatcher.go\<close>): the state \<open>disp\<close> has the fields of
    the struct, and each method is a definition. \<open>DispatcherConc\<close>, \<open>DispatcherInv\<close>, \<open>DispatcherRace\<close>,
    \<open>ShutdownRace\<close>: the same sections as
    an inductive step relation, one step for each section under the mutex and each statement outside it, so
    that a path is an interleaving of the loop, the runs, the triggers, a reload and other processes.
  \<^item> \<open>Cron\<close>, \<open>CronProps\<close>, \<open>FileWatch\<close>, \<open>FileProps\<close>, \<open>Wake\<close>, \<open>Webhook\<close>, \<open>WebhookProps\<close>, \<open>WebhookRun\<close>,
    \<open>TriggerRuns\<close> (\<^verbatim>\<open>internal/trigger/*.go\<close>): the triggers. The webhook server is a client of the locale
    \<open>event_handler\<close>, whose laws the dispatcher provides; \<open>WebhookRun\<close> adds the status writer, the lines of a
    request and the life of the server, \<open>TriggerRuns\<close> the functions \<open>Run\<close> of the others.
  \<^item> \<open>Config\<close>, \<open>ConfigCycle\<close>, \<open>ConfigCheck\<close>, \<open>ConfigProps\<close>, \<open>ConfigLoad\<close>, \<open>LoadProps\<close> (\<^verbatim>\<open>internal/config/config.go\<close>): the
    structs of the file, the defaults, every check with its message, the search for cycles of after
    triggers, and the files that make up a configuration.
  \<^item> \<open>Agent\<close>, \<open>AgentProps\<close>, \<open>AgentRun\<close>, \<open>AgentWhole\<close>, \<open>Watches\<close> (\<^verbatim>\<open>internal/agent/agent.go\<close>): what a configuration starts, the
    agent as a state machine over reloads, failed triggers and a shutdown, the goroutines of its triggers
    with the channel of their errors, and \<open>Run\<close> from the load of the configuration to its return;
    \<open>Watches\<close>: the watches of the configuration, as clients of the file trigger.
  \<^item> \<open>Rotate\<close>, \<open>Logging\<close>, \<open>LogProps\<close> (\<^verbatim>\<open>internal/logging/rotate.go\<close>, \<^verbatim>\<open>logging.go\<close>, \<^verbatim>\<open>errors.go\<close>): the rotating file over a
    map from generations to contents, and the lines of the log.
  \<^item> \<open>Cli\<close>, \<open>CliProps\<close>, \<open>Help\<close>, \<open>Ops\<close>, \<open>OpsProps\<close>, \<open>Kickd\<close>, \<open>KickdProps\<close>, \<open>Service\<close> (\<^verbatim>\<open>cmd/kickd/*.go\<close>): arguments,
    flags and help, the subcommands with their exit codes, what they print and the database they leave,
    \<open>main\<close>, and the adapter to the service manager.

  \<^bold>\<open>What the lemmas show.\<close> For the store: every operation keeps the tables well-formed, rows only evolve,
  transactions are atomic, a run starts at most once, the columns of a row agree with its status, and each
  operation has its behaviour on every branch.
  For the dispatcher: mutual exclusion in every interleaving, recovery, the recording of outcomes, after
  triggers, restarts, submissions and replacement, that no due run is left behind by a pass of the loop, and
  what the shutdown waits for. For the agent: the configuration in effect is the one that runs, errors of
  triggers never block, and when \<open>Run\<close> returns. For the triggers: no scheduled time fires twice or is
  forgotten over any history of looks and restarts, every change of a window is reported once, what a
  request must carry to be accepted and what it then does, and that its log lines are true and reveal no
  credential. For a configuration: the checks are equivalent to
  a description of well-formed configurations, and the search for cycles is sound, complete and ends. For
  the runner, the output and the log: the outcome and the counters, what is captured and kept, that
  secrets of the usual shapes are masked and that a record is one line that can be read back. For the
  command line: where flags may stand, what \<open>event\<close> queues, how \<open>event --wait\<close> follows reruns and that it
  ends, what \<open>init\<close> writes, and that all other subcommands only read.

  \<^bold>\<open>Bounds and fuel.\<close> The search for cycles has fuel for one more level than there are events
  (\<open>cycle_fuel\<close>); its nodes are events and none is entered twice, which theory \<open>ConfigCycle\<close> turns into the
  proof that the fuel suffices. The loop over due times of a cron trigger is bounded in the code
  (\<open>maxCatchUpSteps\<close>), and the bound is in the model. Loops that wait (\<open>waitRun\<close>, \<open>migrate_retry\<close>, \<open>waitForChange\<close>) take
  the list of what they meet, one element for each turn, and return \<open>None\<close> while they go on; that enough
  turns end them is proved for the first two. Sums and products of durations and counters that can leave
  64 bits go through \<open>i64\<close>.

  \<^bold>\<open>Not modelled.\<close> The YAML decoder, JSON decoding of \<open>--data\<close>, SQLite below its statements, fsnotify, gocron's
  schedules, the HTTP listener with its multiplexer, HMAC-SHA256, and \<open>text/tabwriter\<close> are libraries, and are
  arguments of the definitions that use them. Process groups and signals, the clocks of each operating
  system (\<^verbatim>\<open>sleep_*.go\<close>), the terminal queries (\<^verbatim>\<open>term_*.go\<close>), the limit on open files (\<^verbatim>\<open>rlimit_*.go\<close>) and whether the
  user is root (\<^verbatim>\<open>system_*.go\<close>) are system calls. The text of the licenses is embedded. Log lines of the
  dispatcher other than database failures, and stacks in the lines of errors, are left out. Strings are
  lists of bytes, and the case functions are those of ASCII.
\<close>

section \<open>The subcommands beside the agent\<close>

text \<open>What operations of other processes make of a database.\<close>

definition done_outside :: "db \<Rightarrow> db \<Rightarrow> bool" where
  "done_outside d d' \<longleftrightarrow> (\<exists>ops. list_all external ops \<and> d' = snd (run_ops ops d))"

lemma run_ops_append: "snd (run_ops (xs @ ys) d) = snd (run_ops ys (snd (run_ops xs d)))"
  by (induction xs arbitrary: d) (simp_all add: run_ops_snd del: run_ops.simps(2))

lemma outside_trans: "done_outside a b \<Longrightarrow> done_outside b c \<Longrightarrow> done_outside a c"
  unfolding done_outside_def by (metis list_all_append run_ops_append)

lemma outside_op: "external x \<Longrightarrow> done_outside d (snd (run_op x d))"
  unfolding done_outside_def by (intro exI [of _ "[x]"]) (simp add: run_ops_snd del: run_ops.simps(2))

lemma outside_read: "same_tables d d' \<Longrightarrow> done_outside d d'"
  using outside_op [of "OpFaults (faults d')" d] by (cases d; cases d') (simp add: same_tables_def)

lemma outside_query: "same_tables b c \<Longrightarrow> done_outside a b \<Longrightarrow> done_outside a c"
  using outside_trans outside_read by blast

lemma outside_writes:
  "done_outside d (snd (Enqueue now r m d))"
  "done_outside d (snd (RequestCancel now i d))"
  "done_outside d (snd (RequestCancelEvent now e d))"
  using outside_op [of "OpEnqueue now r m" d] outside_op [of "OpRequestCancel now i" d]
    outside_op [of "OpRequestCancelEvent now e" d]
  by (simp_all add: quiet_def)

lemma kick_outside: "done_outside d (snd (kick_event w args d))"
proof -
  have alive: "done_outside d d2" if "Enqueue now r m d = (x, d1)" "agentAlive w d1 = (alive, d2)" for now r m x d1 alive d2
    using that outside_writes(1) [of d now r m] agentAlive_tables [of d1 w] by (auto intro: outside_query)
  have enq: "done_outside d d1" if "Enqueue now r m d = (x, d1)" for now r m x d1
    using that outside_writes(1) [of d now r m] by simp
  show ?thesis
    by (auto simp: kick_event_def kick_queue_def Let_def outside_read intro: alive enq
        split: kick_decision.splits option.splits prod.splits sum.splits if_splits)
qed

lemma event_outside: "done_outside d (snd (event_command w polls args d))"
proof -
  have "snd (event_command w polls args d) = snd (kick_event w args d)"
    by (auto simp: event_command_def split: prod.splits kick_result.splits sum.splits)
  then show ?thesis using kick_outside by simp
qed

lemma with_store_outside:
  "(\<And>cfg. done_outside d (snd (f cfg d))) \<Longrightarrow> done_outside d (snd (with_store w cmd f d))"
  by (auto simp: with_store_def outside_read split: sum.splits)

lemma cancel_outside: "done_outside d (snd (cancel_command w args d))"
proof -
  have one: "done_outside d (snd (cancel_by_id w i d))" for i
  proof (cases "RequestCancel (w_now w) i d")
    case (Pair x d1)
    with outside_writes(2) [of d "w_now w" i] have d1: "done_outside d d1" by simp
    with Pair agentAlive_tables [of d1 w] show ?thesis
      by (auto simp: cancel_by_id_def intro: outside_query split: sum.splits)
  qed
  have ev: "done_outside d (snd (cancelEvent w name cfg d))" for name cfg
  proof (cases "RequestCancelEvent (w_now w) name d")
    case (Pair x d1)
    with outside_writes(3) [of d "w_now w" name] have d1: "done_outside d d1" by simp
    with Pair agentAlive_tables [of d1 w] show ?thesis
      by (auto simp: cancelEvent_def Let_def intro: outside_query split: sum.splits)
  qed
  show ?thesis
    by (auto simp: cancel_command_def Let_def outside_read intro!: with_store_outside one ev split: sum.splits)
qed

lemma runOps_outside: "done_outside d (snd (runOps w polls args d))"
proof (cases args)
  case (Cons cmd rest)
  have keep: "done_outside d (snd (case x of (y, d') \<Rightarrow> (Some y, d')))" if "done_outside d (snd x)" for x :: "cli_end \<times> db"
    using that by (cases x) simp
  show ?thesis
  proof (cases "cmd = ''event'' \<or> cmd = ''cancel''")
    case True
    then show ?thesis
      using event_outside [of d w polls rest] cancel_outside [of d w rest, THEN keep]
      by (auto simp: Cons runOps_def Let_def)
  next
    case False
    then show ?thesis using runOps_tables [of cmd d w polls rest] by (simp add: Cons outside_read)
  qed
qed (simp add: runOps_def outside_read)

lemma main_outside: "done_outside d (snd (main p polls args d))"
proof (cases args)
  case Nil
  then show ?thesis by (simp add: main_def outside_read)
next
  case (Cons cmd rest)
  show ?thesis
    using runOps_outside [of d "pr_world p" polls args] unfolding Cons main_def list.case Let_def
    by (simp add: outside_read split: prod.split) (metis snd_conv)
qed

text \<open>
  C23: Every subcommand but \<open>run\<close> acts on the database of a running agent only by the operations that the
  interleavings of the dispatcher give to other processes (a new run, a request to cancel): whatever the state of the agent, its loop and its runs, the
  subcommand leads to a state that these steps reach. So everything that holds in every
  interleaving, mutual exclusion included, holds while subcommands run beside the agent.\<close>
theorem subcommands_are_outside_steps:
  "(\<exists>ops. list_all external ops \<and> snd (main p polls args (d_db (sy_d S))) = snd (run_ops ops (d_db (sy_d S)))) \<and>
   env_step\<^sup>*\<^sup>* S (S\<lparr>sy_d := (sy_d S)\<lparr>d_db := snd (main p polls args (d_db (sy_d S)))\<rparr>\<rparr>)"
proof -
  have "env_step\<^sup>*\<^sup>* S (S\<lparr>sy_d := (sy_d S)\<lparr>d_db := snd (run_ops ops (d_db (sy_d S)))\<rparr>\<rparr>)" if "list_all external ops" for ops S
    using that
  proof (induction ops arbitrary: S)
    case (Cons x ops)
    let ?T = "S\<lparr>sy_d := (sy_d S)\<lparr>d_db := snd (run_op x (d_db (sy_d S)))\<rparr>\<rparr>"
    from Cons.prems have "env_step S ?T" by (auto intro: other_process)
    moreover from Cons.IH [of ?T] Cons.prems
    have "env_step\<^sup>*\<^sup>* ?T (S\<lparr>sy_d := (sy_d S)\<lparr>d_db := snd (run_ops (x # ops) (d_db (sy_d S)))\<rparr>\<rparr>)"
      by (simp add: run_ops_snd del: run_ops.simps(2))
    ultimately show ?case by (rule converse_rtranclp_into_rtranclp)
  qed simp
  moreover obtain ops where "list_all external ops"
      "snd (main p polls args (d_db (sy_d S))) = snd (run_ops ops (d_db (sy_d S)))"
    using main_outside [of "d_db (sy_d S)" p polls args] unfolding done_outside_def by blast
  ultimately show ?thesis by auto
qed

end
